theory Spec2Isabelle
  imports Complex_Main "HOL-Library.Word" "HOL-Library.Monad_Syntax"
begin

unbundle bit_operations_syntax

section \<open>The JavaScript values the program handles\<close>

text \<open>
  K9Guard is TypeScript. Its types are erased when it runs, and two of its entry points
  (\<open>K9Guard.processOptions\<close>, \<open>K9Guard.isValidChallenge\<close>) take a value of type
  \<open>unknown\<close> and test it with \<open>typeof\<close>. The values are therefore modelled as they
  are at run time: a string is a sequence of UTF-16 code units, a number is a binary64
  value, and a value is one of JavaScript's kinds. Only JSON-like values are modelled
  (no functions, symbols, getters or prototypes).
\<close>

type_synonym jschar = "16 word"
type_synonym jsstring = "jschar list"

definition js :: "string \<Rightarrow> jsstring" where
  "js s = map of_char s"

datatype jsnum = NaN | PInf | NInf | Num rat

datatype jsval =
    JUndefined
  | JNull
  | JBool bool
  | JNum jsnum
  | JStr jsstring
  | JArr "jsval list"
  | JObj "(jsstring \<times> jsval) list"

subsection \<open>Numbers: rounding to binary64\<close>

text \<open>
  A finite number is the rational it denotes (\<open>-0\<close> is not told from \<open>0\<close>: the program
  only prints, compares and tests numbers). \<open>fl\<close> rounds a rational to the nearest
  binary64 value, ties to even, with gradual underflow and overflow to infinity.
\<close>

definition pow2 :: "int \<Rightarrow> rat" where
  "pow2 e = (if 0 \<le> e then 2 ^ nat e else 1 / 2 ^ nat (- e))"

definition pow10 :: "int \<Rightarrow> rat" where
  "pow10 e = (if 0 \<le> e then 10 ^ nat e else 1 / 10 ^ nat (- e))"

definition round_half_even :: "rat \<Rightarrow> int" where
  "round_half_even x =
     (let f = \<lfloor>x\<rfloor>; d = x - of_int f
      in if d < 1 / 2 then f else if 1 / 2 < d then f + 1 else if even f then f else f + 1)"

text \<open>The number of digits of \<open>n\<close> in base \<open>b\<close>.\<close>

function ndigits :: "int \<Rightarrow> int \<Rightarrow> int" where
  "ndigits b n = (if b < 2 \<or> n \<le> 0 then 0 else 1 + ndigits b (n div b))"
  by pat_completeness auto
termination
  by (relation "measure (\<lambda>(b, n). nat n)") (auto simp: int_div_less_self)

declare ndigits.simps [simp del]

text \<open>\<open>ilog b a\<close> is the integer \<open>e\<close> with \<open>b ^ e \<le> a < b ^ (e + 1)\<close>, for \<open>a > 0\<close>.\<close>

definition ilog :: "int \<Rightarrow> rat \<Rightarrow> int" where
  "ilog b a =
     (if 1 \<le> a then ndigits b \<lfloor>a\<rfloor> - 1
      else - ndigits b (\<lceil>1 / a\<rceil> - 1))"

definition fl :: "rat \<Rightarrow> jsnum" where
  "fl r =
     (if r = 0 then Num 0
      else let a = \<bar>r\<bar>;
               E = max (ilog 2 a) (- 1022);
               q = pow2 (E - 52);
               v = of_int (round_half_even (a / q)) * q
           in if pow2 1024 \<le> v then (if r < 0 then NInf else PInf)
              else Num (if r < 0 then - v else v))"

definition isNaN :: "jsnum \<Rightarrow> bool" where
  "isNaN x \<longleftrightarrow> x = NaN"

definition isFinite :: "jsnum \<Rightarrow> bool" where
  "isFinite x \<longleftrightarrow> (case x of Num _ \<Rightarrow> True | _ \<Rightarrow> False)"

definition negate :: "jsnum \<Rightarrow> jsnum" where
  "negate x = (case x of NaN \<Rightarrow> NaN | PInf \<Rightarrow> NInf | NInf \<Rightarrow> PInf | Num r \<Rightarrow> Num (- r))"

text \<open>\<open>a > b\<close> on numbers: false when either side is NaN.\<close>

definition num_gt :: "jsnum \<Rightarrow> jsnum \<Rightarrow> bool" where
  "num_gt a b =
     (case (a, b) of
        (NaN, _) \<Rightarrow> False
      | (_, NaN) \<Rightarrow> False
      | (PInf, PInf) \<Rightarrow> False
      | (PInf, _) \<Rightarrow> True
      | (NInf, _) \<Rightarrow> False
      | (Num x, PInf) \<Rightarrow> False
      | (Num x, NInf) \<Rightarrow> True
      | (Num x, Num y) \<Rightarrow> y < x)"

subsection \<open>Numbers: Number.prototype.toString\<close>

function digitsOf :: "int \<Rightarrow> jsstring" where
  "digitsOf n = (if n < 10 then [of_int (48 + n)] else digitsOf (n div 10) @ [of_int (48 + n mod 10)])"
  by pat_completeness auto
termination
  by (relation "measure nat") (auto simp: int_div_less_self)

declare digitsOf.simps [simp del]

text \<open>
  Number::toString prints the decimal \<open>s * 10 ^ (n - k)\<close> with the fewest digits \<open>k\<close> that
  denotes the number, that is, that rounds to it; of two such \<open>s\<close> the closer one, then
  the even one. \<open>candidate r n k\<close> is that \<open>s\<close> for \<open>k\<close> digits, if there is one
  (\<open>r > 0\<close>, \<open>10 ^ (n - 1) \<le> r < 10 ^ n\<close>); seventeen digits always suffice.
\<close>

definition candidate :: "rat \<Rightarrow> int \<Rightarrow> int \<Rightarrow> int option" where
  "candidate r n k =
     (let e = n - k;
          s1 = \<lfloor>r / pow10 e\<rfloor>;
          s2 = s1 + 1;
          ok1 = (fl (of_int s1 * pow10 e) = Num r);
          ok2 = (fl (of_int s2 * pow10 e) = Num r);
          d1 = \<bar>of_int s1 * pow10 e - r\<bar>;
          d2 = \<bar>of_int s2 * pow10 e - r\<bar>
      in if ok1 \<and> ok2 then Some (if d1 < d2 then s1 else if d2 < d1 then s2 else if even s1 then s1 else s2)
         else if ok1 then Some s1
         else if ok2 then Some s2
         else None)"

fun shortest :: "rat \<Rightarrow> int \<Rightarrow> nat \<Rightarrow> int \<Rightarrow> int \<times> int" where
  "shortest r n 0 k = (\<lfloor>r / pow10 (n - k)\<rfloor>, k)"
| "shortest r n (Suc more) k =
     (case candidate r n k of Some s \<Rightarrow> (s, k) | None \<Rightarrow> shortest r n more (k + 1))"

function stripZeros :: "int \<Rightarrow> int" where
  "stripZeros s = (if 0 < s \<and> s mod 10 = 0 then stripZeros (s div 10) else s)"
  by pat_completeness auto
termination
  by (relation "measure nat") (auto simp: int_div_less_self)

declare stripZeros.simps [simp del]

definition expString :: "int \<Rightarrow> jsstring" where
  "expString n = (if 0 \<le> n - 1 then js ''e+'' @ digitsOf (n - 1) else js ''e-'' @ digitsOf (1 - n))"

definition posToString :: "rat \<Rightarrow> jsstring" where
  "posToString r =
     (let n0 = ilog 10 r + 1;
          (s0, k0) = shortest r n0 17 1;
          n = n0 - k0 + ndigits 10 s0;
          ds = digitsOf (stripZeros s0);
          k = int (length ds)
      in if k \<le> n \<and> n \<le> 21 then ds @ replicate (nat (n - k)) 48
         else if 0 < n \<and> n \<le> 21 then take (nat n) ds @ js ''.'' @ drop (nat n) ds
         else if - 6 < n \<and> n \<le> 0 then js ''0.'' @ replicate (nat (- n)) 48 @ ds
         else if k = 1 then ds @ expString n
         else take 1 ds @ js ''.'' @ drop 1 ds @ expString n)"

definition numToString :: "jsnum \<Rightarrow> jsstring" where
  "numToString x =
     (case x of
        NaN \<Rightarrow> js ''NaN''
      | PInf \<Rightarrow> js ''Infinity''
      | NInf \<Rightarrow> js ''-Infinity''
      | Num r \<Rightarrow> if r = 0 then js ''0'' else if r < 0 then js ''-'' @ posToString (- r) else posToString r)"

subsection \<open>Strings: white space, trim, parseFloat\<close>

definition isWhiteSpace :: "jschar \<Rightarrow> bool" where
  "isWhiteSpace c \<longleftrightarrow>
     c = 0x09 \<or> c = 0x0A \<or> c = 0x0B \<or> c = 0x0C \<or> c = 0x0D \<or> c = 0x20 \<or> c = 0xA0 \<or>
     c = 0x1680 \<or> (0x2000 \<le> c \<and> c \<le> 0x200A) \<or> c = 0x2028 \<or> c = 0x2029 \<or> c = 0x202F \<or>
     c = 0x205F \<or> c = 0x3000 \<or> c = 0xFEFF"

definition trimStart :: "jsstring \<Rightarrow> jsstring" where
  "trimStart s = dropWhile isWhiteSpace s"

definition trim :: "jsstring \<Rightarrow> jsstring" where
  "trim s = rev (dropWhile isWhiteSpace (rev (dropWhile isWhiteSpace s)))"

definition isDigit :: "jschar \<Rightarrow> bool" where
  "isDigit c \<longleftrightarrow> 0x30 \<le> c \<and> c \<le> 0x39"

definition digitsValue :: "jsstring \<Rightarrow> int" where
  "digitsValue ds = foldl (\<lambda>acc c. 10 * acc + (uint c - 48)) 0 ds"

text \<open>The exponent part \<open>e[+-]digits\<close> of a decimal literal, when the text starts with
  one: its value and what follows it.\<close>

definition exponentPart :: "jsstring \<Rightarrow> (int \<times> jsstring) option" where
  "exponentPart s =
     (case s of
        [] \<Rightarrow> None
      | c # t \<Rightarrow>
          if c = 0x65 \<or> c = 0x45 then
            (let (neg, u) = (case t of
                               [] \<Rightarrow> (False, t)
                             | d # v \<Rightarrow> if d = 0x2D then (True, v)
                                        else if d = 0x2B then (False, v) else (False, t));
                 ds = takeWhile isDigit u
             in if ds = [] then None
                else Some (if neg then - digitsValue ds else digitsValue ds, dropWhile isDigit u))
          else None)"

text \<open>The longest prefix that is an unsigned decimal literal (\<open>digits[.digits][exponent]\<close>
  or \<open>.digits[exponent]\<close>), as the exact decimal \<open>m * 10 ^ e\<close>, with the rest of the text.\<close>

definition unsignedDecimal :: "jsstring \<Rightarrow> (int \<times> int \<times> jsstring) option" where
  "unsignedDecimal s =
     (let ip = takeWhile isDigit s;
          r1 = dropWhile isDigit s;
          (fp, r2) = (case r1 of
                        [] \<Rightarrow> ([], r1)
                      | c # t \<Rightarrow> if c = 0x2E then (takeWhile isDigit t, dropWhile isDigit t)
                                 else ([], r1))
      in if ip = [] \<and> fp = [] then None
         else let m = digitsValue (ip @ fp); sc = - int (length fp)
              in (case exponentPart r2 of
                    Some (x, r3) \<Rightarrow> Some (m, sc + x, r3)
                  | None \<Rightarrow> Some (m, sc, r2)))"

definition unsignedValue :: "jsstring \<Rightarrow> jsnum" where
  "unsignedValue s =
     (if take 8 s = js ''Infinity'' then PInf
      else case unsignedDecimal s of
             None \<Rightarrow> NaN
           | Some (m, e, _) \<Rightarrow> fl (of_int m * pow10 e))"

definition parseFloat :: "jsstring \<Rightarrow> jsnum" where
  "parseFloat s =
     (case trimStart s of
        [] \<Rightarrow> NaN
      | c # t \<Rightarrow> if c = 0x2D then negate (unsignedValue t)
                 else if c = 0x2B then unsignedValue t
                 else unsignedValue (c # t))"

subsection \<open>Values: typeof, truthiness, property reads, conversion to string\<close>

fun typeof :: "jsval \<Rightarrow> string" where
  "typeof JUndefined = ''undefined''"
| "typeof JNull = ''object''"
| "typeof (JBool b) = ''boolean''"
| "typeof (JNum n) = ''number''"
| "typeof (JStr s) = ''string''"
| "typeof (JArr xs) = ''object''"
| "typeof (JObj kvs) = ''object''"

fun truthy :: "jsval \<Rightarrow> bool" where
  "truthy JUndefined = False"
| "truthy JNull = False"
| "truthy (JBool b) = b"
| "truthy (JNum n) = (n \<noteq> NaN \<and> n \<noteq> Num 0)"
| "truthy (JStr s) = (s \<noteq> [])"
| "truthy (JArr xs) = True"
| "truthy (JObj kvs) = True"

text \<open>
  \<open>getProp v name\<close> is the property read \<open>v.name\<close>, for the names the program reads.
  Reading a property of \<open>undefined\<close> or \<open>null\<close> throws a TypeError: that is \<open>None\<close>.
  A property an object does not have reads as \<open>undefined\<close>.
\<close>

fun getProp :: "jsval \<Rightarrow> jsstring \<Rightarrow> jsval option" where
  "getProp JUndefined name = None"
| "getProp JNull name = None"
| "getProp (JObj kvs) name = Some (case map_of kvs name of Some v \<Rightarrow> v | None \<Rightarrow> JUndefined)"
| "getProp (JArr xs) name =
     Some (if name = js ''length'' then JNum (Num (of_nat (length xs))) else JUndefined)"
| "getProp (JStr s) name =
     Some (if name = js ''length'' then JNum (Num (of_nat (length s))) else JUndefined)"
| "getProp (JBool b) name = Some JUndefined"
| "getProp (JNum n) name = Some JUndefined"

text \<open>\<open>elemAt v i\<close> is the indexed read \<open>v[i]\<close> for a non-negative integer \<open>i\<close>.\<close>

fun elemAt :: "jsval \<Rightarrow> nat \<Rightarrow> jsval option" where
  "elemAt JUndefined i = None"
| "elemAt JNull i = None"
| "elemAt (JArr xs) i = Some (if i < length xs then xs ! i else JUndefined)"
| "elemAt (JObj kvs) i =
     Some (case map_of kvs (digitsOf (int i)) of Some v \<Rightarrow> v | None \<Rightarrow> JUndefined)"
| "elemAt (JStr s) i = Some (if i < length s then JStr [s ! i] else JUndefined)"
| "elemAt (JBool b) i = Some JUndefined"
| "elemAt (JNum n) i = Some JUndefined"

text \<open>Strict equality \<open>===\<close>. Two objects are equal when they are the same object; the
  program only compares a value with a string or a number, so that case is never asked.\<close>

fun strictEq :: "jsval \<Rightarrow> jsval \<Rightarrow> bool" where
  "strictEq JUndefined JUndefined = True"
| "strictEq JNull JNull = True"
| "strictEq (JBool a) (JBool b) = (a = b)"
| "strictEq (JNum a) (JNum b) = (a \<noteq> NaN \<and> b \<noteq> NaN \<and> a = b)"
| "strictEq (JStr a) (JStr b) = (a = b)"
| "strictEq a b = False"

fun joinWith :: "jsstring \<Rightarrow> jsstring list \<Rightarrow> jsstring" where
  "joinWith sep [] = []"
| "joinWith sep [x] = x"
| "joinWith sep (x # y # ys) = x @ sep @ joinWith sep (y # ys)"

text \<open>ToString, as string concatenation applies it to its right operand.\<close>

fun jsToString :: "jsval \<Rightarrow> jsstring" where
  "jsToString JUndefined = js ''undefined''"
| "jsToString JNull = js ''null''"
| "jsToString (JBool b) = (if b then js ''true'' else js ''false'')"
| "jsToString (JNum n) = numToString n"
| "jsToString (JStr s) = s"
| "jsToString (JArr xs) =
     joinWith (js '','')
       (map (\<lambda>x. if x = JUndefined \<or> x = JNull then [] else jsToString x) xs)"
| "jsToString (JObj kvs) = js ''[object Object]''"

subsection \<open>JSON.parse\<close>

datatype token = TLBrack | TRBrack | TLBrace | TRBrace | TComma | TColon | TLit jsval

definition hexDigit :: "jschar \<Rightarrow> jschar option" where
  "hexDigit c =
     (if 0x30 \<le> c \<and> c \<le> 0x39 then Some (c - 0x30)
      else if 0x61 \<le> c \<and> c \<le> 0x66 then Some (c - 0x61 + 10)
      else if 0x41 \<le> c \<and> c \<le> 0x46 then Some (c - 0x41 + 10)
      else None)"

definition hex4 :: "jschar \<Rightarrow> jschar \<Rightarrow> jschar \<Rightarrow> jschar \<Rightarrow> jschar option" where
  "hex4 a b c d =
     (case (hexDigit a, hexDigit b, hexDigit c, hexDigit d) of
        (Some w, Some x, Some y, Some z) \<Rightarrow> Some (((w * 16 + x) * 16 + y) * 16 + z)
      | _ \<Rightarrow> None)"

text \<open>An escape sequence after its backslash: the code unit and what follows.\<close>

definition lexEscape :: "jsstring \<Rightarrow> (jschar \<times> jsstring) option" where
  "lexEscape cs =
     (case cs of
        [] \<Rightarrow> None
      | e # r \<Rightarrow>
          if e = 0x22 \<or> e = 0x5C \<or> e = 0x2F then Some (e, r)
          else if e = 0x62 then Some (0x08, r)
          else if e = 0x66 then Some (0x0C, r)
          else if e = 0x6E then Some (0x0A, r)
          else if e = 0x72 then Some (0x0D, r)
          else if e = 0x74 then Some (0x09, r)
          else if e = 0x75 then
            (case r of
               h1 # h2 # h3 # h4 # r' \<Rightarrow>
                 (case hex4 h1 h2 h3 h4 of Some u \<Rightarrow> Some (u, r') | None \<Rightarrow> None)
             | _ \<Rightarrow> None)
          else None)"

lemma lexEscape_shorter: "lexEscape cs = Some (u, r) \<Longrightarrow> length r < length cs"
  unfolding lexEscape_def
  by (cases cs) (simp_all split: if_split_asm list.split_asm option.split_asm)

text \<open>The text of a string literal after its opening quote: the string and what follows
  the closing quote.\<close>

function lexString :: "jsstring \<Rightarrow> jsstring \<Rightarrow> (jsstring \<times> jsstring) option" where
  "lexString acc [] = None"
| "lexString acc (c # cs) =
     (if c = 0x22 then Some (rev acc, cs)
      else if c < 0x20 then None
      else if c = 0x5C then
        (case lexEscape cs of
           None \<Rightarrow> None
         | Some (u, r) \<Rightarrow> lexString (u # acc) r)
      else lexString (c # acc) cs)"
  by pat_completeness auto
termination
  by (relation "measure (\<lambda>(acc, s). length s)")
     (auto dest: lexEscape_shorter)

text \<open>A JSON number at the start of the text:
  \<open>-? (0 | [1-9][0-9]*) (.[0-9]+)? ([eE][+-]?[0-9]+)?\<close>, with what follows it.\<close>

definition fractionPart :: "jsstring \<Rightarrow> (jsstring \<times> jsstring) option" where
  "fractionPart s =
     (case s of
        [] \<Rightarrow> Some ([], s)
      | c # t \<Rightarrow>
          if c = 0x2E then
            (if takeWhile isDigit t = [] then None
             else Some (takeWhile isDigit t, dropWhile isDigit t))
          else Some ([], s))"

definition jsonExponent :: "jsstring \<Rightarrow> (int \<times> jsstring) option" where
  "jsonExponent s =
     (case s of
        [] \<Rightarrow> Some (0, s)
      | c # t \<Rightarrow> if c = 0x65 \<or> c = 0x45 then exponentPart s else Some (0, s))"

definition unsignedNumber :: "jsstring \<Rightarrow> (jsnum \<times> jsstring) option" where
  "unsignedNumber s =
     (let ip = takeWhile isDigit s
      in if ip = [] \<or> (1 < length ip \<and> hd ip = 0x30) then None
         else case fractionPart (dropWhile isDigit s) of
                None \<Rightarrow> None
              | Some (fp, r2) \<Rightarrow>
                  (case jsonExponent r2 of
                     None \<Rightarrow> None
                   | Some (x, r3) \<Rightarrow>
                       Some (fl (of_int (digitsValue (ip @ fp)) * pow10 (x - int (length fp))), r3)))"

definition lexNumber :: "jsstring \<Rightarrow> (jsnum \<times> jsstring) option" where
  "lexNumber s =
     (case s of
        [] \<Rightarrow> None
      | c # t \<Rightarrow>
          if c = 0x2D then map_option (\<lambda>(n, r). (negate n, r)) (unsignedNumber t)
          else unsignedNumber s)"

lemma lexString_shorter: "lexString acc s = Some (v, r) \<Longrightarrow> length r < length s"
proof (induction acc s rule: lexString.induct)
  case (1 acc)
  then show ?case by simp
next
  case (2 acc c cs)
  show ?case
  proof (cases "c = 0x22")
    case True
    with "2.prems" show ?thesis by simp
  next
    case q: False
    show ?thesis
    proof (cases "c < 0x20")
      case True
      with q "2.prems" show ?thesis by simp
    next
      case ctl: False
      show ?thesis
      proof (cases "c = 0x5C")
        case True
        with q ctl "2.prems" obtain u r' where e: "lexEscape cs = Some (u, r')"
          and l: "lexString (u # acc) r' = Some (v, r)"
          by (auto split: option.splits)
        from "2.IH"(1) [OF q ctl True e refl l] lexEscape_shorter [OF e]
        show ?thesis by simp
      next
        case False
        with q ctl "2.prems" have "lexString (c # acc) cs = Some (v, r)" by simp
        from "2.IH"(2) [OF q ctl False this] show ?thesis by simp
      qed
    qed
  qed
qed

lemma exponentPart_shorter: "exponentPart s = Some (x, r) \<Longrightarrow> length r < length s"
  unfolding exponentPart_def Let_def
  by (cases s) (auto split: list.splits if_splits intro: le_less_trans [OF length_dropWhile_le])

lemma dropWhile_digits_shorter:
  "takeWhile isDigit t \<noteq> [] \<Longrightarrow> length (dropWhile isDigit t) < length t"
  by (cases t) (auto split: if_splits intro: le_less_trans [OF length_dropWhile_le])

lemma fractionPart_le: "fractionPart s = Some (fp, r) \<Longrightarrow> length r \<le> length s"
  unfolding fractionPart_def
  by (cases s) (auto split: if_splits intro: le_trans [OF length_dropWhile_le])

lemma jsonExponent_le: "jsonExponent s = Some (x, r) \<Longrightarrow> length r \<le> length s"
  unfolding jsonExponent_def
  by (cases s) (auto split: if_splits dest: exponentPart_shorter)

lemma unsignedNumber_shorter:
  assumes "unsignedNumber s = Some (n, r)"
  shows "length r < length s"
proof -
  from assms have ip: "takeWhile isDigit s \<noteq> []"
    unfolding unsignedNumber_def Let_def by (auto split: if_splits)
  from assms ip obtain fp r2 x where
    f: "fractionPart (dropWhile isDigit s) = Some (fp, r2)" and
    e: "jsonExponent r2 = Some (x, r)"
    unfolding unsignedNumber_def Let_def by (auto split: if_splits option.splits)
  from dropWhile_digits_shorter [OF ip] fractionPart_le [OF f] jsonExponent_le [OF e]
  show ?thesis by simp
qed

lemma lexNumber_shorter: "lexNumber s = Some (n, r) \<Longrightarrow> length r < length s"
  unfolding lexNumber_def
  by (cases s) (auto split: if_splits dest: unsignedNumber_shorter)

text \<open>The tokens of a JSON text; \<open>None\<close> when a character fits no token.\<close>

function lex :: "jsstring \<Rightarrow> token list option" where
  "lex [] = Some []"
| "lex (c # cs) =
     (if c = 0x20 \<or> c = 0x0A \<or> c = 0x0D \<or> c = 0x09 then lex cs
      else if c = 0x5B then map_option ((#) TLBrack) (lex cs)
      else if c = 0x5D then map_option ((#) TRBrack) (lex cs)
      else if c = 0x7B then map_option ((#) TLBrace) (lex cs)
      else if c = 0x7D then map_option ((#) TRBrace) (lex cs)
      else if c = 0x2C then map_option ((#) TComma) (lex cs)
      else if c = 0x3A then map_option ((#) TColon) (lex cs)
      else if c = 0x22 then
        (case lexString [] cs of
           None \<Rightarrow> None
         | Some (s, r) \<Rightarrow> map_option ((#) (TLit (JStr s))) (lex r))
      else if c = 0x2D \<or> isDigit c then
        (case lexNumber (c # cs) of
           None \<Rightarrow> None
         | Some (n, r) \<Rightarrow> map_option ((#) (TLit (JNum n))) (lex r))
      else if take 4 (c # cs) = js ''true'' then map_option ((#) (TLit (JBool True))) (lex (drop 3 cs))
      else if take 5 (c # cs) = js ''false'' then map_option ((#) (TLit (JBool False))) (lex (drop 4 cs))
      else if take 4 (c # cs) = js ''null'' then map_option ((#) (TLit JNull)) (lex (drop 3 cs))
      else None)"
  by pat_completeness auto
termination
  by (relation "measure length")
     (auto dest: lexString_shorter lexNumber_shorter)

text \<open>
  The parser is a stack machine over the tokens. A frame is an array or an object being
  read; the mode says what may come next.
\<close>

datatype frame = FArr "jsval list" | FObj "(jsstring \<times> jsval) list" jsstring

datatype pmode =
    Val           \<comment> \<open>a value must come\<close>
  | ValOrClose    \<comment> \<open>just after \<open>[\<close>\<close>
  | KeyOrClose    \<comment> \<open>just after \<open>{\<close>\<close>
  | Key           \<comment> \<open>after a comma in an object\<close>
  | Colon         \<comment> \<open>after a key\<close>
  | Done jsval    \<comment> \<open>a value has been read\<close>

function (sequential) parseTokens :: "frame list \<Rightarrow> pmode \<Rightarrow> token list \<Rightarrow> jsval option" where
  "parseTokens st (Done v) [] = (if st = [] then Some v else None)"
| "parseTokens st m [] = None"
| "parseTokens st Val (TLit v # ts) = parseTokens st (Done v) ts"
| "parseTokens st Val (TLBrack # ts) = parseTokens (FArr [] # st) ValOrClose ts"
| "parseTokens st Val (TLBrace # ts) = parseTokens (FObj [] [] # st) KeyOrClose ts"
| "parseTokens st Val (t # ts) = None"
| "parseTokens (FArr [] # st) ValOrClose (TRBrack # ts) = parseTokens st (Done (JArr [])) ts"
| "parseTokens st ValOrClose ts = parseTokens st Val ts"
| "parseTokens (FObj [] k # st) KeyOrClose (TRBrace # ts) = parseTokens st (Done (JObj [])) ts"
| "parseTokens st KeyOrClose ts = parseTokens st Key ts"
| "parseTokens (FObj kvs k # st) Key (TLit (JStr s) # ts) = parseTokens (FObj kvs s # st) Colon ts"
| "parseTokens st Key (t # ts) = None"
| "parseTokens st Colon (TColon # ts) = parseTokens st Val ts"
| "parseTokens st Colon (t # ts) = None"
| "parseTokens (FArr acc # st) (Done v) (TComma # ts) = parseTokens (FArr (v # acc) # st) Val ts"
| "parseTokens (FArr acc # st) (Done v) (TRBrack # ts) = parseTokens st (Done (JArr (rev (v # acc)))) ts"
| "parseTokens (FObj kvs k # st) (Done v) (TComma # ts) = parseTokens (FObj ((k, v) # kvs) k # st) Key ts"
| "parseTokens (FObj kvs k # st) (Done v) (TRBrace # ts) = parseTokens st (Done (JObj ((k, v) # kvs))) ts"
| "parseTokens st (Done v) (t # ts) = None"
  by pat_completeness auto
termination
  by (relation "measure (\<lambda>(st, m, ts). 2 * length ts +
                  (if m = ValOrClose \<or> m = KeyOrClose then 1 else 0))") auto

text \<open>\<open>JSON.parse\<close>: \<open>None\<close> is the SyntaxError it throws. An object keeps its members
  latest first, so that of two members with one key the later one is read.\<close>

definition JSON_parse :: "jsstring \<Rightarrow> jsval option" where
  "JSON_parse s = (case lex s of None \<Rightarrow> None | Some ts \<Rightarrow> parseTokens [] Val ts)"

section \<open>The repository's digest (src/utils/crypto.ts)\<close>

text \<open>\<open>TextEncoder.encode\<close>: the UTF-8 bytes of a string; a surrogate that is not part of a
  pair is encoded as U+FFFD.\<close>

definition utf8 :: "nat \<Rightarrow> 8 word list" where
  "utf8 cp =
     (if cp < 0x80 then [of_nat cp]
      else if cp < 0x800 then [of_nat (0xC0 + cp div 64), of_nat (0x80 + cp mod 64)]
      else if cp < 0x10000 then
        [of_nat (0xE0 + cp div 4096), of_nat (0x80 + cp div 64 mod 64), of_nat (0x80 + cp mod 64)]
      else
        [of_nat (0xF0 + cp div 262144), of_nat (0x80 + cp div 4096 mod 64),
         of_nat (0x80 + cp div 64 mod 64), of_nat (0x80 + cp mod 64)])"

fun TextEncoder_encode :: "jsstring \<Rightarrow> 8 word list" where
  "TextEncoder_encode [] = []"
| "TextEncoder_encode [c] =
     (if 0xD800 \<le> c \<and> c \<le> 0xDFFF then utf8 0xFFFD else utf8 (unat c))"
| "TextEncoder_encode (c # d # cs) =
     (if 0xD800 \<le> c \<and> c \<le> 0xDBFF then
        (if 0xDC00 \<le> d \<and> d \<le> 0xDFFF then
           utf8 (0x10000 + (unat c - 0xD800) * 1024 + (unat d - 0xDC00)) @ TextEncoder_encode cs
         else utf8 0xFFFD @ TextEncoder_encode (d # cs))
      else if 0xDC00 \<le> c \<and> c \<le> 0xDFFF then utf8 0xFFFD @ TextEncoder_encode (d # cs)
      else utf8 (unat c) @ TextEncoder_encode (d # cs))"

text \<open>
  \<open>CryptoHash.computeHashSync\<close>. \<open>simpleHash\<close> is a \<open>Uint8Array(32)\<close>; the arithmetic is on
  JavaScript numbers (no overflow at these sizes) and \<open>& 0xFF\<close> cuts the result to a byte.
  The body of the first loop reads \<open>val1\<close> and \<open>val2\<close>, then writes index \<open>idx1\<close>, then
  index \<open>idx2\<close>.
\<close>

definition absorbByte :: "8 word list \<Rightarrow> nat \<Rightarrow> 8 word \<Rightarrow> 8 word list" where
  "absorbByte simpleHash i byteVal =
     (let idx1 = i mod 32;
          idx2 = (i * 7) mod 32;
          val1 = simpleHash ! idx1;
          val2 = simpleHash ! idx2;
          h1 = simpleHash[idx1 := val1 XOR byteVal]
      in h1[idx2 := of_nat (((unat val2 + unat byteVal) * 31) AND 0xFF)])"

fun absorb :: "8 word list \<Rightarrow> nat \<Rightarrow> 8 word list \<Rightarrow> 8 word list" where
  "absorb simpleHash i [] = simpleHash"
| "absorb simpleHash i (byteVal # rest) = absorb (absorbByte simpleHash i byteVal) (Suc i) rest"

definition mixByte :: "nat \<Rightarrow> 8 word list \<Rightarrow> nat \<Rightarrow> 8 word list" where
  "mixByte rnd simpleHash i =
     (let prev = simpleHash ! ((i + 31) mod 32);
          curr = simpleHash ! i;
          next = simpleHash ! ((i + 1) mod 32)
      in simpleHash[i := of_nat (((unat prev + unat curr * 2 + unat next) * 7 + rnd) AND 0xFF)])"

definition diffuse :: "8 word list \<Rightarrow> nat \<Rightarrow> 8 word list" where
  "diffuse simpleHash rnd = foldl (mixByte rnd) simpleHash [0..<32]"

definition computeHashSync :: "8 word list \<Rightarrow> 8 word list" where
  "computeHashSync data = foldl diffuse (absorb (replicate 32 0) 0 data) [0..<16]"

text \<open>\<open>b.toString(16).padStart(2, '0')\<close>, joined.\<close>

definition hexChar :: "nat \<Rightarrow> jschar" where
  "hexChar n = (if n < 10 then of_nat (48 + n) else of_nat (87 + n))"

definition toHex :: "8 word list \<Rightarrow> jsstring" where
  "toHex bytes = concat (map (\<lambda>b. [hexChar (unat b div 16), hexChar (unat b mod 16)]) bytes)"

text \<open>A \<open>CryptoHash\<close> is its \<open>dataChunks\<close>; \<open>update\<close> appends a chunk, \<open>digest\<close> hashes their
  concatenation.\<close>

type_synonym CryptoHash = "8 word list list"

definition update :: "CryptoHash \<Rightarrow> jsstring \<Rightarrow> CryptoHash" where
  "update dataChunks input = dataChunks @ [TextEncoder_encode input]"

definition updateBytes :: "CryptoHash \<Rightarrow> 8 word list \<Rightarrow> CryptoHash" where
  "updateBytes dataChunks input = dataChunks @ [input]"

definition getCombinedData :: "CryptoHash \<Rightarrow> 8 word list" where
  "getCombinedData dataChunks = concat dataChunks"

definition digestBytes :: "CryptoHash \<Rightarrow> 8 word list" where
  "digestBytes dataChunks = computeHashSync (getCombinedData dataChunks)"

definition digestHex :: "CryptoHash \<Rightarrow> jsstring" where
  "digestHex dataChunks = toHex (digestBytes dataChunks)"

text \<open>\<open>createHash('sha256').update(text).digest('hex')\<close> with the repository's
  \<open>createHash\<close>.\<close>

definition createHash_hex :: "jsstring \<Rightarrow> jsstring" where
  "createHash_hex text = digestHex (update [] text)"

section \<open>The validator (src/core/captchaValidator.ts)\<close>

text \<open>
  \<open>createHash('sha256').update(text).digest('hex')\<close> in this file is Node's built-in
  \<open>crypto\<close> module, not the repository's \<open>utils/crypto\<close>. It is a function from the text to
  a hex string, and it is the parameter \<open>H\<close> of every function below.
\<close>

type_synonym hashfn = "jsstring \<Rightarrow> jsstring"

definition MAX_INPUT_LENGTH :: nat where
  "MAX_INPUT_LENGTH = 1000"

text \<open>The character class of \<open>/^[a-zA-Z0-9\s\-...]*$/\<close>: Latin letters, digits, white
  space, the hyphen, twelve Turkish letters, and \<open>. , ' ! ?\<close>.\<close>

definition validChar :: "jschar \<Rightarrow> bool" where
  "validChar c \<longleftrightarrow>
     (0x61 \<le> c \<and> c \<le> 0x7A) \<or> (0x41 \<le> c \<and> c \<le> 0x5A) \<or> (0x30 \<le> c \<and> c \<le> 0x39) \<or>
     isWhiteSpace c \<or> c = 0x2D \<or>
     c = 0xE7 \<or> c = 0xC7 \<or> c = 0x11F \<or> c = 0x11E \<or> c = 0x131 \<or> c = 0x130 \<or>
     c = 0xF6 \<or> c = 0xD6 \<or> c = 0x15F \<or> c = 0x15E \<or> c = 0xFC \<or> c = 0xDC \<or>
     c = 0x2E \<or> c = 0x2C \<or> c = 0x27 \<or> c = 0x21 \<or> c = 0x3F"

definition VALID_CHAR_REGEX_test :: "jsstring \<Rightarrow> bool" where
  "VALID_CHAR_REGEX_test s = list_all validChar s"

definition isValidInput :: "jsval \<Rightarrow> bool" where
  "isValidInput input =
     (case input of
        JStr s \<Rightarrow> if length s = 0 \<or> length s > MAX_INPUT_LENGTH then False else True
      | _ \<Rightarrow> False)"

definition verifyAnswer :: "hashfn \<Rightarrow> jsval \<Rightarrow> jsstring \<Rightarrow> bool option" where
  "verifyAnswer H challenge userInput =
     do {
       salt \<leftarrow> getProp challenge (js ''salt'');
       let userHash = H (userInput @ jsToString salt);
       hashedAnswer \<leftarrow> getProp challenge (js ''hashedAnswer'');
       Some (strictEq (JStr userHash) hashedAnswer)
     }"

definition isNumericChallenge :: "jsval \<Rightarrow> bool option" where
  "isNumericChallenge challenge =
     do {
       t \<leftarrow> getProp challenge (js ''type'');
       if strictEq t (JStr (js ''math'')) \<or> strictEq t (JStr (js ''sequence'')) then Some True
       else if strictEq t (JStr (js ''mixed'')) then
         do { a \<leftarrow> getProp challenge (js ''answer''); Some (typeof a = ''number'') }
       else Some False
     }"

definition validateNumeric :: "hashfn \<Rightarrow> jsval \<Rightarrow> jsstring \<Rightarrow> bool option" where
  "validateNumeric H challenge userInput =
     (let inputNum = parseFloat userInput
      in if isNaN inputNum \<or> \<not> isFinite inputNum then Some False
         else verifyAnswer H challenge (numToString inputNum))"

definition validateText :: "hashfn \<Rightarrow> jsval \<Rightarrow> jsstring \<Rightarrow> bool option" where
  "validateText H challenge userInput =
     (let sanitized = trim userInput
      in if \<not> VALID_CHAR_REGEX_test sanitized then Some False
         else verifyAnswer H challenge sanitized)"

definition validateCustom :: "hashfn \<Rightarrow> jsval \<Rightarrow> jsstring \<Rightarrow> bool option" where
  "validateCustom H challenge userInput =
     (let sanitized = trim userInput
      in if \<not> VALID_CHAR_REGEX_test sanitized then Some False
         else verifyAnswer H challenge sanitized)"

lemma size_member:
  "map_of kvs k = Some v \<Longrightarrow> size v < size (JObj kvs)"
proof -
  assume "map_of kvs k = Some v"
  then have "(k, v) \<in> set kvs" by (rule map_of_SomeD)
  then have "size v < Suc (size_list (size_prod (\<lambda>_. 0) size) kvs)"
    by (induction kvs) auto
  then show ?thesis by simp
qed

lemma size_element:
  "i < length xs \<Longrightarrow> size (xs ! i) < size (JArr xs)"
proof -
  have mem: "x \<in> set xs \<Longrightarrow> size x < Suc (size_list size xs)" for x :: jsval
    by (induction xs) auto
  assume "i < length xs"
  then have "xs ! i \<in> set xs" by simp
  then show ?thesis using mem by simp
qed

lemma elemAt_size:
  "elemAt s i = Some step \<Longrightarrow> truthy step \<Longrightarrow> size step \<le> size s"
  by (cases s)
     (auto split: if_splits option.splits dest: size_member size_element less_imp_le)

lemma getProp_size:
  "getProp c name = Some s \<Longrightarrow> elemAt s i = Some step \<Longrightarrow> truthy step \<Longrightarrow>
   size step < size c"
proof (cases c)
  case (JObj kvs)
  assume g: "getProp c name = Some s" and e: "elemAt s i = Some step" and t: "truthy step"
  show ?thesis
  proof (cases "map_of kvs name")
    case None
    with g JObj have "s = JUndefined" by simp
    with e show ?thesis by simp
  next
    case (Some v)
    with g JObj have "s = v" by simp
    with Some have "size s < size c" using JObj by (simp only: size_member)
    with elemAt_size [OF e t] show ?thesis by simp
  qed
qed (auto split: if_splits)

text \<open>
  \<open>validate\<close>, \<open>validateMulti\<close> and the loop of \<open>validateMulti\<close> over the steps. The result
  is \<open>None\<close> when the source would throw, \<open>Some b\<close> when it returns \<open>b\<close>. The loop runs while
  \<open>i < challenge.steps.length\<close>; it is entered only after \<open>parsed.length\<close> was found equal
  to \<open>challenge.steps.length\<close>, so the bound is written \<open>length parsed\<close>.
\<close>

function validate :: "hashfn \<Rightarrow> jsval \<Rightarrow> jsval \<Rightarrow> bool option"
  and validateMulti :: "hashfn \<Rightarrow> jsval \<Rightarrow> jsstring \<Rightarrow> bool option"
  and validateSteps :: "hashfn \<Rightarrow> jsval \<Rightarrow> jsval list \<Rightarrow> nat \<Rightarrow> bool option"
where
  "validate H challenge userInput =
     (if \<not> isValidInput userInput then Some False
      else case userInput of
        JStr s \<Rightarrow>
          do {
            t \<leftarrow> getProp challenge (js ''type'');
            if strictEq t (JStr (js ''multi'')) then validateMulti H challenge s
            else if strictEq t (JStr (js ''custom'')) then validateCustom H challenge s
            else do {
              numeric \<leftarrow> isNumericChallenge challenge;
              if numeric then validateNumeric H challenge s
              else validateText H challenge s
            }
          }
      | _ \<Rightarrow> Some False)"
| "validateMulti H challenge userInput =
     do {
       steps \<leftarrow> getProp challenge (js ''steps'');
       if \<not> truthy steps then Some False
       else do {
         len \<leftarrow> getProp steps (js ''length'');
         if strictEq len (JNum (Num 0)) then Some False
         else case JSON_parse userInput of
           None \<Rightarrow> Some False
         | Some parsed \<Rightarrow>
             (case parsed of
                JArr xs \<Rightarrow>
                  if \<not> strictEq (JNum (Num (of_nat (length xs)))) len then Some False
                  else validateSteps H challenge xs 0
              | _ \<Rightarrow> Some False)
       }
     }"
| "validateSteps H challenge parsed i =
     (if i < length parsed then
        do {
          steps \<leftarrow> getProp challenge (js ''steps'');
          step \<leftarrow> elemAt steps i;
          let input = parsed ! i;
          if \<not> truthy step \<or> typeof input \<noteq> ''string'' then Some False
          else do {
            ok \<leftarrow> validate H step input;
            if \<not> ok then Some False
            else validateSteps H challenge parsed (Suc i)
          }
        }
      else Some True)"
  by pat_completeness auto
termination
  apply (relation "measures [
      (\<lambda>x. case x of Inl (H, c, u) \<Rightarrow> size c | Inr (Inl (H, c, s)) \<Rightarrow> size c
                      | Inr (Inr (H, c, xs, i)) \<Rightarrow> size c),
      (\<lambda>x. case x of Inl (H, c, u) \<Rightarrow> 2 | Inr (Inl (H, c, s)) \<Rightarrow> 1
                      | Inr (Inr (H, c, xs, i)) \<Rightarrow> 0),
      (\<lambda>x. case x of Inl (H, c, u) \<Rightarrow> 0 | Inr (Inl (H, c, s)) \<Rightarrow> 0
                      | Inr (Inr (H, c, xs, i)) \<Rightarrow> length xs - i)]")
      apply (auto dest: getProp_size)
  done

section \<open>The public verifier (K9Guard.validate)\<close>

definition isValidChallenge :: "jsval \<Rightarrow> bool option" where
  "isValidChallenge challenge =
     (if typeof challenge \<noteq> ''object'' \<or> challenge = JNull then Some False
      else do {
        t \<leftarrow> getProp challenge (js ''type'');
        q \<leftarrow> getProp challenge (js ''question'');
        n \<leftarrow> getProp challenge (js ''nonce'');
        e \<leftarrow> getProp challenge (js ''expiry'');
        h \<leftarrow> getProp challenge (js ''hashedAnswer'');
        s \<leftarrow> getProp challenge (js ''salt'');
        Some (typeof t = ''string'' \<and> typeof q = ''string'' \<and> typeof n = ''string'' \<and>
              typeof e = ''number'' \<and> typeof h = ''string'' \<and> typeof s = ''string'')
      })"

text \<open>\<open>a > b\<close> where both are numbers, as \<open>now > challenge.expiry\<close> is once
  \<open>isValidChallenge\<close> has passed.\<close>

fun jsGreater :: "jsval \<Rightarrow> jsval \<Rightarrow> bool" where
  "jsGreater (JNum a) (JNum b) = num_gt a b"
| "jsGreater a b = False"

text \<open>\<open>K9Guard.validate\<close>; \<open>now\<close> is what \<open>Date.now()\<close> returns, in milliseconds.\<close>

definition K9Guard_validate :: "hashfn \<Rightarrow> int \<Rightarrow> jsval \<Rightarrow> jsval \<Rightarrow> bool option" where
  "K9Guard_validate H now challenge userInput =
     do {
       valid \<leftarrow> isValidChallenge challenge;
       if \<not> valid then Some False
       else if typeof userInput \<noteq> ''string'' then Some False
       else do {
         expiry \<leftarrow> getProp challenge (js ''expiry'');
         if jsGreater (JNum (Num (of_int now))) expiry then Some False
         else validate H challenge userInput
       }
     }"

section \<open>Properties of the verifier\<close>

lemma getProp_object:
  "typeof c = ''object'' \<Longrightarrow> c \<noteq> JNull \<Longrightarrow> \<exists>v. getProp c name = Some v"
  by (cases c) auto

lemma getProp_defined:
  "c \<noteq> JUndefined \<Longrightarrow> c \<noteq> JNull \<Longrightarrow> \<exists>v. getProp c name = Some v"
  by (cases c) auto

lemma isValidChallenge_returns: "\<exists>b. isValidChallenge c = Some b"
  by (cases c) (auto simp: isValidChallenge_def)

lemma verifyAnswer_returns:
  "c \<noteq> JUndefined \<Longrightarrow> c \<noteq> JNull \<Longrightarrow> \<exists>b. verifyAnswer H c s = Some b"
  by (cases c) (auto simp: verifyAnswer_def)

lemma isNumericChallenge_returns:
  "c \<noteq> JUndefined \<Longrightarrow> c \<noteq> JNull \<Longrightarrow> \<exists>b. isNumericChallenge c = Some b"
  by (cases c) (auto simp: isNumericChallenge_def)

lemma truthy_defined: "truthy v \<Longrightarrow> v \<noteq> JUndefined \<and> v \<noteq> JNull"
  by (cases v) auto

lemma validateCustom_returns:
  "c \<noteq> JUndefined \<Longrightarrow> c \<noteq> JNull \<Longrightarrow> \<exists>b. validateCustom H c s = Some b"
  using verifyAnswer_returns [of c H] by (auto simp: validateCustom_def Let_def)

lemma validateText_returns:
  "c \<noteq> JUndefined \<Longrightarrow> c \<noteq> JNull \<Longrightarrow> \<exists>b. validateText H c s = Some b"
  using verifyAnswer_returns [of c H] by (auto simp: validateText_def Let_def)

lemma validateNumeric_returns:
  "c \<noteq> JUndefined \<Longrightarrow> c \<noteq> JNull \<Longrightarrow> \<exists>b. validateNumeric H c s = Some b"
  using verifyAnswer_returns [of c H] by (auto simp: validateNumeric_def Let_def)

declare validate.simps [simp del] validateMulti.simps [simp del] validateSteps.simps [simp del]

lemma validate_returns_aux:
  "c \<noteq> JUndefined \<and> c \<noteq> JNull \<longrightarrow> (\<exists>b. validate H c u = Some b)"
  "c' \<noteq> JUndefined \<and> c' \<noteq> JNull \<longrightarrow> (\<exists>b. validateMulti H' c' s = Some b)"
  "(\<exists>steps. getProp c'' (js ''steps'') = Some steps \<and> truthy steps) \<longrightarrow>
     (\<exists>b. validateSteps H'' c'' xs i = Some b)"
proof (induction H c u and H' c' s and H'' c'' xs i rule: validate_validateMulti_validateSteps.induct)
  case (1 H challenge userInput)
  show ?case
  proof
    assume d: "challenge \<noteq> JUndefined \<and> challenge \<noteq> JNull"
    then obtain t where t: "getProp challenge (js ''type'') = Some t"
      using getProp_defined by blast
    from d obtain n where n: "isNumericChallenge challenge = Some n"
      using isNumericChallenge_returns by blast
    show "\<exists>b. validate H challenge userInput = Some b"
    proof (cases "isValidInput userInput")
      case False
      then show ?thesis by (auto simp: validate.simps)
    next
      case True
      then obtain str where str: "userInput = JStr str"
        by (cases userInput) (auto simp: isValidInput_def)
      show ?thesis
      proof (cases "strictEq t (JStr (js ''multi''))")
        case m: True
        from True have nv: "\<not> \<not> isValidInput userInput" by simp
        from "1.IH" [OF nv str t m] d
        obtain b where "validateMulti H challenge str = Some b" by blast
        then show ?thesis using str t m True by (simp add: validate.simps)
      next
        case False
        with str t True n validateCustom_returns [of challenge H str]
          validateNumeric_returns [of challenge H str] validateText_returns [of challenge H str] d
        show ?thesis by (auto simp: validate.simps)
      qed
    qed
  qed
next
  case (2 H challenge userInput)
  show ?case
  proof
    assume d: "challenge \<noteq> JUndefined \<and> challenge \<noteq> JNull"
    then obtain steps where st: "getProp challenge (js ''steps'') = Some steps"
      using getProp_defined by blast
    show "\<exists>b. validateMulti H challenge userInput = Some b"
    proof (cases "truthy steps")
      case False
      with st show ?thesis by (auto simp: validateMulti.simps)
    next
      case True
      then obtain len where len: "getProp steps (js ''length'') = Some len"
        using getProp_defined truthy_defined by blast
      show ?thesis
      proof (cases "strictEq len (JNum (Num 0))")
        case True
        with st len \<open>truthy steps\<close> show ?thesis by (auto simp: validateMulti.simps)
      next
        case z: False
        show ?thesis
        proof (cases "JSON_parse userInput")
          case None
          with st len True z show ?thesis by (auto simp: validateMulti.simps)
        next
          case (Some parsed)
          show ?thesis
          proof (cases "\<exists>xs. parsed = JArr xs \<and> strictEq (JNum (Num (of_nat (length xs)))) len")
            case False
            with st len True z Some show ?thesis
              by (cases parsed) (auto simp: validateMulti.simps)
          next
            case e: True
            then obtain xs where xs: "parsed = JArr xs"
              and eq: "strictEq (JNum (Num (of_nat (length xs)))) len" by blast
            from True have nt: "\<not> \<not> truthy steps" by simp
            from eq have neq: "\<not> \<not> strictEq (JNum (Num (of_nat (length xs)))) len" by simp
            from "2.IH" [OF st nt len z Some xs neq] st True
            obtain b where "validateSteps H challenge xs 0 = Some b" by blast
            with st len True z Some xs eq show ?thesis by (auto simp: validateMulti.simps)
          qed
        qed
      qed
    qed
  qed
next
  case (3 H challenge parsed i)
  show ?case
  proof
    assume "\<exists>steps. getProp challenge (js ''steps'') = Some steps \<and> truthy steps"
    then obtain steps where st: "getProp challenge (js ''steps'') = Some steps"
      and tr: "truthy steps" by blast
    from tr obtain step where step: "elemAt steps i = Some step"
      by (cases steps) auto
    show "\<exists>b. validateSteps H challenge parsed i = Some b"
    proof (cases "i < length parsed")
      case False
      then show ?thesis by (auto simp: validateSteps.simps)
    next
      case lt: True
      show ?thesis
      proof (cases "\<not> truthy step \<or> typeof (parsed ! i) \<noteq> ''string''")
        case True
        with lt st step show ?thesis by (auto simp: validateSteps.simps)
      next
        case ok: False
        from "3.IH"(1) [OF lt st step refl ok] ok truthy_defined
        obtain b where b: "validate H step (parsed ! i) = Some b" by blast
        show ?thesis
        proof (cases b)
          case False
          with lt st step ok b show ?thesis by (auto simp: validateSteps.simps)
        next
          case True
          then have nb: "\<not> \<not> b" by simp
          from "3.IH"(2) [OF lt st step refl ok b nb] st tr
          obtain b' where "validateSteps H challenge parsed (Suc i) = Some b'" by blast
          with lt st step ok b True show ?thesis by (auto simp: validateSteps.simps)
        qed
      qed
    qed
  qed
qed

lemma validate_returns:
  "c \<noteq> JUndefined \<Longrightarrow> c \<noteq> JNull \<Longrightarrow> \<exists>b. validate H c u = Some b"
  using validate_returns_aux(1) by blast

lemma K9Guard_validate_returns: "\<exists>b. K9Guard_validate H now c u = Some b"
proof (cases "isValidChallenge c = Some True")
  case False
  with isValidChallenge_returns [of c] show ?thesis
    by (auto simp: K9Guard_validate_def)
next
  case True
  then have obj: "typeof c = ''object''" "c \<noteq> JNull"
    by (auto simp: isValidChallenge_def split: if_splits)
  then have d: "c \<noteq> JUndefined" "c \<noteq> JNull" by auto
  from obj obtain e where e: "getProp c (js ''expiry'') = Some e"
    using getProp_object by blast
  from validate_returns [OF d] obtain b where "validate H c u = Some b" by blast
  with True e show ?thesis by (auto simp: K9Guard_validate_def)
qed

text \<open>
  C9. For every challenge value, \<open>verify\<close> returns \<open>false\<close> whenever the input string has
  length 0 or more than 1000 code units, whatever the challenge holds (so also when the
  input would be the right answer). This holds of the public \<open>K9Guard.validate\<close> and of
  \<open>CaptchaValidator.validate\<close> alike.
\<close>

theorem validate_rejects_empty_and_long:
  assumes "length s = 0 \<or> 1000 < length s"
  shows "K9Guard_validate H now challenge (JStr s) = Some False \<and>
         validate H challenge (JStr s) = Some False"
proof -
  from assms have inv: "\<not> isValidInput (JStr s)"
    by (auto simp: isValidInput_def MAX_INPUT_LENGTH_def)
  then have v: "validate H challenge (JStr s) = Some False"
    by (simp add: validate.simps)
  obtain b where b: "isValidChallenge challenge = Some b"
    using isValidChallenge_returns by blast
  have "K9Guard_validate H now challenge (JStr s) = Some False"
  proof (cases b)
    case False
    with b show ?thesis by (simp add: K9Guard_validate_def)
  next
    case True
    with b have "typeof challenge = ''object''" "challenge \<noteq> JNull"
      by (auto simp: isValidChallenge_def split: if_splits)
    then obtain e where "getProp challenge (js ''expiry'') = Some e"
      using getProp_object by blast
    with b True v show ?thesis by (simp add: K9Guard_validate_def)
  qed
  with v show ?thesis by simp
qed

theorem validate_rejects_empty_and_long_witness:
  "(length (replicate 1001 (0x61 :: jschar)) = 0 \<or> 1000 < length (replicate 1001 (0x61 :: jschar))) \<and>
   K9Guard_validate createHash_hex 0 (JObj []) (JStr (replicate 1001 0x61)) = Some False \<and>
   validate createHash_hex (JObj []) (JStr (replicate 1001 0x61)) = Some False"
  using validate_rejects_empty_and_long [of "replicate 1001 0x61" createHash_hex 0 "JObj []"]
  by simp


definition hasNumber :: "jsval \<Rightarrow> string \<Rightarrow> bool" where
  "hasNumber c name = (case getProp c (js name) of Some (JNum n) \<Rightarrow> True | _ \<Rightarrow> False)"


lemma typeof_string: "typeof v = ''string'' \<longleftrightarrow> (\<exists>s. v = JStr s)"
  by (cases v) auto

lemma typeof_number: "typeof v = ''number'' \<longleftrightarrow> (\<exists>n. v = JNum n)"
  by (cases v) auto






subsection \<open>Numeric kinds\<close>

text \<open>A challenge is of a numeric kind when its type is \<open>math\<close> or \<open>sequence\<close>, or \<open>mixed\<close>
  with a number as stored answer.\<close>

definition numericKind :: "jsval \<Rightarrow> bool" where
  "numericKind c \<longleftrightarrow>
     getProp c (js ''type'') = Some (JStr (js ''math'')) \<or>
     getProp c (js ''type'') = Some (JStr (js ''sequence'')) \<or>
     (getProp c (js ''type'') = Some (JStr (js ''mixed'')) \<and> hasNumber c ''answer'')"

lemma numericKind_isNumeric: "numericKind c \<Longrightarrow> isNumericChallenge c = Some True"
  unfolding numericKind_def isNumericChallenge_def hasNumber_def
  by (auto simp: js_def typeof_number split: option.splits jsval.splits)

lemma numericKind_dispatch:
  assumes "numericKind c" "0 < length u" "length u \<le> 1000"
  shows "validate H c (JStr u) = validateNumeric H c u"
proof -
  from assms(1) obtain t where t: "getProp c (js ''type'') = Some (JStr t)"
    and k: "t = js ''math'' \<or> t = js ''sequence'' \<or> t = js ''mixed''"
    unfolding numericKind_def by auto
  from k have n: "t \<noteq> js ''multi''" "t \<noteq> js ''custom''"
    by (auto simp: js_def)
  from assms(2,3) have v: "isValidInput (JStr u)"
    by (simp add: isValidInput_def MAX_INPUT_LENGTH_def)
  show ?thesis
    using t n v numericKind_isNumeric [OF assms(1)] by (simp add: validate.simps)
qed

lemma verifyAnswer_stored:
  "getProp c (js ''salt'') = Some (JStr salt) \<Longrightarrow>
   getProp c (js ''hashedAnswer'') = Some (JStr h) \<Longrightarrow>
   verifyAnswer H c s = Some (H (s @ salt) = h)"
  by (simp add: verifyAnswer_def)























subsection \<open>Multi-step challenges\<close>























section \<open>The digest against the reference algorithm of the specification\<close>

text \<open>
  The specification's algorithm, over a 32-element accumulator of naturals below 256. Per
  input byte \<open>b\<close> at position \<open>i\<close> there are two operations: the XOR into index
  \<open>i mod 32\<close> and the fold into index \<open>(i * 7) mod 32\<close>. The two indices coincide when
  \<open>i\<close> is a multiple of 16, and then the order matters: \<open>refXorThenFold\<close> and
  \<open>refFoldThenXor\<close> do one after the other; \<open>refBoth\<close> computes both from the accumulator
  as it was before the byte and writes the fold last. A diffusion round is \<open>refRound\<close>
  when each byte is replaced in turn, index 0 to 31, so that it sees the new value of its
  left neighbour, and \<open>refRoundAtOnce\<close> when all 32 bytes are computed from the values
  before the round.
\<close>

definition refXor :: "nat list \<Rightarrow> nat \<Rightarrow> nat \<Rightarrow> nat list" where
  "refXor acc i b = acc[i mod 32 := acc ! (i mod 32) XOR b]"

definition refFold :: "nat list \<Rightarrow> nat \<Rightarrow> nat \<Rightarrow> nat list" where
  "refFold acc i b = acc[(i * 7) mod 32 := ((acc ! ((i * 7) mod 32) + b) * 31) mod 256]"

definition refXorThenFold :: "nat list \<Rightarrow> nat \<Rightarrow> nat \<Rightarrow> nat list" where
  "refXorThenFold acc i b = refFold (refXor acc i b) i b"

definition refFoldThenXor :: "nat list \<Rightarrow> nat \<Rightarrow> nat \<Rightarrow> nat list" where
  "refFoldThenXor acc i b = refXor (refFold acc i b) i b"

definition refBoth :: "nat list \<Rightarrow> nat \<Rightarrow> nat \<Rightarrow> nat list" where
  "refBoth acc i b =
     (refXor acc i b)[(i * 7) mod 32 := ((acc ! ((i * 7) mod 32) + b) * 31) mod 256]"

fun refAbsorb :: "(nat list \<Rightarrow> nat \<Rightarrow> nat \<Rightarrow> nat list) \<Rightarrow> nat list \<Rightarrow> nat \<Rightarrow> nat list \<Rightarrow> nat list" where
  "refAbsorb step acc i [] = acc"
| "refAbsorb step acc i (b # bs) = refAbsorb step (step acc i b) (Suc i) bs"

definition refMix :: "nat \<Rightarrow> nat list \<Rightarrow> nat \<Rightarrow> nat list" where
  "refMix r acc i =
     acc[i := ((acc ! ((i + 31) mod 32) + 2 * (acc ! i) + acc ! ((i + 1) mod 32)) * 7 + r) mod 256]"

definition refRound :: "nat list \<Rightarrow> nat \<Rightarrow> nat list" where
  "refRound acc r = foldl (refMix r) acc [0..<32]"

definition refRoundAtOnce :: "nat list \<Rightarrow> nat \<Rightarrow> nat list" where
  "refRoundAtOnce acc r =
     map (\<lambda>i. ((acc ! ((i + 31) mod 32) + 2 * (acc ! i) + acc ! ((i + 1) mod 32)) * 7 + r) mod 256)
       [0..<32]"

definition refDigest ::
  "(nat list \<Rightarrow> nat \<Rightarrow> nat \<Rightarrow> nat list) \<Rightarrow> (nat list \<Rightarrow> nat \<Rightarrow> nat list) \<Rightarrow> nat list \<Rightarrow> nat list" where
  "refDigest step rnd data = foldl rnd (refAbsorb step (replicate 32 0) 0 data) [0..<16]"

lemma and_255: "(n :: nat) AND 0xFF = n mod 256"
proof -
  have "n AND mask 8 = take_bit 8 n" by (simp add: take_bit_eq_mask)
  then show ?thesis by (simp add: take_bit_eq_mod mask_eq_exp_minus_1)
qed

lemma unat_byte: "unat (of_nat (n AND 0xFF) :: 8 word) = n mod 256"
  by (simp add: and_255 unat_of_nat)

lemma length_absorbByte [simp]: "length (absorbByte h i b) = length h"
  by (simp add: absorbByte_def Let_def)

lemma length_mixByte [simp]: "length (mixByte r h i) = length h"
  by (simp add: mixByte_def Let_def)

lemma absorbByte_ref:
  "length h = 32 \<Longrightarrow> map unat (absorbByte h i b) = refBoth (map unat h) i (unat b)"
  by (simp add: absorbByte_def refBoth_def refXor_def Let_def map_update unat_byte
      unsigned_xor_eq)

lemma absorb_ref:
  "length h = 32 \<Longrightarrow> map unat (absorb h i data) = refAbsorb refBoth (map unat h) i (map unat data)"
  by (induction data arbitrary: h i) (simp_all add: absorbByte_ref)

lemma length_absorb [simp]: "length (absorb h i data) = length h"
  by (induction data arbitrary: h i) simp_all

lemma mixByte_ref:
  "length h = 32 \<Longrightarrow> i < 32 \<Longrightarrow> map unat (mixByte r h i) = refMix r (map unat h) i"
  by (simp add: mixByte_def refMix_def Let_def map_update unat_byte mult.commute)

lemma foldl_mix_ref:
  "length h = 32 \<Longrightarrow> \<forall>i \<in> set is. i < 32 \<Longrightarrow>
   map unat (foldl (mixByte r) h is) = foldl (refMix r) (map unat h) is \<and>
   length (foldl (mixByte r) h is) = 32"
  by (induction "is" arbitrary: h) (simp_all add: mixByte_ref)

lemma diffuse_ref:
  "length h = 32 \<Longrightarrow> map unat (diffuse h r) = refRound (map unat h) r \<and> length (diffuse h r) = 32"
  unfolding diffuse_def refRound_def by (rule foldl_mix_ref) simp_all

lemma foldl_diffuse_ref:
  "length h = 32 \<Longrightarrow>
   map unat (foldl diffuse h rs) = foldl refRound (map unat h) rs \<and>
   length (foldl diffuse h rs) = 32"
  by (induction rs arbitrary: h) (simp_all add: diffuse_ref)

lemma computeHashSync_ref:
  "map unat (computeHashSync data) = refDigest refBoth refRound (map unat data) \<and>
   length (computeHashSync data) = 32"
proof -
  have l: "length (absorb (replicate 32 0) 0 data) = 32" by simp
  have "map unat (absorb (replicate 32 0) 0 data) =
        refAbsorb refBoth (replicate 32 0) 0 (map unat data)"
    using absorb_ref [of "replicate 32 0" 0 data] by simp
  with foldl_diffuse_ref [OF l, of "[0..<16]"] show ?thesis
    by (simp add: computeHashSync_def refDigest_def)
qed


lemma upd_num: "(x # xs)[numeral v := y] = x # xs[pred_numeral v := y]"
  by (simp add: numeral_eq_Suc)

lemma idx32: "[0..<32] = [0,1,2,3,4,5,6,7,8,9,10,11,12,13,14,15,16,17,18,19,20,21,22,23,24,25,26,27,28,29,30,31]"
  by code_simp

lemma idx16: "[0..<16] = [0,1,2,3,4,5,6,7,8,9,10,11,12,13,14,15]"
  by code_simp

lemma zeros32: "replicate 32 (0::nat) = [0,0,0,0,0,0,0,0,0,0,0,0,0,0,0,0,0,0,0,0,0,0,0,0,0,0,0,0,0,0,0,0]"
  by code_simp

lemma ref_both_1: "refDigest refBoth refRound [1] =
  [195, 88, 228, 8, 215, 184, 133, 222, 168, 246, 29, 192, 227, 12, 120, 216, 129, 83, 80, 18, 78, 212, 83, 225, 68, 130, 66, 24, 65, 199, 116, 52]"
  by (simp add: refDigest_def refBoth_def refXor_def refRound_def refMix_def idx32 idx16 zeros32 upd_num)

lemma ref_xf_1: "refDigest refXorThenFold refRound [1] =
  [73, 30, 212, 58, 49, 224, 123, 116, 200, 48, 87, 112, 201, 18, 248, 34, 237, 183, 78, 190, 2, 222, 63, 45, 182, 254, 182, 54, 29, 227, 118, 184]"
  by (simp add: refDigest_def refXorThenFold_def refFold_def refXor_def refRound_def refMix_def idx32 idx16 zeros32 upd_num)

lemma ref_fx_1: "refDigest refFoldThenXor refRound [1] =
  [9, 222, 212, 122, 113, 224, 59, 52, 200, 112, 151, 112, 137, 210, 248, 98, 109, 55, 14, 62, 130, 30, 191, 173, 246, 126, 54, 246, 157, 99, 182, 56]"
  by (simp add: refDigest_def refFoldThenXor_def refFold_def refXor_def refRound_def refMix_def idx32 idx16 zeros32 upd_num)

lemma ref_once_1: "refDigest refBoth refRoundAtOnce [1] =
  [225, 7, 23, 71, 31, 135, 119, 199, 203, 135, 151, 199, 239, 7, 119, 71, 165, 71, 119, 7, 239, 199, 151, 135, 203, 199, 119, 135, 31, 71, 23, 7]"
  by (simp add: refDigest_def refBoth_def refXor_def refRoundAtOnce_def idx32 idx16 zeros32 upd_num)


text \<open>
  C2, as the code has it. For every input byte sequence \<open>computeHashSync\<close> is the reference
  algorithm in this reading: a 32-byte accumulator of zeros; for the byte \<open>b\<close> at absolute
  position \<open>i\<close>, index \<open>i mod 32\<close> becomes its value XOR \<open>b\<close> and then index
  \<open>(i * 7) mod 32\<close> becomes \<open>(v + b) * 31 mod 256\<close>, where \<open>v\<close> is the value that index
  had before the byte (so at positions that are multiples of 16, where the two indices
  are one, the XOR is overwritten); then 16 rounds, numbered 0 to 15, each replacing the
  bytes in place from index 0 to 31 by \<open>((prev + 2 * curr + next) * 7 + round) mod 256\<close>
  with the neighbours taken cyclically as they are at that moment. The result has 32
  bytes; \<open>digest\<close> applies it to the concatenation of the chunks, and \<open>digest('hex')\<close> is
  its hex encoding.
\<close>

theorem digest_is_reference:
  "map unat (computeHashSync data) = refDigest refBoth refRound (map unat data) \<and>
   length (computeHashSync data) = 32 \<and>
   digestBytes chunks = computeHashSync (concat chunks) \<and>
   digestHex chunks = toHex (computeHashSync (concat chunks))"
  using computeHashSync_ref [of data]
  by (simp add: digestBytes_def digestHex_def getCombinedData_def)

text \<open>The one-byte input \<open>01\<close>: the code's digest is none of the three other readings
  (XOR then fold, fold then XOR, rounds computed at once).\<close>

theorem digest_as_stated_counterexample:
  "map unat (computeHashSync [1]) \<noteq> refDigest refXorThenFold refRound [1] \<and>
   map unat (computeHashSync [1]) \<noteq> refDigest refFoldThenXor refRound [1] \<and>
   map unat (computeHashSync [1]) \<noteq> refDigest refBoth refRoundAtOnce [1]"
proof -
  have m: "map unat [1 :: 8 word] = [1 :: nat]" by simp
  have "map unat (computeHashSync [1]) = refDigest refBoth refRound (map unat [1 :: 8 word])"
    using computeHashSync_ref by blast
  then have c: "map unat (computeHashSync [1]) =
    [195, 88, 228, 8, 215, 184, 133, 222, 168, 246, 29, 192, 227, 12, 120, 216, 129, 83, 80, 18,
     78, 212, 83, 225, 68, 130, 66, 24, 65, 199, 116, 52]"
    unfolding m ref_both_1 .
  show ?thesis
    unfolding c ref_xf_1 ref_fx_1 ref_once_1 by simp
qed

section \<open>The issuer\<close>

subsection \<open>The platform: exceptions, randomness, the clock\<close>

text \<open>
  What the issuer does besides computing: it takes bytes from the platform's secure
  generator (\<open>crypto.getRandomValues\<close> behind the repository's \<open>randomBytes\<close>, and Node's
  \<open>crypto.randomBytes\<close>, which three providers import instead), calls \<open>Math.random()\<close>,
  reads the clock with \<open>Date.now()\<close>, changes the fields of its \<open>CaptchaGenerator\<close>, and
  may throw. The secure generator, \<open>Math.random\<close> and the clock are given by what they
  will deliver at their successive calls, with a count of the calls made so far.
\<close>

datatype error = Error jsstring | TypeError | RangeError jsstring

record K9GuardOptions =
  otype :: jsval
  odifficulty :: jsval
  olocale :: jsval

record CustomQuestion =
  cq_question :: jsstring
  cq_answer :: jsstring
  cq_difficulty :: jsval

record system =
  secure :: "nat \<Rightarrow> 8 word"
  taken :: nat
  mathRandom :: "nat \<Rightarrow> rat"
  drawn :: nat
  clock :: "nat \<Rightarrow> int"
  reads :: nat
  standardOptions :: "K9GuardOptions option"
  customOptions :: "jsval list option"
  customGenerator :: "CustomQuestion list option"
  usedNonces :: "jsstring set"

datatype 'a outcome = Returns 'a | Throws error

text \<open>A computation: from a state to its outcome and the state it leaves, or \<open>None\<close> when
  it runs forever.\<close>

type_synonym 'a io = "system \<Rightarrow> ('a outcome \<times> system) option"

definition returnIO :: "'a \<Rightarrow> 'a io" where
  "returnIO x = (\<lambda>s. Some (Returns x, s))"

definition throwIO :: "error \<Rightarrow> 'a io" where
  "throwIO e = (\<lambda>s. Some (Throws e, s))"

definition bindIO :: "'a io \<Rightarrow> ('a \<Rightarrow> 'b io) \<Rightarrow> 'b io" where
  "bindIO m k =
     (\<lambda>s. case m s of
            None \<Rightarrow> None
          | Some (Returns x, s') \<Rightarrow> k x s'
          | Some (Throws e, s') \<Rightarrow> Some (Throws e, s'))"

definition nextBytes :: "nat \<Rightarrow> 8 word list io" where
  "nextBytes n =
     (\<lambda>s. Some (Returns (map (secure s) [taken s ..< taken s + n]), s\<lparr>taken := taken s + n\<rparr>))"

text \<open>\<open>randomBytes\<close> of utils/crypto.ts, and Node's, which is called with the sizes 4 only.\<close>

definition randomBytes :: "nat \<Rightarrow> 8 word list io" where
  "randomBytes n =
     (if n \<le> 0 \<or> n > 65536 then throwIO (RangeError (js ''Size must be between 1 and 65536''))
      else nextBytes n)"

definition node_randomBytes :: "nat \<Rightarrow> 8 word list io" where
  "node_randomBytes n = nextBytes n"

definition readUInt32LE :: "8 word list \<Rightarrow> nat \<Rightarrow> nat io" where
  "readUInt32LE buffer offset =
     (if offset + 4 > length buffer then throwIO (RangeError (js ''Offset out of bounds''))
      else let b0 = ucast (buffer ! offset) :: 32 word;
               b1 = ucast (buffer ! (offset + 1)) :: 32 word;
               b2 = ucast (buffer ! (offset + 2)) :: 32 word;
               b3 = ucast (buffer ! (offset + 3)) :: 32 word
           in returnIO (unat (b0 OR push_bit 8 b1 OR push_bit 16 b2 OR push_bit 24 b3)))"

definition Math_random :: "jsnum io" where
  "Math_random = (\<lambda>s. Some (Returns (Num (mathRandom s (drawn s))), s\<lparr>drawn := drawn s + 1\<rparr>))"

definition Date_now :: "jsnum io" where
  "Date_now = (\<lambda>s. Some (Returns (Num (of_int (clock s (reads s)))), s\<lparr>reads := reads s + 1\<rparr>))"

subsection \<open>Arithmetic on numbers\<close>

definition jsAdd :: "jsnum \<Rightarrow> jsnum \<Rightarrow> jsnum" where
  "jsAdd a b =
     (case (a, b) of
        (Num x, Num y) \<Rightarrow> fl (x + y)
      | (NaN, _) \<Rightarrow> NaN
      | (_, NaN) \<Rightarrow> NaN
      | (PInf, NInf) \<Rightarrow> NaN
      | (NInf, PInf) \<Rightarrow> NaN
      | (PInf, _) \<Rightarrow> PInf
      | (NInf, _) \<Rightarrow> NInf
      | (_, PInf) \<Rightarrow> PInf
      | (_, NInf) \<Rightarrow> NInf)"

definition jsSub :: "jsnum \<Rightarrow> jsnum \<Rightarrow> jsnum" where
  "jsSub a b = jsAdd a (negate b)"

definition infinity :: "bool \<Rightarrow> jsnum" where
  "infinity positive = (if positive then PInf else NInf)"

definition jsMul :: "jsnum \<Rightarrow> jsnum \<Rightarrow> jsnum" where
  "jsMul a b =
     (case (a, b) of
        (Num x, Num y) \<Rightarrow> fl (x * y)
      | (NaN, _) \<Rightarrow> NaN
      | (_, NaN) \<Rightarrow> NaN
      | (Num x, PInf) \<Rightarrow> if x = 0 then NaN else infinity (0 < x)
      | (Num x, NInf) \<Rightarrow> if x = 0 then NaN else infinity (x < 0)
      | (PInf, Num y) \<Rightarrow> if y = 0 then NaN else infinity (0 < y)
      | (NInf, Num y) \<Rightarrow> if y = 0 then NaN else infinity (y < 0)
      | (PInf, PInf) \<Rightarrow> PInf
      | (NInf, NInf) \<Rightarrow> PInf
      | (PInf, NInf) \<Rightarrow> NInf
      | (NInf, PInf) \<Rightarrow> NInf)"

text \<open>Division; a zero divisor is taken as \<open>+0\<close>.\<close>

definition jsDiv :: "jsnum \<Rightarrow> jsnum \<Rightarrow> jsnum" where
  "jsDiv a b =
     (case (a, b) of
        (Num x, Num y) \<Rightarrow> if y = 0 then (if x = 0 then NaN else infinity (0 < x)) else fl (x / y)
      | (NaN, _) \<Rightarrow> NaN
      | (_, NaN) \<Rightarrow> NaN
      | (Num x, _) \<Rightarrow> Num 0
      | (PInf, Num y) \<Rightarrow> infinity (0 \<le> y)
      | (NInf, Num y) \<Rightarrow> infinity (y < 0)
      | (_, _) \<Rightarrow> NaN)"

definition Math_floor :: "jsnum \<Rightarrow> jsnum" where
  "Math_floor a = (case a of Num x \<Rightarrow> Num (of_int \<lfloor>x\<rfloor>) | _ \<Rightarrow> a)"

definition Math_round :: "jsnum \<Rightarrow> jsnum" where
  "Math_round a = (case a of Num x \<Rightarrow> Num (of_int \<lfloor>x + 1 / 2\<rfloor>) | _ \<Rightarrow> a)"

text \<open>\<open>xs[n]\<close> for a number \<open>n\<close>: \<open>undefined\<close> (\<open>None\<close>) unless \<open>n\<close> is an index of \<open>xs\<close>.\<close>

definition elementAt :: "'a list \<Rightarrow> jsnum \<Rightarrow> 'a option" where
  "elementAt xs n =
     (case n of
        Num x \<Rightarrow> if x = of_int \<lfloor>x\<rfloor> \<and> 0 \<le> x \<and> \<lfloor>x\<rfloor> < int (length xs) then Some (xs ! nat \<lfloor>x\<rfloor>) else None
      | _ \<Rightarrow> None)"

subsection \<open>Random (src/utils/random.ts)\<close>

definition getRandomNumber :: "jsval \<Rightarrow> jsnum io" where
  "getRandomNumber difficulty =
     bindIO (randomBytes 4) (\<lambda>buffer.
     bindIO (readUInt32LE buffer 0) (\<lambda>u.
       let rand = jsDiv (Num (of_nat u)) (Num 0xFFFFFFFF)
       in if strictEq difficulty (JStr (js ''easy'')) then
            returnIO (jsAdd (Math_floor (jsMul rand (Num 10))) (Num 1))
          else if strictEq difficulty (JStr (js ''medium'')) then
            returnIO (jsAdd (Math_floor (jsMul rand (Num 50))) (Num 1))
          else returnIO (jsAdd (Math_floor (jsMul rand (Num 100))) (Num 1))))"

definition getRandomOperator :: "jsstring io" where
  "getRandomOperator =
     (let operators = [js ''+'', js ''-'', js ''*'', js ''/'']
      in bindIO (randomBytes 1) (\<lambda>buffer.
           let index = unat (buffer ! 0) mod length operators
           in returnIO (operators ! index)))"

definition chars :: jsstring where
  "chars = js ''ABCDEFGHIJKLMNOPQRSTUVWXYZabcdefghijklmnopqrstuvwxyz0123456789''"

definition generateRandomString :: "jsval \<Rightarrow> jsstring io" where
  "generateRandomString difficulty =
     (let len = (if strictEq difficulty (JStr (js ''easy'')) then 4
                 else if strictEq difficulty (JStr (js ''medium'')) then 6 else 8)
      in bindIO (randomBytes len) (\<lambda>buffer.
           returnIO (map (\<lambda>i. chars ! (unat (buffer ! i) mod length chars)) [0..<len])))"

definition generateNonce :: "jsstring io" where
  "generateNonce = bindIO (randomBytes 16) (\<lambda>buffer. returnIO (toHex buffer))"

definition generateSalt :: "jsstring io" where
  "generateSalt = bindIO (randomBytes 8) (\<lambda>buffer. returnIO (toHex buffer))"

subsection \<open>The puzzle providers\<close>

text \<open>
  The riddle and logic banks are the lists \<open>riddles\<close> and \<open>logics\<close> of locale/en.json and
  locale/tr.json, which are data outside the source files at hand: they are the
  parameter \<open>banks\<close>. \<open>data[locale]\<close> is \<open>undefined\<close> for any other locale.
\<close>

record banks =
  riddles_en :: "(jsstring \<times> jsstring) list"
  riddles_tr :: "(jsstring \<times> jsstring) list"
  logics_en :: "(jsstring \<times> jsstring) list"
  logics_tr :: "(jsstring \<times> jsstring) list"

definition dataFor ::
  "(jsstring \<times> jsstring) list \<Rightarrow> (jsstring \<times> jsstring) list \<Rightarrow> jsval \<Rightarrow> (jsstring \<times> jsstring) list option" where
  "dataFor en tr locale =
     (if strictEq locale (JStr (js ''en'')) then Some en
      else if strictEq locale (JStr (js ''tr'')) then Some tr
      else None)"

text \<open>\<open>getRandom\<close> of RiddleBank and of LogicGenerator: \<open>u % list.length\<close> is NaN for an
  empty list, and the element read is then \<open>undefined\<close>.\<close>

definition getRandom :: "(jsstring \<times> jsstring) list option \<Rightarrow> (jsstring \<times> jsstring) option io" where
  "getRandom bank =
     bindIO (randomBytes 4) (\<lambda>buffer.
     bindIO (readUInt32LE buffer 0) (\<lambda>u.
       case bank of
         None \<Rightarrow> throwIO TypeError
       | Some entries \<Rightarrow>
           if entries = [] then returnIO None
           else returnIO (Some (entries ! (u mod length entries)))))"

definition RiddleBank_getRandom :: "banks \<Rightarrow> jsval \<Rightarrow> jsval \<Rightarrow> (jsstring \<times> jsstring) option io" where
  "RiddleBank_getRandom B locale difficulty = getRandom (dataFor (riddles_en B) (riddles_tr B) locale)"

definition LogicGenerator_getRandom :: "banks \<Rightarrow> jsval \<Rightarrow> jsval \<Rightarrow> (jsstring \<times> jsstring) option io" where
  "LogicGenerator_getRandom B locale difficulty = getRandom (dataFor (logics_en B) (logics_tr B) locale)"

text \<open>SequenceGenerator. \<open>u >> 8\<close> is the shift of the signed 32-bit reading of \<open>u\<close>, and
  \<open>%\<close> keeps the sign of its left operand.\<close>

definition jsRem :: "int \<Rightarrow> int \<Rightarrow> int" where
  "jsRem a b = (if a < 0 then - ((- a) mod b) else a mod b)"

definition letters :: "jsstring list" where
  "letters = [js ''A'', js ''B'', js ''C'', js ''D'', js ''E'', js ''F'', js ''G'', js ''H'', js ''I'', js ''J'']"

definition intString :: "int \<Rightarrow> jsstring" where
  "intString k = numToString (Num (of_int k))"

definition SequenceGenerator_generate :: "jsval \<Rightarrow> (jsstring \<times> jsval) io" where
  "SequenceGenerator_generate difficulty =
     (if strictEq difficulty (JStr (js ''easy'')) then
        bindIO (node_randomBytes 4) (\<lambda>buffer.
        bindIO (readUInt32LE buffer 0) (\<lambda>u.
          let start = int (u mod 5) + 1;
              step = jsRem (sint (signed_drop_bit 8 (word_of_nat u :: 32 word))) 3 + 1;
              sequence = [start, start + step, start + 2 * step];
              answer = start + 3 * step
          in returnIO (joinWith (js '', '') (map intString sequence) @ js '', ?'',
                       JNum (Num (of_int answer)))))
      else if strictEq difficulty (JStr (js ''medium'')) then
        bindIO (node_randomBytes 4) (\<lambda>buffer.
        bindIO (readUInt32LE buffer 0) (\<lambda>u.
          let start = u mod 4;
              step = 2;
              sequence = [letters ! start, letters ! (start + step), letters ! (start + 2 * step)];
              nextIndex = start + 3 * step
          in if nextIndex \<ge> length letters then
               returnIO (joinWith (js '', '') sequence @ js '', ?'', JStr (js ''?''))
             else returnIO (joinWith (js '', '') sequence @ js '', ?'', JStr (letters ! nextIndex))))
      else returnIO (joinWith (js '', '') (map intString [1, 1, 2, 3]) @ js '', ?'', JNum (Num 5)))"

text \<open>ScrambleGenerator: the Fisher-Yates loop from \<open>i\<close> down to 1.\<close>

definition scrambleWords :: "jsstring list" where
  "scrambleWords = map js
     [''apple'', ''cat'', ''dog'', ''house'', ''sun'', ''moon'', ''car'', ''tree'', ''book'', ''water'',
      ''bread'', ''milk'', ''fish'', ''bird'', ''flower'', ''star'', ''hand'', ''eye'', ''nose'', ''mouth'']"

fun scrambleFrom :: "nat \<Rightarrow> jsstring \<Rightarrow> jsstring io" where
  "scrambleFrom 0 arr = returnIO arr"
| "scrambleFrom (Suc k) arr =
     bindIO (node_randomBytes 4) (\<lambda>buffer.
     bindIO (readUInt32LE buffer 0) (\<lambda>u.
       let i = Suc k; j = u mod (i + 1)
       in scrambleFrom k (arr[i := arr ! j, j := arr ! i])))"

definition scramble :: "jsstring \<Rightarrow> jsstring io" where
  "scramble word = scrambleFrom (length word - 1) word"

definition ScrambleGenerator_generate :: "jsval \<Rightarrow> (jsstring \<times> jsstring) io" where
  "ScrambleGenerator_generate difficulty =
     bindIO (node_randomBytes 4) (\<lambda>buffer.
     bindIO (readUInt32LE buffer 0) (\<lambda>u.
       let rand = jsDiv (Num (of_nat u)) (Num 0xFFFFFFFF);
           word = (if strictEq difficulty (JStr (js ''easy'')) then
                     elementAt scrambleWords (Math_floor (jsMul rand (Num 10)))
                   else if strictEq difficulty (JStr (js ''medium'')) then
                     elementAt scrambleWords (Math_floor (jsMul rand (Num (of_nat (length scrambleWords)))))
                   else Some (js ''typescript''))
       in case word of
            None \<Rightarrow> throwIO TypeError
          | Some w \<Rightarrow> bindIO (scramble w) (\<lambda>scrambled. returnIO (scrambled, w))))"

text \<open>ReverseGenerator: the word is chosen with \<open>Math.random()\<close>.\<close>

definition easyWords :: "jsstring list" where
  "easyWords = map js
     [''cat'', ''dog'', ''sun'', ''moon'', ''star'', ''fish'', ''bird'', ''tree'',
      ''ball'', ''book'', ''door'', ''lamp'', ''rock'', ''leaf'', ''wind'', ''fire'',
      ''ice'', ''sky'', ''sea'', ''fog'', ''rain'', ''snow'', ''bear'', ''wolf'',
      ''coin'', ''key'', ''cup'', ''pen'', ''box'', ''hat'', ''map'', ''web'']"

definition mediumWords :: "jsstring list" where
  "mediumWords = map js
     [''apple'', ''house'', ''water'', ''bread'', ''ocean'', ''river'', ''tiger'', ''eagle'',
      ''storm'', ''cloud'', ''flame'', ''frost'', ''stone'', ''metal'', ''glass'', ''paper'',
      ''forest'', ''desert'', ''valley'', ''castle'', ''bridge'', ''garden'', ''market'', ''temple'',
      ''dragon'', ''wizard'', ''knight'', ''shield'', ''sword'', ''crown'', ''jewel'', ''crystal'',
      ''planet'', ''galaxy'', ''comet'', ''nebula'', ''cipher'', ''enigma'', ''puzzle'', ''riddle'',
      ''shadow'', ''mirror'', ''portal'', ''beacon'', ''anchor'', ''compass'', ''lantern'', ''prism'']"

definition hardWords :: "jsstring list" where
  "hardWords = map js
     [''typescript'', ''javascript'', ''encryption'', ''cryptography'', ''algorithm'', ''infrastructure'',
      ''architecture'', ''authentication'', ''authorization'', ''vulnerability'', ''cybersecurity'',
      ''blockchain'', ''metamorphosis'', ''constellation'', ''synchronization'', ''transformation'',
      ''illumination'', ''orchestration'', ''denomination'', ''comprehension'', ''manifestation'',
      ''extraordinary'', ''revolutionary'', ''sophisticated'', ''kaleidoscope'', ''optimization'',
      ''crystallization'', ''configuration'', ''implementation'', ''parallelization'', ''serialization'',
      ''decentralization'', ''internationalization'', ''containerization'', ''virtualization'',
      ''obfuscation'', ''triangulation'', ''interpolation'', ''extrapolation'', ''approximation'',
      ''segmentation'', ''fragmentation'', ''concatenation'', ''regeneration'', ''degeneration'']"

definition ReverseGenerator_generate :: "jsval \<Rightarrow> (jsstring \<times> jsstring) io" where
  "ReverseGenerator_generate difficulty =
     (let wordPool0 = None;
          wordPool1 = (if strictEq difficulty (JStr (js ''easy'')) then Some easyWords else wordPool0);
          wordPool2 = (if strictEq difficulty (JStr (js ''medium'')) then Some mediumWords else wordPool1);
          wordPool = (if strictEq difficulty (JStr (js ''hard'')) then Some hardWords else wordPool2)
      in bindIO Math_random (\<lambda>r.
           case wordPool of
             None \<Rightarrow> throwIO TypeError
           | Some pool \<Rightarrow>
               (case elementAt pool (Math_floor (jsMul r (Num (of_nat (length pool))))) of
                  None \<Rightarrow> throwIO TypeError
                | Some text \<Rightarrow> returnIO (rev text, text))))"

text \<open>CustomQuestionGenerator, which \<open>generateCustom\<close> calls without a difficulty.\<close>

definition selectRandom :: "CustomQuestion list \<Rightarrow> (jsstring \<times> jsstring) io" where
  "selectRandom questions =
     (if length questions = 0 then returnIO ([], [])
      else bindIO (node_randomBytes 4) (\<lambda>buffer.
           bindIO (readUInt32LE buffer 0) (\<lambda>u.
             let index = u mod length questions; selected = questions ! index
             in returnIO (cq_question selected, cq_answer selected))))"

definition CustomQuestionGenerator_generate :: "CustomQuestion list \<Rightarrow> (jsstring \<times> jsstring) io" where
  "CustomQuestionGenerator_generate questions =
     (let candidates = questions
      in if length candidates = 0 then selectRandom questions
         else selectRandom candidates)"

subsection \<open>CustomQuestionValidator\<close>

text \<open>\<open>v.name\<close> for a value \<open>v\<close> that is known not to be \<open>undefined\<close> or \<open>null\<close>.\<close>

definition field :: "jsval \<Rightarrow> string \<Rightarrow> jsval" where
  "field v name = (case getProp v (js name) of Some x \<Rightarrow> x | None \<Rightarrow> JUndefined)"

definition VALID_DIFFICULTY :: "jsstring list" where
  "VALID_DIFFICULTY = [js ''easy'', js ''medium'', js ''hard'']"

text \<open>The result \<open>{valid, error}\<close> is the error message, or \<open>None\<close> when \<open>valid\<close> is true.\<close>

definition validateSingle :: "jsval \<Rightarrow> jsstring option" where
  "validateSingle question =
     (if typeof question \<noteq> ''object'' \<or> question = JNull then
        Some (js ''Each question must be an object'')
      else case field question ''question'' of
        JStr q \<Rightarrow>
          (case field question ''answer'' of
             JStr a \<Rightarrow>
               (case field question ''difficulty'' of
                  JStr d \<Rightarrow>
                    if d \<notin> set VALID_DIFFICULTY then
                      Some (js ''Difficulty must be one of: easy, medium, hard'')
                    else if length q < 5 then Some (js ''Question must be at least 5 characters'')
                    else if length q > 500 then Some (js ''Question must not exceed 500 characters'')
                    else if length a < 1 then Some (js ''Answer cannot be empty'')
                    else if length a > 200 then Some (js ''Answer must not exceed 200 characters'')
                    else None
                | _ \<Rightarrow> Some (js ''Difficulty must be specified''))
           | _ \<Rightarrow> Some (js ''Answer must be a string''))
      | _ \<Rightarrow> Some (js ''Question text must be a string''))"

fun validateFrom :: "nat \<Rightarrow> jsval list \<Rightarrow> jsstring option" where
  "validateFrom i [] = None"
| "validateFrom i (questionItem # rest) =
     (case validateSingle questionItem of
        Some e \<Rightarrow> Some (js ''Question '' @ digitsOf (int i + 1) @ js '': '' @ e)
      | None \<Rightarrow> validateFrom (Suc i) rest)"

definition CustomQuestionValidator_validate :: "jsval \<Rightarrow> jsstring option" where
  "CustomQuestionValidator_validate questions =
     (case questions of
        JArr qs \<Rightarrow>
          if length qs = 0 then Some (js ''At least one question is required'')
          else if length qs > 100 then Some (js ''Maximum 100 questions allowed'')
          else validateFrom 0 qs
      | _ \<Rightarrow> Some (js ''Questions must be an array''))"

text \<open>\<open>sanitize\<close> is applied to questions that passed \<open>validate\<close>: objects whose \<open>question\<close>
  and \<open>answer\<close> are strings.\<close>

definition stringOf :: "jsval \<Rightarrow> jsstring" where
  "stringOf v = (case v of JStr s \<Rightarrow> s | _ \<Rightarrow> jsToString v)"

definition sanitize :: "jsval list \<Rightarrow> CustomQuestion list" where
  "sanitize questions =
     map (\<lambda>q. \<lparr>cq_question = trim (stringOf (field q ''question'')),
               cq_answer = trim (stringOf (field q ''answer'')),
               cq_difficulty = field q ''difficulty''\<rparr>) questions"

definition questionObject :: "CustomQuestion \<Rightarrow> jsval" where
  "questionObject q =
     JObj [(js ''question'', JStr (cq_question q)), (js ''answer'', JStr (cq_answer q)),
           (js ''difficulty'', cq_difficulty q)]"

subsection \<open>CaptchaGenerator (src/core/captchaGenerator.ts)\<close>

datatype challenge =
  Challenge (ctype: jsstring) (question: jsstring) (answer: jsval) (nonce: jsstring)
    (expiry: jsnum) (hashedAnswer: jsstring) (salt: jsstring) (steps: "challenge list option")

text \<open>What \<open>createChallenge\<close> is given: the challenge without its nonce, expiry, digest
  and salt.\<close>

record base =
  b_type :: jsstring
  b_question :: jsstring
  b_answer :: jsval
  b_steps :: "challenge list option"

text \<open>The constructor: \<open>Inl\<close> is the error it throws.\<close>

datatype options = StandardOptions K9GuardOptions | CustomOptions jsval

definition isCustomOptions :: "options \<Rightarrow> bool" where
  "isCustomOptions opts =
     (case opts of
        CustomOptions questions \<Rightarrow> (case questions of JArr qs \<Rightarrow> True | _ \<Rightarrow> False)
      | StandardOptions opt \<Rightarrow> False)"

text \<open>The options read as custom options (\<open>options.questions\<close>, an array) and as standard
  options.\<close>

definition questionsOf :: "options \<Rightarrow> jsval list" where
  "questionsOf opts =
     (case opts of
        CustomOptions questions \<Rightarrow> (case questions of JArr qs \<Rightarrow> qs | _ \<Rightarrow> [])
      | StandardOptions opt \<Rightarrow> [])"

definition asStandard :: "options \<Rightarrow> K9GuardOptions" where
  "asStandard opts =
     (case opts of
        StandardOptions opt \<Rightarrow> opt
      | CustomOptions questions \<Rightarrow>
          \<lparr>otype = JStr (js ''custom''), odifficulty = JUndefined, olocale = JUndefined\<rparr>)"

definition CaptchaGenerator :: "options \<Rightarrow> system \<Rightarrow> error + system" where
  "CaptchaGenerator opts s =
     (let s0 = s\<lparr>standardOptions := None, customOptions := None, customGenerator := None,
                  usedNonces := {}\<rparr>
      in if isCustomOptions opts then
           (case CustomQuestionValidator_validate (JArr (questionsOf opts)) of
              Some e \<Rightarrow> Inl (Error (js ''Invalid custom questions: '' @ e))
            | None \<Rightarrow>
                Inr (s0\<lparr>customOptions := Some (questionsOf opts),
                        customGenerator := Some (sanitize (questionsOf opts))\<rparr>))
         else Inr (s0\<lparr>standardOptions := Some (asStandard opts)\<rparr>))"

definition getDifficulty :: "system \<Rightarrow> jsval" where
  "getDifficulty s =
     (case standardOptions s of
        None \<Rightarrow> JStr (js ''easy'')
      | Some opt \<Rightarrow> odifficulty opt)"

definition getLocale :: "system \<Rightarrow> jsval" where
  "getLocale s =
     (case standardOptions s of
        None \<Rightarrow> JStr (js ''en'')
      | Some opt \<Rightarrow> if truthy (olocale opt) then olocale opt else JStr (js ''en''))"

text \<open>The \<open>do ... while\<close> loop of \<open>createChallenge\<close>: it may run forever.\<close>

partial_function (option) freshNonce :: "system \<Rightarrow> (jsstring outcome \<times> system) option" where
  "freshNonce s =
     (case generateNonce s of
        None \<Rightarrow> None
      | Some (r, s') \<Rightarrow>
          (case r of
             Throws e \<Rightarrow> Some (Throws e, s')
           | Returns drawnNonce \<Rightarrow>
               if drawnNonce \<in> usedNonces s' then freshNonce s'
               else Some (Returns drawnNonce, s')))"

text \<open>\<open>answer.toString()\<close> of a string or a number.\<close>

definition answerString :: "jsval \<Rightarrow> jsstring" where
  "answerString a = jsToString a"

definition createChallenge :: "base \<Rightarrow> challenge io" where
  "createChallenge b =
     bindIO freshNonce (\<lambda>nonce.
     bindIO (\<lambda>s. Some (Returns (), s\<lparr>usedNonces := insert nonce (usedNonces s)\<rparr>)) (\<lambda>_.
     bindIO Date_now (\<lambda>now.
       let expiry = jsAdd now (Num (5 * 60 * 1000))
       in bindIO generateSalt (\<lambda>salt.
            let hashedAnswer = createHash_hex (answerString (b_answer b) @ salt)
            in returnIO (Challenge (b_type b) (b_question b) (b_answer b) nonce expiry
                                   hashedAnswer salt (b_steps b))))))"

definition calculateMath :: "jsnum \<Rightarrow> jsstring \<Rightarrow> jsnum \<Rightarrow> jsnum" where
  "calculateMath a op b =
     (if op = js ''+'' then jsAdd a b
      else if op = js ''-'' then jsSub a b
      else if op = js ''*'' then jsMul a b
      else if op = js ''/'' then
        (if b = Num 0 then NaN
         else jsDiv (Math_round (jsMul (jsDiv a b) (Num 100))) (Num 100))
      else Num 0)"

text \<open>\<open>generateMath\<close> up to its test of the answer: the question and the answer drawn.\<close>

definition drawMath :: "(jsstring \<times> jsnum) io" where
  "drawMath =
     (\<lambda>s. bindIO (getRandomNumber (getDifficulty s)) (\<lambda>num1.
           bindIO (getRandomNumber (getDifficulty s)) (\<lambda>num2'.
           bindIO getRandomOperator (\<lambda>operator.
           bindIO (if operator = js ''/'' \<and> num2' = Num 0 then
                     bindIO (getRandomNumber (getDifficulty s)) (\<lambda>n. returnIO (jsAdd n (Num 1)))
                   else returnIO num2') (\<lambda>num2.
             let question = numToString num1 @ js '' '' @ operator @ js '' '' @ numToString num2;
                 answer = calculateMath num1 operator num2
             in returnIO (question, answer))))) s)"

partial_function (option) generateMath :: "system \<Rightarrow> (challenge outcome \<times> system) option" where
  "generateMath s =
     (case drawMath s of
        None \<Rightarrow> None
      | Some (r, s') \<Rightarrow>
          (case r of
             Throws e \<Rightarrow> Some (Throws e, s')
           | Returns (q, a) \<Rightarrow>
               if isNaN a then generateMath s'
               else createChallenge
                      \<lparr>b_type = js ''math'', b_question = q, b_answer = JNum a,
                       b_steps = None\<rparr> s'))"

definition generateText :: "challenge io" where
  "generateText =
     (\<lambda>s. bindIO (generateRandomString (getDifficulty s)) (\<lambda>text.
           createChallenge
             \<lparr>b_type = js ''text'', b_question = text, b_answer = JStr text, b_steps = None\<rparr>) s)"

definition generateRiddle :: "banks \<Rightarrow> challenge io" where
  "generateRiddle B =
     (\<lambda>s. bindIO (RiddleBank_getRandom B (getLocale s) (getDifficulty s)) (\<lambda>riddle.
           case riddle of
             None \<Rightarrow> throwIO TypeError
           | Some (q, a) \<Rightarrow>
               createChallenge
                 \<lparr>b_type = js ''riddle'', b_question = q, b_answer = JStr a, b_steps = None\<rparr>) s)"

definition generateSequence :: "challenge io" where
  "generateSequence =
     (\<lambda>s. bindIO (SequenceGenerator_generate (getDifficulty s)) (\<lambda>(q, a).
           createChallenge
             \<lparr>b_type = js ''sequence'', b_question = q, b_answer = a, b_steps = None\<rparr>) s)"

definition generateScramble :: "challenge io" where
  "generateScramble =
     (\<lambda>s. bindIO (ScrambleGenerator_generate (getDifficulty s)) (\<lambda>(q, a).
           createChallenge
             \<lparr>b_type = js ''scramble'', b_question = q, b_answer = JStr a, b_steps = None\<rparr>) s)"

definition generateLogic :: "banks \<Rightarrow> challenge io" where
  "generateLogic B =
     (\<lambda>s. bindIO (LogicGenerator_getRandom B (getLocale s) (getDifficulty s)) (\<lambda>logic.
           case logic of
             None \<Rightarrow> throwIO TypeError
           | Some (q, a) \<Rightarrow>
               createChallenge
                 \<lparr>b_type = js ''logic'', b_question = q, b_answer = JStr a, b_steps = None\<rparr>) s)"

definition generateReverse :: "challenge io" where
  "generateReverse =
     (\<lambda>s. bindIO (ReverseGenerator_generate (getDifficulty s)) (\<lambda>(q, a).
           createChallenge
             \<lparr>b_type = js ''reverse'', b_question = q, b_answer = JStr a, b_steps = None\<rparr>) s)"

definition generateCustom :: "challenge io" where
  "generateCustom =
     (\<lambda>s. case customGenerator s of
            None \<Rightarrow> throwIO (Error (js ''Custom generator not initialized'')) s
          | Some questions \<Rightarrow>
              bindIO (CustomQuestionGenerator_generate questions) (\<lambda>(q, a).
              createChallenge
                \<lparr>b_type = js ''custom'', b_question = q, b_answer = JStr a, b_steps = None\<rparr>) s)"

definition generateMulti :: "banks \<Rightarrow> challenge io" where
  "generateMulti B =
     bindIO generateMath (\<lambda>step1.
     bindIO (generateRiddle B) (\<lambda>step2.
       createChallenge
         \<lparr>b_type = js ''multi'', b_question = js ''Complete two steps'', b_answer = JStr [],
          b_steps = Some [step1, step2]\<rparr>))"

text \<open>
  The body of \<open>generate()\<close>; \<open>otherwise\<close> stands for its last line,
  \<open>return this.generateMixed()\<close>.
\<close>

definition generateBy :: "banks \<Rightarrow> challenge io \<Rightarrow> challenge io" where
  "generateBy B otherwise =
     (\<lambda>s. if customOptions s \<noteq> None then generateCustom s
          else case standardOptions s of
            None \<Rightarrow> throwIO (Error (js ''Generator not properly initialized'')) s
          | Some opt \<Rightarrow>
              (let captchaType = otype opt
               in if strictEq captchaType (JStr (js ''math'')) then generateMath s
                  else if strictEq captchaType (JStr (js ''text'')) then generateText s
                  else if strictEq captchaType (JStr (js ''riddle'')) then generateRiddle B s
                  else if strictEq captchaType (JStr (js ''sequence'')) then generateSequence s
                  else if strictEq captchaType (JStr (js ''scramble'')) then generateScramble s
                  else if strictEq captchaType (JStr (js ''logic'')) then generateLogic B s
                  else if strictEq captchaType (JStr (js ''reverse'')) then generateReverse s
                  else if strictEq captchaType (JStr (js ''multi'')) then generateMulti B s
                  else otherwise s))"

definition mixedTypes :: "jsstring list" where
  "mixedTypes = [js ''math'', js ''text'', js ''riddle'', js ''sequence'', js ''scramble'',
                 js ''logic'', js ''reverse'']"

definition setType :: "jsval \<Rightarrow> system \<Rightarrow> system" where
  "setType t s =
     (case standardOptions s of
        None \<Rightarrow> s
      | Some opt \<Rightarrow> s\<lparr>standardOptions := Some (opt\<lparr>otype := t\<rparr>)\<rparr>)"

text \<open>
  \<open>generateMixed\<close> sets the type to one of the seven names and calls \<open>generate()\<close>, which
  therefore does not reach its last line; the model gives that line no result there. When
  the inner call throws, the type is not put back.
\<close>

definition generateMixed :: "banks \<Rightarrow> challenge io" where
  "generateMixed B =
     bindIO (randomBytes 1) (\<lambda>buffer s.
       let randomType = mixedTypes ! (unat (buffer ! 0) mod length mixedTypes);
           previousType = map_option otype (standardOptions s);
           s1 = setType (JStr randomType) s
       in bindIO (generateBy B (\<lambda>_. None)) (\<lambda>challenge s2.
            let s3 = (case previousType of
                        Some t \<Rightarrow> if truthy t then setType t s2 else s2
                      | None \<Rightarrow> s2)
            in createChallenge
                 \<lparr>b_type = js ''mixed'', b_question = question challenge,
                  b_answer = answer challenge, b_steps = steps challenge\<rparr> s3) s1)"

definition generate :: "banks \<Rightarrow> challenge io" where
  "generate B = generateBy B (generateMixed B)"

subsection \<open>K9Guard: the constructor\<close>

definition optionOr :: "jsval \<Rightarrow> string \<Rightarrow> jsval" where
  "optionOr v dflt = (if truthy v then v else JStr (js dflt))"

definition processOptions :: "jsval \<Rightarrow> error + options" where
  "processOptions opts =
     (if typeof opts \<noteq> ''object'' \<or> opts = JNull then
        Inr (StandardOptions \<lparr>otype = JStr (js ''math''), odifficulty = JStr (js ''medium''),
                              olocale = JStr (js ''en'')\<rparr>)
      else if strictEq (field opts ''type'') (JStr (js ''custom'')) then
        (case field opts ''questions'' of
           JArr qs \<Rightarrow>
             (case CustomQuestionValidator_validate (JArr qs) of
                Some e \<Rightarrow> Inl (Error (js ''Invalid custom questions: '' @ e))
              | None \<Rightarrow> Inr (CustomOptions (JArr (map questionObject (sanitize qs)))))
         | _ \<Rightarrow> Inl (Error (js ''Custom type requires questions array'')))
      else
        Inr (StandardOptions \<lparr>otype = optionOr (field opts ''type'') ''math'',
                              odifficulty = optionOr (field opts ''difficulty'') ''medium'',
                              olocale = optionOr (field opts ''locale'') ''en''\<rparr>))"

text \<open>\<open>new K9Guard(options)\<close>; without an argument the options are
  \<open>{ type: 'math', difficulty: 'medium' }\<close>.\<close>

definition K9Guard :: "jsval \<Rightarrow> system \<Rightarrow> error + system" where
  "K9Guard opts s =
     (let given = (if opts = JUndefined
                   then JObj [(js ''type'', JStr (js ''math'')), (js ''difficulty'', JStr (js ''medium''))]
                   else opts)
      in case processOptions given of
           Inl e \<Rightarrow> Inl e
         | Inr processedOptions \<Rightarrow> CaptchaGenerator processedOptions s)"

definition K9Guard_generate :: "banks \<Rightarrow> challenge io" where
  "K9Guard_generate B = generate B"

text \<open>The challenge as the JavaScript object it is.\<close>

fun toJS :: "challenge \<Rightarrow> jsval" where
  "toJS (Challenge t q a n e h sl st) =
     JObj ([(js ''type'', JStr t), (js ''question'', JStr q), (js ''answer'', a),
            (js ''nonce'', JStr n), (js ''expiry'', JNum e), (js ''hashedAnswer'', JStr h),
            (js ''salt'', JStr sl)] @
           (case st of None \<Rightarrow> [] | Some ss \<Rightarrow> [(js ''steps'', JArr (map toJS ss))]))"

section \<open>Properties of the issuer\<close>

subsection \<open>Computations\<close>

lemma bindIO_result:
  "bindIO m k s = Some (r, s') \<longleftrightarrow>
     (\<exists>x s1. m s = Some (Returns x, s1) \<and> k x s1 = Some (r, s')) \<or>
     (\<exists>e. m s = Some (Throws e, s') \<and> r = Throws e)"
  by (auto simp: bindIO_def split: option.splits outcome.splits prod.splits)

text \<open>A computation that only draws random values: it ends, and leaves everything but
  the two counters of values drawn as it was.\<close>

definition randomOnly :: "'a io \<Rightarrow> bool" where
  "randomOnly m \<longleftrightarrow> (\<forall>s. \<exists>r t d. m s = Some (r, s\<lparr>taken := t, drawn := d\<rparr>))"

lemma randomOnlyI: "(\<And>s. \<exists>r t d. m s = Some (r, s\<lparr>taken := t, drawn := d\<rparr>)) \<Longrightarrow> randomOnly m"
  by (simp add: randomOnly_def)

lemma randomOnlyD: "randomOnly m \<Longrightarrow> \<exists>r t d. m s = Some (r, s\<lparr>taken := t, drawn := d\<rparr>)"
  by (simp add: randomOnly_def)

lemma randomOnly_returnIO [simp]: "randomOnly (returnIO x)"
proof (rule randomOnlyI)
  fix s
  have "returnIO x s = Some (Returns x, s\<lparr>taken := taken s, drawn := drawn s\<rparr>)"
    by (simp add: returnIO_def)
  then show "\<exists>r t d. returnIO x s = Some (r, s\<lparr>taken := t, drawn := d\<rparr>)" by blast
qed


lemma randomOnly_throwIO [simp]: "randomOnly (throwIO e)"
proof (rule randomOnlyI)
  fix s
  have "throwIO e s = Some (Throws e, s\<lparr>taken := taken s, drawn := drawn s\<rparr>)"
    by (simp add: throwIO_def)
  then show "\<exists>r t d. throwIO e s = Some (r, s\<lparr>taken := t, drawn := d\<rparr>)" by blast
qed

lemma randomOnly_bindIO:
  assumes "randomOnly m" and "\<And>x. randomOnly (k x)"
  shows "randomOnly (bindIO m k)"
proof (rule randomOnlyI)
  fix s
  from randomOnlyD [OF assms(1)] obtain r t d where m: "m s = Some (r, s\<lparr>taken := t, drawn := d\<rparr>)"
    by blast
  show "\<exists>r t d. bindIO m k s = Some (r, s\<lparr>taken := t, drawn := d\<rparr>)"
  proof (cases r)
    case (Returns x)
    from randomOnlyD [OF assms(2), of x "s\<lparr>taken := t, drawn := d\<rparr>"]
    obtain r' t' d' where "k x (s\<lparr>taken := t, drawn := d\<rparr>) = Some (r', s\<lparr>taken := t', drawn := d'\<rparr>)"
      by auto
    with m Returns show ?thesis by (auto simp: bindIO_def)
  next
    case (Throws e)
    with m show ?thesis by (auto simp: bindIO_def)
  qed
qed

lemma randomOnly_if:
  "randomOnly m \<Longrightarrow> randomOnly n \<Longrightarrow> randomOnly (if b then m else n)"
  by simp

lemma randomOnly_option:
  "randomOnly n \<Longrightarrow> (\<And>x. randomOnly (f x)) \<Longrightarrow> randomOnly (case v of None \<Rightarrow> n | Some x \<Rightarrow> f x)"
  by (cases v) simp_all

lemma randomOnly_pair:
  "(\<And>x y. randomOnly (f x y)) \<Longrightarrow> randomOnly (case p of (x, y) \<Rightarrow> f x y)"
  by (cases p) simp

lemma randomOnly_nextBytes [simp]: "randomOnly (nextBytes n)"
proof (rule randomOnlyI)
  fix s
  have "nextBytes n s =
          Some (Returns (map (secure s) [taken s ..< taken s + n]),
                s\<lparr>taken := taken s + n, drawn := drawn s\<rparr>)"
    by (simp add: nextBytes_def)
  then show "\<exists>r t d. nextBytes n s = Some (r, s\<lparr>taken := t, drawn := d\<rparr>)" by blast
qed

lemma randomOnly_randomBytes [simp]: "randomOnly (randomBytes n)"
  by (simp add: randomBytes_def)

lemma randomOnly_node_randomBytes [simp]: "randomOnly (node_randomBytes n)"
  by (simp add: node_randomBytes_def)

lemma randomOnly_readUInt32LE [simp]: "randomOnly (readUInt32LE buffer offset)"
  by (simp add: readUInt32LE_def Let_def)

lemma randomOnly_Math_random [simp]: "randomOnly Math_random"
proof (rule randomOnlyI)
  fix s
  have "Math_random s =
          Some (Returns (Num (mathRandom s (drawn s))), s\<lparr>taken := taken s, drawn := drawn s + 1\<rparr>)"
    by (simp add: Math_random_def)
  then show "\<exists>r t d. Math_random s = Some (r, s\<lparr>taken := t, drawn := d\<rparr>)" by blast
qed

lemma randomOnly_getRandomNumber [simp]: "randomOnly (getRandomNumber difficulty)"
  unfolding getRandomNumber_def Let_def by (intro randomOnly_bindIO randomOnly_if) simp_all

lemma randomOnly_getRandomOperator [simp]: "randomOnly getRandomOperator"
  unfolding getRandomOperator_def Let_def by (intro randomOnly_bindIO) simp_all

lemma randomOnly_generateRandomString [simp]: "randomOnly (generateRandomString difficulty)"
  unfolding generateRandomString_def Let_def by (intro randomOnly_bindIO) simp_all

lemma randomOnly_generateNonce [simp]: "randomOnly generateNonce"
  unfolding generateNonce_def by (intro randomOnly_bindIO) simp_all

lemma randomOnly_generateSalt [simp]: "randomOnly generateSalt"
  unfolding generateSalt_def by (intro randomOnly_bindIO) simp_all

lemma randomOnly_getRandom [simp]: "randomOnly (getRandom bank)"
  unfolding getRandom_def
  by (intro randomOnly_bindIO randomOnly_option randomOnly_if) simp_all

lemma randomOnly_SequenceGenerator [simp]: "randomOnly (SequenceGenerator_generate difficulty)"
  unfolding SequenceGenerator_generate_def Let_def
  by (intro randomOnly_bindIO randomOnly_if) simp_all

lemma randomOnly_scrambleFrom [simp]: "randomOnly (scrambleFrom k arr)"
proof (induction k arbitrary: arr)
  case 0
  show ?case by simp
next
  case (Suc k)
  show ?case unfolding scrambleFrom.simps Let_def
    by (intro randomOnly_bindIO) (simp_all add: Suc)
qed

lemma randomOnly_ScrambleGenerator [simp]: "randomOnly (ScrambleGenerator_generate difficulty)"
  unfolding ScrambleGenerator_generate_def Let_def scramble_def
  by (intro randomOnly_bindIO randomOnly_option) simp_all

lemma randomOnly_ReverseGenerator [simp]: "randomOnly (ReverseGenerator_generate difficulty)"
  unfolding ReverseGenerator_generate_def Let_def
  by (intro randomOnly_bindIO randomOnly_option) simp_all

lemma randomOnly_selectRandom [simp]: "randomOnly (selectRandom questions)"
  unfolding selectRandom_def Let_def by (intro randomOnly_bindIO randomOnly_if) simp_all

lemma randomOnly_CustomQuestionGenerator [simp]:
  "randomOnly (CustomQuestionGenerator_generate questions)"
  by (simp add: CustomQuestionGenerator_generate_def)

subsection \<open>Nonces and expiry\<close>

text \<open>\<open>advances s s'\<close>: from \<open>s\<close> to \<open>s'\<close> no nonce was forgotten, and the clock was only
  read.\<close>

definition advances :: "system \<Rightarrow> system \<Rightarrow> bool" where
  "advances s s' \<longleftrightarrow> usedNonces s \<subseteq> usedNonces s' \<and> clock s' = clock s \<and> reads s \<le> reads s'"

text \<open>\<open>issued s c s'\<close>: between \<open>s\<close> and \<open>s'\<close> the challenge \<open>c\<close> got a nonce that was
  not in the set and now is, and an expiry of five minutes after the last reading of the
  clock; it carries the digest of its answer followed by its salt; its nonce has 32
  characters and its salt 16.\<close>

definition issued :: "system \<Rightarrow> challenge \<Rightarrow> system \<Rightarrow> bool" where
  "issued s c s' \<longleftrightarrow>
     nonce c \<notin> usedNonces s \<and> nonce c \<in> usedNonces s' \<and> reads s < reads s' \<and>
     expiry c = jsAdd (Num (of_int (clock s (reads s' - 1)))) (Num (5 * 60 * 1000)) \<and>
     hashedAnswer c = createHash_hex (answerString (answer c) @ salt c) \<and>
     length (nonce c) = 32 \<and> length (salt c) = 16"

definition advancing :: "'a io \<Rightarrow> bool" where
  "advancing m \<longleftrightarrow> (\<forall>s r s'. m s = Some (r, s') \<longrightarrow> advances s s')"

definition issuer :: "challenge io \<Rightarrow> bool" where
  "issuer m \<longleftrightarrow>
     (\<forall>s r s'. m s = Some (r, s') \<longrightarrow> advances s s' \<and> (\<forall>c. r = Returns c \<longrightarrow> issued s c s'))"

lemma advances_refl [simp]: "advances s s"
  by (simp add: advances_def)

lemma advances_trans: "advances s s1 \<Longrightarrow> advances s1 s2 \<Longrightarrow> advances s s2"
  by (auto simp: advances_def)

lemma advances_issued: "advances s s1 \<Longrightarrow> issued s1 c s2 \<Longrightarrow> issued s c s2"
  by (auto simp: advances_def issued_def)


lemma advances_random [simp]: "advances s (s\<lparr>taken := t, drawn := d\<rparr>)"
  by (simp add: advances_def)

lemma randomOnly_advancing: "randomOnly m \<Longrightarrow> advancing m"
  unfolding advancing_def
proof (intro allI impI)
  fix s r s'
  assume "randomOnly m" and m: "m s = Some (r, s')"
  from randomOnlyD [OF this(1), of s] m show "advances s s'" by auto
qed

lemma issuer_advancing: "issuer m \<Longrightarrow> advancing m"
  by (simp add: issuer_def advancing_def)

lemma advancing_bindIO:
  assumes "advancing m" and "\<And>x. advancing (k x)"
  shows "advancing (bindIO m k)"
  using assms unfolding advancing_def bindIO_result
  by (metis advances_trans)

lemma issuer_bindIO:
  assumes "advancing m" and "\<And>x. issuer (k x)"
  shows "issuer (bindIO m k)"
  unfolding issuer_def
proof (intro allI impI)
  fix s r s'
  assume "bindIO m k s = Some (r, s')"
  then consider x s1 where "m s = Some (Returns x, s1)" "k x s1 = Some (r, s')"
    | e where "m s = Some (Throws e, s')" "r = Throws e"
    unfolding bindIO_result by blast
  then show "advances s s' \<and> (\<forall>c. r = Returns c \<longrightarrow> issued s c s')"
  proof cases
    case 1
    from assms(1) 1(1) have a: "advances s s1" by (simp add: advancing_def)
    from assms(2) [of x] 1(2) have "advances s1 s'" "\<forall>c. r = Returns c \<longrightarrow> issued s1 c s'"
      by (simp_all add: issuer_def)
    with a show ?thesis by (blast intro: advances_trans advances_issued)
  next
    case 2
    with assms(1) show ?thesis by (simp add: advancing_def)
  qed
qed

lemma issuer_throwIO [simp]: "issuer (throwIO e)"
  by (simp add: issuer_def throwIO_def)

lemma issuer_option:
  "issuer n \<Longrightarrow> (\<And>x. issuer (f x)) \<Longrightarrow> issuer (case v of None \<Rightarrow> n | Some x \<Rightarrow> f x)"
  by (cases v) simp_all

lemma issuer_pair: "(\<And>x y. issuer (f x y)) \<Longrightarrow> issuer (case p of (x, y) \<Rightarrow> f x y)"
  by (cases p) simp

text \<open>A computation given by what it does from each state.\<close>

lemma issuer_pointwise: "(\<And>s. \<exists>m. issuer m \<and> f s = m s) \<Longrightarrow> issuer f"
  unfolding issuer_def by metis

text \<open>The loop that draws the nonce leaves the state as it was but for the bytes taken,
  and the nonce it returns is not in the set.\<close>

definition drew :: "system \<Rightarrow> system \<Rightarrow> bool" where
  "drew s s' \<longleftrightarrow> (\<exists>t d. s' = s\<lparr>taken := t, drawn := d\<rparr>)"

lemma drewI [simp]: "drew s (s\<lparr>taken := t, drawn := d\<rparr>)"
  unfolding drew_def by blast

lemma drew_trans: "drew s s1 \<Longrightarrow> drew s1 s2 \<Longrightarrow> drew s s2"
proof -
  assume "drew s s1" "drew s1 s2"
  then obtain t1 d1 t2 d2 where "s1 = s\<lparr>taken := t1, drawn := d1\<rparr>" "s2 = s1\<lparr>taken := t2, drawn := d2\<rparr>"
    unfolding drew_def by blast
  then have "s2 = s\<lparr>taken := t2, drawn := d2\<rparr>" by simp
  then show ?thesis unfolding drew_def by blast
qed


lemma randomOnly_drew: "randomOnly m \<Longrightarrow> m s = Some (r, s') \<Longrightarrow> drew s s'"
  using randomOnlyD [of m s] by auto

lemma length_toHex [simp]: "length (toHex bytes) = 2 * length bytes"
  by (induction bytes) (simp_all add: toHex_def)

lemma generateNonce_length: "generateNonce s = Some (Returns n, s') \<Longrightarrow> length n = 32"
  by (auto simp: generateNonce_def randomBytes_def nextBytes_def bindIO_def returnIO_def)

lemma freshNonce_aux:
  assumes "freshNonce s = Some y"
  shows "drew s (snd y) \<and> (\<forall>n. fst y = Returns n \<longrightarrow> n \<notin> usedNonces s \<and> length n = 32)"
  using assms
proof (induct rule: freshNonce.raw_induct [rotated 1, consumes 1, case_names 1])
  case (1 f s y)
  from randomOnlyD [OF randomOnly_generateNonce, of s]
  obtain r1 t1 d1 where g: "generateNonce s = Some (r1, s\<lparr>taken := t1, drawn := d1\<rparr>)" by blast
  show ?case
  proof (cases r1)
    case (Throws e)
    with 1(2) g show ?thesis by auto
  next
    case (Returns n1)
    show ?thesis
    proof (cases "n1 \<in> usedNonces s")
      case True
      with 1(2) g Returns have fy: "f (s\<lparr>taken := t1, drawn := d1\<rparr>) = Some y" by simp
      have "drew (s\<lparr>taken := t1, drawn := d1\<rparr>) (snd y) \<and>
            (\<forall>n. fst y = Returns n \<longrightarrow>
               n \<notin> usedNonces (s\<lparr>taken := t1, drawn := d1\<rparr>) \<and> length n = 32)"
        by (rule 1(1)) (rule fy)
      then have d: "drew (s\<lparr>taken := t1, drawn := d1\<rparr>) (snd y)"
        and n: "\<forall>n. fst y = Returns n \<longrightarrow> n \<notin> usedNonces s \<and> length n = 32" by simp_all
      have "drew s (snd y)" by (rule drew_trans [OF drewI d])
      with n show ?thesis by simp
    next
      case False
      from g Returns have "length n1 = 32" by (simp add: generateNonce_length)
      with False 1(2) g Returns show ?thesis by auto
    qed
  qed
qed

lemma freshNonce_result:
  assumes "freshNonce s = Some (r, s')"
  shows "drew s s'" and "r = Returns n \<Longrightarrow> n \<notin> usedNonces s"
    and "r = Returns n \<Longrightarrow> length n = 32"
  using freshNonce_aux [OF assms] by simp_all

text \<open>When the first nonce drawn is not in the set, the loop ends with it.\<close>

lemma freshNonce_first:
  assumes "toHex (map (secure s) [taken s ..< taken s + 16]) \<notin> usedNonces s"
  shows "freshNonce s =
           Some (Returns (toHex (map (secure s) [taken s ..< taken s + 16])), s\<lparr>taken := taken s + 16\<rparr>)"
proof -
  have "generateNonce s =
          Some (Returns (toHex (map (secure s) [taken s ..< taken s + 16])), s\<lparr>taken := taken s + 16\<rparr>)"
    by (simp add: generateNonce_def randomBytes_def nextBytes_def bindIO_def returnIO_def)
  with assms show ?thesis by (subst freshNonce.simps) simp
qed

lemma generateSalt_result:
  "generateSalt s =
     Some (Returns (toHex (map (secure s) [taken s ..< taken s + 8])), s\<lparr>taken := taken s + 8\<rparr>)"
  by (simp add: generateSalt_def randomBytes_def nextBytes_def bindIO_def returnIO_def)

text \<open>What \<open>createChallenge\<close> returns, given the nonce its loop ended with.\<close>

lemma createChallenge_unfold:
  "createChallenge b s =
     (case freshNonce s of
        None \<Rightarrow> None
      | Some (Throws e, s1) \<Rightarrow> Some (Throws e, s1)
      | Some (Returns n, s1) \<Rightarrow>
          Some (Returns
                  (Challenge (b_type b) (b_question b) (b_answer b) n
                     (jsAdd (Num (of_int (clock s1 (reads s1)))) (Num (5 * 60 * 1000)))
                     (createHash_hex (answerString (b_answer b) @
                        toHex (map (secure s1) [taken s1 ..< taken s1 + 8])))
                     (toHex (map (secure s1) [taken s1 ..< taken s1 + 8])) (b_steps b)),
                s1\<lparr>usedNonces := insert n (usedNonces s1), reads := reads s1 + 1,
                    taken := taken s1 + 8\<rparr>))"
  unfolding createChallenge_def
  by (simp add: bindIO_def Date_now_def generateSalt_result returnIO_def Let_def
      split: option.splits outcome.splits prod.splits)

lemma issuer_createChallenge [simp]: "issuer (createChallenge b)"
  unfolding issuer_def
proof (intro allI impI)
  fix s r s'
  assume c: "createChallenge b s = Some (r, s')"
  then obtain r1 s1 where f: "freshNonce s = Some (r1, s1)"
    unfolding createChallenge_unfold by (auto split: option.splits)
  from freshNonce_result(1) [OF f] obtain t d where s1: "s1 = s\<lparr>taken := t, drawn := d\<rparr>"
    unfolding drew_def by blast
  from freshNonce_result(2,3) [OF f] have
    fresh: "\<forall>n. r1 = Returns n \<longrightarrow> n \<notin> usedNonces s \<and> length n = 32"
    by blast
  show "advances s s' \<and> (\<forall>c. r = Returns c \<longrightarrow> issued s c s')"
  proof (cases r1)
    case (Throws e)
    with c f s1 show ?thesis unfolding createChallenge_unfold by auto
  next
    case (Returns n)
    with c f s1 fresh show ?thesis
      unfolding createChallenge_unfold by (auto simp: advances_def issued_def)
  qed
qed

lemma drawMath_drew: "drawMath s = Some (r, s') \<Longrightarrow> drew s s'"
proof -
  have r: "randomOnly
     (bindIO (getRandomNumber d) (\<lambda>num1.
      bindIO (getRandomNumber d) (\<lambda>num2'.
      bindIO getRandomOperator (\<lambda>operator.
      bindIO (if operator = js ''/'' \<and> num2' = Num 0 then
                bindIO (getRandomNumber d) (\<lambda>n. returnIO (jsAdd n (Num 1)))
              else returnIO num2') (\<lambda>num2.
        let question = numToString num1 @ js '' '' @ operator @ js '' '' @ numToString num2;
            answer = calculateMath num1 operator num2
        in returnIO (question, answer))))))" for d
    unfolding Let_def by (intro randomOnly_bindIO randomOnly_if) simp_all
  assume "drawMath s = Some (r, s')"
  then show "drew s s'"
    unfolding drawMath_def by (rule randomOnly_drew [OF r])
qed

lemma drew_advances: "drew s s' \<Longrightarrow> advances s s'"
  unfolding drew_def by auto

lemma issuerD:
  "issuer m \<Longrightarrow> m s = Some (r, s') \<Longrightarrow> advances s s' \<and> (\<forall>c. r = Returns c \<longrightarrow> issued s c s')"
  by (simp add: issuer_def)

lemma generateMath_aux:
  assumes "generateMath s = Some y"
  shows "advances s (snd y) \<and> (\<forall>c. fst y = Returns c \<longrightarrow> issued s c (snd y))"
  using assms
proof (induct rule: generateMath.raw_induct [rotated 1, consumes 1, case_names 1])
  case (1 f s y)
  from 1(2) obtain r1 s1 where d: "drawMath s = Some (r1, s1)"
    by (auto split: option.splits)
  from drawMath_drew [OF d] have a: "advances s s1" by (rule drew_advances)
  show ?case
  proof (cases r1)
    case (Throws e)
    with 1(2) d a show ?thesis by auto
  next
    case (Returns qa)
    obtain q ans where qa: "qa = (q, ans)" by (cases qa)
    show ?thesis
    proof (cases "isNaN ans")
      case True
      with 1(2) d Returns qa have fy: "f s1 = Some y" by simp
      have "advances s1 (snd y) \<and> (\<forall>c. fst y = Returns c \<longrightarrow> issued s1 c (snd y))"
        by (rule 1(1)) (rule fy)
      with a show ?thesis by (blast intro: advances_trans advances_issued)
    next
      case False
      with 1(2) d Returns qa have
        "createChallenge \<lparr>b_type = js ''math'', b_question = q, b_answer = JNum ans, b_steps = None\<rparr> s1
           = Some (fst y, snd y)" by simp
      from issuerD [OF issuer_createChallenge this] a show ?thesis
        by (blast intro: advances_trans advances_issued)
    qed
  qed
qed

lemma issuer_generateMath [simp]: "issuer generateMath"
  unfolding issuer_def using generateMath_aux by fastforce

lemma issuer_from:
  assumes "\<And>s. f s = bindIO (m s) (k s) s" and "\<And>s. advancing (m s)" and "\<And>s x. issuer (k s x)"
  shows "issuer f"
  unfolding issuer_def
proof (intro allI impI)
  fix s r s'
  assume "f s = Some (r, s')"
  then have "bindIO (m s) (k s) s = Some (r, s')" by (simp add: assms(1))
  from issuerD [OF issuer_bindIO this, OF assms(2) assms(3)]
  show "advances s s' \<and> (\<forall>c. r = Returns c \<longrightarrow> issued s c s')" .
qed

lemma issuer_generateText [simp]: "issuer generateText"
  by (rule issuer_from [where m = "\<lambda>s. generateRandomString (getDifficulty s)"],
      simp add: generateText_def,
      simp_all add: randomOnly_advancing issuer_option issuer_pair)

lemma issuer_generateRiddle [simp]: "issuer (generateRiddle B)"
  by (rule issuer_from [where m = "\<lambda>s. RiddleBank_getRandom B (getLocale s) (getDifficulty s)"],
      simp add: generateRiddle_def,
      simp_all add: randomOnly_advancing issuer_option issuer_pair RiddleBank_getRandom_def)

lemma issuer_generateSequence [simp]: "issuer generateSequence"
  by (rule issuer_from [where m = "\<lambda>s. SequenceGenerator_generate (getDifficulty s)"],
      simp add: generateSequence_def,
      simp_all add: randomOnly_advancing issuer_option issuer_pair)

lemma issuer_generateScramble [simp]: "issuer generateScramble"
  by (rule issuer_from [where m = "\<lambda>s. ScrambleGenerator_generate (getDifficulty s)"],
      simp add: generateScramble_def,
      simp_all add: randomOnly_advancing issuer_option issuer_pair)

lemma issuer_generateLogic [simp]: "issuer (generateLogic B)"
  by (rule issuer_from [where m = "\<lambda>s. LogicGenerator_getRandom B (getLocale s) (getDifficulty s)"],
      simp add: generateLogic_def,
      simp_all add: randomOnly_advancing issuer_option issuer_pair LogicGenerator_getRandom_def)

lemma issuer_generateReverse [simp]: "issuer generateReverse"
  by (rule issuer_from [where m = "\<lambda>s. ReverseGenerator_generate (getDifficulty s)"],
      simp add: generateReverse_def,
      simp_all add: randomOnly_advancing issuer_option issuer_pair)

lemma issuer_generateCustom [simp]: "issuer generateCustom"
  unfolding issuer_def
proof (intro allI impI)
  fix s r s'
  assume g: "generateCustom s = Some (r, s')"
  show "advances s s' \<and> (\<forall>c. r = Returns c \<longrightarrow> issued s c s')"
  proof (cases "customGenerator s")
    case None
    with g show ?thesis by (auto simp: generateCustom_def throwIO_def)
  next
    case (Some questions)
    have "issuer (bindIO (CustomQuestionGenerator_generate questions) (\<lambda>(q, a).
              createChallenge
                \<lparr>b_type = js ''custom'', b_question = q, b_answer = JStr a, b_steps = None\<rparr>))"
      by (rule issuer_bindIO) (simp_all add: randomOnly_advancing issuer_pair)
    from issuerD [OF this] g Some show ?thesis by (simp add: generateCustom_def)
  qed
qed

lemma issuer_generateMulti [simp]: "issuer (generateMulti B)"
  unfolding generateMulti_def
  by (intro issuer_bindIO issuer_advancing) simp_all


lemma issuer_none [simp]: "issuer (\<lambda>_. None)"
  by (simp add: issuer_def)

lemma issuer_generateBy: "issuer otherwise \<Longrightarrow> issuer (generateBy B otherwise)"
  unfolding issuer_def [of "generateBy B otherwise"]
proof (intro allI impI)
  fix s r s'
  assume o: "issuer otherwise" and g: "generateBy B otherwise s = Some (r, s')"
  have "\<exists>m. issuer m \<and> generateBy B otherwise s = m s"
    unfolding generateBy_def Let_def using o
    by (auto simp: throwIO_def split: option.splits intro: issuer_generateMath issuer_generateText
        issuer_generateRiddle issuer_generateSequence issuer_generateScramble issuer_generateLogic
        issuer_generateReverse issuer_generateMulti issuer_generateCustom
        issuer_throwIO [unfolded throwIO_def])
  then obtain m where "issuer m" "m s = Some (r, s')" using g by auto
  then show "advances s s' \<and> (\<forall>c. r = Returns c \<longrightarrow> issued s c s')" by (rule issuerD)
qed

lemma advances_setType [simp]: "advances s (setType t s)"
  by (simp add: setType_def advances_def split: option.splits)

lemma setType_same [simp]:
  "usedNonces (setType t s) = usedNonces s" "clock (setType t s) = clock s"
  "reads (setType t s) = reads s"
  by (simp_all add: setType_def split: option.splits)

lemma issuer_generateMixed [simp]: "issuer (generateMixed B)"
  unfolding issuer_def
proof (intro allI impI)
  fix s r s'
  assume g: "generateMixed B s = Some (r, s')"
  then consider
    (inner) buffer s0 ch s2 where "randomBytes 1 s = Some (Returns buffer, s0)"
      "generateBy B (\<lambda>_. None)
         (setType (JStr (mixedTypes ! (unat (buffer ! 0) mod length mixedTypes))) s0)
       = Some (Returns ch, s2)"
      "createChallenge
         \<lparr>b_type = js ''mixed'', b_question = question ch, b_answer = answer ch, b_steps = steps ch\<rparr>
         (case map_option otype (standardOptions s0) of
            Some t \<Rightarrow> if truthy t then setType t s2 else s2
          | None \<Rightarrow> s2) = Some (r, s')"
  | (innerThrows) buffer s0 e where "randomBytes 1 s = Some (Returns buffer, s0)"
      "generateBy B (\<lambda>_. None)
         (setType (JStr (mixedTypes ! (unat (buffer ! 0) mod length mixedTypes))) s0)
       = Some (Throws e, s')" "r = Throws e"
  | (bytesThrow) e where "randomBytes 1 s = Some (Throws e, s')" "r = Throws e"
    unfolding generateMixed_def Let_def bindIO_result by blast
  then show "advances s s' \<and> (\<forall>c. r = Returns c \<longrightarrow> issued s c s')"
  proof cases
    case inner
    define s1 where "s1 = setType (JStr (mixedTypes ! (unat (buffer ! 0) mod length mixedTypes))) s0"
    define s3 where "s3 = (case map_option otype (standardOptions s0) of
              Some t \<Rightarrow> if truthy t then setType t s2 else s2
            | None \<Rightarrow> s2)"
    have a0: "advances s s0"
      by (rule drew_advances [OF randomOnly_drew [OF randomOnly_randomBytes inner(1)]])
    have a1: "advances s0 s1" by (simp add: s1_def)
    from issuerD [OF issuer_generateBy inner(2) [folded s1_def]] have a2: "advances s1 s2" by simp
    have a3: "advances s2 s3" by (simp add: s3_def split: option.splits)
    from a0 a1 a2 a3 have a: "advances s s3" by (blast intro: advances_trans)
    from issuerD [OF issuer_createChallenge inner(3) [folded s3_def]] a show ?thesis
      by (blast intro: advances_trans advances_issued)
  next
    case innerThrows
    define s1 where "s1 = setType (JStr (mixedTypes ! (unat (buffer ! 0) mod length mixedTypes))) s0"
    have a0: "advances s s0"
      by (rule drew_advances [OF randomOnly_drew [OF randomOnly_randomBytes innerThrows(1)]])
    have a1: "advances s0 s1" by (simp add: s1_def)
    from issuerD [OF issuer_generateBy innerThrows(2) [folded s1_def]] have "advances s1 s'" by simp
    with a0 a1 innerThrows(3) show ?thesis by (auto intro: advances_trans)
  next
    case bytesThrow
    have "advances s s'"
      by (rule drew_advances [OF randomOnly_drew [OF randomOnly_randomBytes bytesThrow(1)]])
    with bytesThrow(2) show ?thesis by simp
  qed
qed

lemma issuer_generate: "issuer (generate B)"
  unfolding generate_def by (rule issuer_generateBy) simp

subsection \<open>Facts about rounding\<close>

lemma ndigits_nonneg: "0 \<le> ndigits b n"
  by (induction b n rule: ndigits.induct) (subst ndigits.simps, simp)

lemma ndigits_lower: "0 < n \<Longrightarrow> (2::int) ^ nat (ndigits 2 n - 1) \<le> n"
proof (induction "2::int" n rule: ndigits.induct)
  case (1 n)
  show ?case
  proof (cases "n div 2 = 0")
    case True
    with 1(2) have "n = 1" by presburger
    then show ?thesis by (simp add: ndigits.simps)
  next
    case False
    with 1(2) have pos: "0 < n div 2" by presburger
    from 1(2) have c: "\<not> ((2::int) < 2 \<or> n \<le> 0)" by simp
    have IH: "2 ^ nat (ndigits 2 (n div 2) - 1) \<le> n div 2"
      using 1(1) [OF c pos] .
    have nd: "ndigits 2 n = 1 + ndigits 2 (n div 2)"
      using 1(2) by (subst ndigits.simps) simp
    have ge1: "1 \<le> ndigits 2 (n div 2)"
      using pos by (subst ndigits.simps) (simp add: ndigits_nonneg)
    then have "nat (ndigits 2 n - 1) = Suc (nat (ndigits 2 (n div 2) - 1))"
      using nd by simp
    then have "(2::int) ^ nat (ndigits 2 n - 1) = 2 * 2 ^ nat (ndigits 2 (n div 2) - 1)"
      by simp
    also have "\<dots> \<le> 2 * (n div 2)" using IH by simp
    also have "\<dots> \<le> n" by presburger
    finally show ?thesis .
  qed
qed

lemma ndigits_upper: "0 \<le> n \<Longrightarrow> n < (2::int) ^ nat (ndigits 2 n)"
proof (induction "2::int" n rule: ndigits.induct)
  case (1 n)
  show ?case
  proof (cases "n = 0")
    case True
    then show ?thesis by simp
  next
    case False
    with 1(2) have pos: "0 < n" by simp
    then have c: "\<not> ((2::int) < 2 \<or> n \<le> 0)" by simp
    have "0 \<le> n div 2" using pos by simp
    from 1(1) [OF c this] have IH: "n div 2 < 2 ^ nat (ndigits 2 (n div 2))" .
    have nd: "ndigits 2 n = 1 + ndigits 2 (n div 2)"
      using pos by (subst ndigits.simps) simp
    then have "nat (ndigits 2 n) = Suc (nat (ndigits 2 (n div 2)))"
      using ndigits_nonneg [of 2 "n div 2"] by simp
    then have "(2::int) ^ nat (ndigits 2 n) = 2 * 2 ^ nat (ndigits 2 (n div 2))" by simp
    moreover have "n < 2 * (n div 2 + 1)" by presburger
    moreover have "2 * (n div 2 + 1) \<le> 2 * 2 ^ nat (ndigits 2 (n div 2))" using IH by simp
    ultimately show ?thesis by linarith
  qed
qed

lemma ndigits_pos: "0 < n \<Longrightarrow> 1 \<le> ndigits 2 n"
  by (subst ndigits.simps) (simp add: ndigits_nonneg)

lemma pow2_pos: "0 < pow2 e"
  by (simp add: pow2_def)

lemma pow2_powi: "pow2 e = 2 powi e"
proof (cases "0 \<le> e")
  case True
  then show ?thesis unfolding pow2_def power_int_def by simp
next
  case False
  have "inverse (2::rat) ^ n = 1 / 2 ^ n" for n
    by (simp only: inverse_eq_divide power_one_over)
  with False show ?thesis unfolding pow2_def power_int_def by simp
qed

lemma pow2_add: "pow2 (a + b) = pow2 a * pow2 b"
  unfolding pow2_powi by (rule power_int_add) simp

lemma pow2_nat: "0 \<le> e \<Longrightarrow> pow2 e = of_int (2 ^ nat e)"
  by (simp add: pow2_def)

lemma pow2_mono: "a \<le> b \<Longrightarrow> pow2 a \<le> pow2 b"
  unfolding pow2_powi by (rule power_int_increasing) simp_all

text \<open>\<open>ilog 2\<close> is the binary exponent.\<close>

lemma ilog2_bounds:
  assumes "0 < a"
  shows "pow2 (ilog 2 a) \<le> a \<and> a < pow2 (ilog 2 a + 1)"
proof (cases "1 \<le> a")
  case True
  define n where "n = \<lfloor>a\<rfloor>"
  have n: "1 \<le> n" "of_int n \<le> a" "a < of_int (n + 1)"
    using True by (simp_all add: n_def le_floor_iff) linarith
  have e: "ilog 2 a = ndigits 2 n - 1" using True by (simp add: ilog_def n_def)
  have nd: "1 \<le> ndigits 2 n" using n(1) by (simp add: ndigits_pos)
  have lo: "(2::int) ^ nat (ndigits 2 n - 1) \<le> n" using n(1) by (simp add: ndigits_lower)
  have hi: "n + 1 \<le> (2::int) ^ nat (ndigits 2 n)" using ndigits_upper [of n] n(1) by simp
  have "pow2 (ilog 2 a) = of_int (2 ^ nat (ndigits 2 n - 1))"
    unfolding e using nd by (simp add: pow2_nat)
  also have "\<dots> \<le> of_int n" using lo by (simp only: of_int_le_iff)
  finally have 1: "pow2 (ilog 2 a) \<le> a" using n(2) by simp
  have "a < of_int (n + 1)" by (rule n(3))
  also have "\<dots> \<le> of_int (2 ^ nat (ndigits 2 n))" using hi by (simp only: of_int_le_iff)
  also have "\<dots> = pow2 (ilog 2 a + 1)"
    unfolding e using nd by (simp add: pow2_nat)
  finally show ?thesis using 1 by simp
next
  case False
  then have a1: "a < 1" by simp
  define m where "m = \<lceil>1 / a\<rceil> - 1"
  have inv: "1 < 1 / a" using assms a1 by simp
  then have m1: "1 \<le> m" unfolding m_def by linarith
  have mlt: "of_int m < 1 / a" unfolding m_def by linarith
  have mge: "1 / a \<le> of_int (m + 1)" unfolding m_def by (simp add: le_of_int_ceiling)
  have e: "ilog 2 a = - ndigits 2 m" using False by (simp add: ilog_def m_def)
  have nd: "1 \<le> ndigits 2 m" using m1 by (simp add: ndigits_pos)
  have lo: "(2::int) ^ nat (ndigits 2 m - 1) \<le> m" using m1 by (simp add: ndigits_lower)
  have hi: "m + 1 \<le> (2::int) ^ nat (ndigits 2 m)" using ndigits_upper [of m] m1 by simp
  have "1 / a \<le> of_int (2 ^ nat (ndigits 2 m))"
    using mge hi by (meson of_int_le_iff order_trans)
  also have "\<dots> = pow2 (ndigits 2 m)" using nd by (simp add: pow2_nat)
  finally have "1 / a \<le> pow2 (ndigits 2 m)" .
  then have "1 \<le> a * pow2 (ndigits 2 m)" using assms by (simp add: field_simps)
  moreover have "pow2 (- ndigits 2 m) * pow2 (ndigits 2 m) = 1"
    using pow2_add [of "- ndigits 2 m" "ndigits 2 m"] by (simp add: pow2_def)
  ultimately have 1: "pow2 (ilog 2 a) \<le> a"
    unfolding e using pow2_pos [of "ndigits 2 m"]
    by (metis mult_le_cancel_right not_less order_less_imp_le)
  have "pow2 (ndigits 2 m - 1) = of_int (2 ^ nat (ndigits 2 m - 1))"
    using nd by (simp add: pow2_nat)
  also have "\<dots> \<le> of_int m" using lo by (simp only: of_int_le_iff)
  also have "\<dots> < 1 / a" by (rule mlt)
  finally have "a * pow2 (ndigits 2 m - 1) < 1" using assms by (simp add: field_simps)
  moreover have "pow2 (1 - ndigits 2 m) * pow2 (ndigits 2 m - 1) = 1"
    using pow2_add [of "1 - ndigits 2 m" "ndigits 2 m - 1"] by (simp add: pow2_def)
  ultimately have "a < pow2 (1 - ndigits 2 m)"
    using pow2_pos [of "ndigits 2 m - 1"]
    by (metis mult_less_cancel_right not_less order_less_imp_le)
  then show ?thesis using 1 unfolding e by (simp add: add.commute)
qed


lemma round_half_even_int: "round_half_even (of_int n) = n"
  by (simp add: round_half_even_def)

lemma round_half_even_le: "of_int (round_half_even x) \<le> x + 1"
  unfolding round_half_even_def Let_def by (simp; linarith)

lemma round_half_even_nonneg: "0 \<le> x \<Longrightarrow> 0 \<le> round_half_even x"
  unfolding round_half_even_def Let_def by (simp; linarith)

text \<open>Integers up to \<open>2 ^ 53\<close> are binary64 values.\<close>

lemma fl_int:
  assumes "0 \<le> n" and "n \<le> 2 ^ 53"
  shows "fl (of_int n) = Num (of_int n)"
proof (cases "n = 0")
  case True
  then show ?thesis by (simp add: fl_def)
next
  case False
  define a :: rat where "a = of_int n"
  define e where "e = ilog 2 a"
  have "1 \<le> n" using False assms(1) by simp
  then have a2: "1 \<le> a" unfolding a_def by (simp only: of_int_1_le_iff)
  have "(of_int n :: rat) \<le> of_int (2 ^ 53)" using assms(2) by (simp only: of_int_le_iff)
  then have a3: "a \<le> pow2 53" unfolding a_def by (simp add: pow2_def)
  from ilog2_bounds [of a] a2 have b: "pow2 e \<le> a" "a < pow2 (e + 1)"
    unfolding e_def by simp_all
  have e0: "0 \<le> e"
  proof (rule ccontr)
    assume "\<not> 0 \<le> e"
    then have "pow2 (e + 1) \<le> pow2 0" by (intro pow2_mono) simp
    with b(2) a2 show False by (simp add: pow2_def)
  qed
  have e53: "e \<le> 53"
  proof (rule ccontr)
    assume "\<not> e \<le> 53"
    then have "pow2 54 \<le> pow2 e" by (intro pow2_mono) simp
    with b(1) a3 show False by (simp add: pow2_def)
  qed
  have E: "max e (- 1022) = e" using e0 by simp
  have v: "of_int (round_half_even (a / pow2 (e - 52))) * pow2 (e - 52) = a"
  proof (cases "e \<le> 52")
    case True
    have "pow2 (e - 52) * pow2 (52 - e) = 1"
      using pow2_add [of "e - 52" "52 - e"] by (simp add: pow2_def)
    then have "a / pow2 (e - 52) = a * pow2 (52 - e)"
      using pow2_pos [of "e - 52"] by (simp add: field_simps)
    also have "\<dots> = of_int (n * 2 ^ nat (52 - e))"
      using True by (simp add: a_def pow2_nat)
    finally have "of_int (round_half_even (a / pow2 (e - 52))) = a / pow2 (e - 52)"
      by (simp only: round_half_even_int)
    then show ?thesis using pow2_pos [of "e - 52"] by simp
  next
    case False
    with e53 have e: "e = 53" by simp
    with b(1) a3 have "a = pow2 53" by simp
    then have "a / pow2 (e - 52) = of_int (2 ^ 52)" unfolding e by (simp add: pow2_def)
    then have "of_int (round_half_even (a / pow2 (e - 52))) = a / pow2 (e - 52)"
      by (simp only: round_half_even_int)
    then show ?thesis using pow2_pos [of "e - 52"] by simp
  qed
  have lt: "\<not> pow2 1024 \<le> a"
  proof -
    have "pow2 53 < pow2 1024" by (simp add: pow2_def)
    with a3 show ?thesis by simp
  qed
  have pos: "0 < a" using a2 by simp
  then have "fl a = Num a"
    using lt v unfolding fl_def Let_def e_def by (simp add: E [unfolded e_def])
  then show ?thesis unfolding a_def .
qed

text \<open>Rounding a number of moderate size gives a finite number of moderate size.\<close>

lemma fl_bounded:
  assumes "0 \<le> x" and "x \<le> 2 ^ 1000"
  shows "\<exists>v. fl x = Num v \<and> 0 \<le> v \<and> v \<le> 2 * x + 1"
proof (cases "x = 0")
  case True
  then show ?thesis by (simp add: fl_def)
next
  case False
  with assms have pos: "0 < x" by simp
  define e where "e = ilog 2 x"
  define E where "E = max e (- 1022)"
  define q where "q = pow2 (E - 52)"
  define v where "v = of_int (round_half_even (x / q)) * q"
  have q0: "0 < q" unfolding q_def by (rule pow2_pos)
  from ilog2_bounds [OF pos] have b: "pow2 e \<le> x" unfolding e_def by simp
  have q1: "q \<le> x + 1"
  proof (cases "- 1022 \<le> e")
    case True
    then have "q = pow2 (e - 52)" unfolding q_def E_def by simp
    also have "\<dots> \<le> pow2 e" by (intro pow2_mono) simp
    finally show ?thesis using b by simp
  next
    case False
    then have "q = pow2 (- 1074)" unfolding q_def E_def by simp
    also have "\<dots> \<le> pow2 0" by (intro pow2_mono) simp
    finally show ?thesis using pos by (simp add: pow2_def)
  qed
  have "0 \<le> x / q" using pos q0 by simp
  then have v0: "0 \<le> v" unfolding v_def using q0 round_half_even_nonneg [of "x / q"] by simp
  have "v \<le> (x / q + 1) * q"
    unfolding v_def using q0 round_half_even_le [of "x / q"] by (simp only: mult_le_cancel_right) simp
  also have "\<dots> = x + q" using q0 by (simp add: field_simps)
  finally have v1: "v \<le> 2 * x + 1" using q1 by simp
  have "(2 * 2 ^ 1000 + 1 :: rat) < pow2 1024" by (simp add: pow2_def)
  with v1 assms(2) have lt: "\<not> pow2 1024 \<le> v" by simp
  have "fl x = Num v"
    using False pos lt unfolding fl_def Let_def v_def q_def E_def e_def by simp
  with v0 v1 show ?thesis by simp
qed


lemma jsAdd_int:
  assumes "0 \<le> a + b" and "a + b \<le> 2 ^ 53"
  shows "jsAdd (Num (of_int a)) (Num (of_int b)) = Num (of_int (a + b))"
proof -
  have "jsAdd (Num (of_int a)) (Num (of_int b)) = fl (of_int (a + b))"
    by (simp add: jsAdd_def)
  with fl_int [OF assms] show ?thesis by simp
qed

subsection \<open>Nonces\<close>



lemma createChallenge_returned:
  assumes "createChallenge b s = Some (Returns c, s')"
  obtains n s1 where "freshNonce s = Some (Returns n, s1)"
    and "c = Challenge (b_type b) (b_question b) (b_answer b) n
               (jsAdd (Num (of_int (clock s1 (reads s1)))) (Num (5 * 60 * 1000)))
               (createHash_hex (answerString (b_answer b) @
                  toHex (map (secure s1) [taken s1 ..< taken s1 + 8])))
               (toHex (map (secure s1) [taken s1 ..< taken s1 + 8])) (b_steps b)"
    and "s' = s1\<lparr>usedNonces := insert n (usedNonces s1), reads := reads s1 + 1,
                   taken := taken s1 + 8\<rparr>"
proof (cases "freshNonce s")
  case None
  with assms show ?thesis unfolding createChallenge_unfold by simp
next
  case (Some y)
  obtain r1 s1 where y: "y = (r1, s1)" by (cases y)
  show ?thesis
  proof (cases r1)
    case (Throws e)
    with assms Some y show ?thesis unfolding createChallenge_unfold by simp
  next
    case (Returns n)
    with assms Some y that [of n s1] show ?thesis unfolding createChallenge_unfold by simp
  qed
qed



subsection \<open>Expiry\<close>

lemma expired_rejected:
  assumes "getProp c (js ''expiry'') = Some (JNum e)" and "num_gt (Num (of_int now)) e"
  shows "K9Guard_validate H now c u = Some False"
proof -
  obtain b where b: "isValidChallenge c = Some b" using isValidChallenge_returns by blast
  show ?thesis unfolding K9Guard_validate_def using assms b by simp
qed

lemma generate_expiry:
  assumes "generate B s = Some (Returns ch, s')"
  shows "reads s < reads s'"
    and "expiry ch = jsAdd (Num (of_int (clock s (reads s' - 1)))) (Num (5 * 60 * 1000))"
  using issuerD [OF issuer_generate assms] by (simp_all add: issued_def)

text \<open>
  C3. A challenge whose expiry is a number smaller than the current time is rejected,
  whatever the input. And a challenge that \<open>generate()\<close> returns has as expiry the last
  reading of the clock made during the call plus \<open>5 * 60 * 1000\<close> milliseconds, in
  binary64 arithmetic; the sum is exact for every time value a \<open>Date\<close> can hold (at most
  8.64e15 milliseconds after the epoch).
\<close>

theorem expired_rejected_expiry_five_minutes:
  "(getProp c (js ''expiry'') = Some (JNum e) \<and> num_gt (Num (of_int now)) e \<longrightarrow>
      K9Guard_validate H now c u = Some False) \<and>
   (generate B s = Some (Returns ch, s') \<longrightarrow>
      reads s < reads s' \<and>
      expiry ch = jsAdd (Num (of_int (clock s (reads s' - 1)))) (Num (5 * 60 * 1000)) \<and>
      (0 \<le> clock s (reads s' - 1) \<and> clock s (reads s' - 1) \<le> 8640000000000000 \<longrightarrow>
         expiry ch = Num (of_int (clock s (reads s' - 1) + 300000))))"
proof -
  have "expiry ch = Num (of_int (clock s (reads s' - 1) + 300000))"
    if g: "generate B s = Some (Returns ch, s')"
      and t: "0 \<le> clock s (reads s' - 1)" "clock s (reads s' - 1) \<le> 8640000000000000"
  proof -
    have "jsAdd (Num (of_int (clock s (reads s' - 1)))) (Num (of_int 300000))
            = Num (of_int (clock s (reads s' - 1) + 300000))"
      using t by (intro jsAdd_int) simp_all
    with generate_expiry(2) [OF g] show ?thesis by simp
  qed
  with expired_rejected [of c e now H u] generate_expiry [of B s ch s'] show ?thesis by blast
qed

subsection \<open>Two text challenges\<close>

text \<open>
  A platform for the examples: the secure generator delivers the bytes 0, 1, 2, ...,
  \<open>Math.random()\<close> returns 0, and the clock shows 1700000000000 at its first reading and one
  millisecond more at each further one. \<open>textGenerator\<close> is the state that
  \<open>new K9Guard({ type: 'text', difficulty: 'easy' })\<close> leaves there; its first two calls of
  \<open>generate()\<close> return \<open>firstText\<close> and \<open>secondText\<close>.
\<close>

definition world :: system where
  "world = \<lparr>secure = of_nat, taken = 0, mathRandom = (\<lambda>n. 0), drawn = 0,
             clock = (\<lambda>n. 1700000000000 + int n), reads = 0,
             standardOptions = None, customOptions = None, customGenerator = None,
             usedNonces = {}\<rparr>"

definition noBanks :: banks where
  "noBanks = \<lparr>riddles_en = [], riddles_tr = [], logics_en = [], logics_tr = []\<rparr>"

definition textEasy :: jsval where
  "textEasy = JObj [(js ''type'', JStr (js ''text'')), (js ''difficulty'', JStr (js ''easy''))]"

definition textGenerator :: system where
  "textGenerator = world\<lparr>standardOptions :=
            Some \<lparr>otype = JStr (js ''text''), odifficulty = JStr (js ''easy''),
                  olocale = JStr (js ''en'')\<rparr>\<rparr>"

lemma K9Guard_textEasy: "K9Guard textEasy world = Inr textGenerator"
  by (simp add: K9Guard_def textEasy_def processOptions_def field_def optionOr_def
      CaptchaGenerator_def isCustomOptions_def asStandard_def world_def textGenerator_def js_def)

lemma upt_0_4: "[0..<4] = [0, 1, 2, 3]"
  by code_simp

lemma upt_4_20: "[4..<20] = [4, 5, 6, 7, 8, 9, 10, 11, 12, 13, 14, 15, 16, 17, 18, 19]"
  by code_simp

lemma upt_20_28: "[20..<28] = [20, 21, 22, 23, 24, 25, 26, 27]"
  by code_simp

definition firstText :: challenge where
  "firstText =
     Challenge (js ''text'') (js ''ABCD'') (JStr (js ''ABCD''))
       (js ''0405060708090a0b0c0d0e0f10111213'') (Num 1700000300000)
       (createHash_hex (js ''ABCD'' @ js ''1415161718191a1b'')) (js ''1415161718191a1b'') None"

lemma text_drawn:
  "generateRandomString (JStr (js ''easy'')) textGenerator =
     Some (Returns (js ''ABCD''), textGenerator\<lparr>taken := 4\<rparr>)"
  by (simp add: generateRandomString_def randomBytes_def nextBytes_def bindIO_def returnIO_def
      textGenerator_def world_def upt_0_4 chars_def js_def)

lemma nonce_4_20:
  "toHex (map of_nat [4..<20]) = js ''0405060708090a0b0c0d0e0f10111213''"
  by (simp add: upt_4_20 toHex_def hexChar_def js_def)

lemma salt_20_28: "toHex [20, 21, 22, 23, 24, 25, 26, 27] = js ''1415161718191a1b''"
  by (simp add: toHex_def hexChar_def js_def)

lemma expiry_first: "jsAdd (Num 1700000000000) (Num 300000) = Num 1700000300000"
  using jsAdd_int [of 1700000000000 300000] by simp

lemma first_text:
  "generate noBanks textGenerator =
     Some (Returns firstText,
           textGenerator\<lparr>usedNonces := {js ''0405060708090a0b0c0d0e0f10111213''}, reads := 1,
                          taken := 28\<rparr>)"
proof -
  have g: "generate noBanks textGenerator = generateText textGenerator"
    by (simp add: generate_def generateBy_def textGenerator_def world_def js_def)
  have d: "getDifficulty textGenerator = JStr (js ''easy'')"
    by (simp add: getDifficulty_def textGenerator_def)
  have f: "freshNonce (textGenerator\<lparr>taken := 4\<rparr>) =
             Some (Returns (js ''0405060708090a0b0c0d0e0f10111213''), textGenerator\<lparr>taken := 20\<rparr>)"
    using freshNonce_first [of "textGenerator\<lparr>taken := 4\<rparr>"]
    by (simp add: nonce_4_20 [symmetric]) (simp add: textGenerator_def world_def)
  show ?thesis
    unfolding g generateText_def d
    by (simp add: bindIO_def text_drawn createChallenge_unfold f firstText_def answerString_def)
       (simp add: textGenerator_def world_def salt_20_28 expiry_first)
qed


definition textGenerator1 :: system where
  "textGenerator1 =
     textGenerator\<lparr>usedNonces := {js ''0405060708090a0b0c0d0e0f10111213''}, reads := 1, taken := 28\<rparr>"





lemma upt_48_56: "[48..<56] = [48, 49, 50, 51, 52, 53, 54, 55]"
  by code_simp








lemma first_text_run: "generate noBanks textGenerator = Some (Returns firstText, textGenerator1)"
  using first_text by (simp add: textGenerator1_def)



lemma toJS_firstText:
  "toJS firstText =
     JObj [(js ''type'', JStr (js ''text'')), (js ''question'', JStr (js ''ABCD'')),
           (js ''answer'', JStr (js ''ABCD'')),
           (js ''nonce'', JStr (js ''0405060708090a0b0c0d0e0f10111213'')),
           (js ''expiry'', JNum (Num 1700000300000)),
           (js ''hashedAnswer'', JStr (createHash_hex (js ''ABCD'' @ js ''1415161718191a1b''))),
           (js ''salt'', JStr (js ''1415161718191a1b''))]"
  by (simp add: firstText_def)

theorem expired_rejected_expiry_five_minutes_witness:
  "K9Guard_validate createHash_hex 1700000300001 (toJS firstText) (JStr (js ''ABCD'')) = Some False \<and>
   generate noBanks textGenerator = Some (Returns firstText, textGenerator1) \<and>
   reads textGenerator < reads textGenerator1 \<and>
   clock textGenerator (reads textGenerator1 - 1) = 1700000000000 \<and>
   expiry firstText = Num 1700000300000"
proof -
  have e: "getProp (toJS firstText) (js ''expiry'') = Some (JNum (Num 1700000300000))"
    unfolding toJS_firstText by (simp add: js_def)
  have n: "num_gt (Num (of_int 1700000300001)) (Num 1700000300000)"
    by (simp add: num_gt_def)
  have t: "clock textGenerator (reads textGenerator1 - 1) = 1700000000000"
    by (simp add: textGenerator1_def textGenerator_def world_def)
  from expired_rejected_expiry_five_minutes [of "toJS firstText" "Num 1700000300000"
      1700000300001 createHash_hex "JStr (js ''ABCD'')" noBanks textGenerator firstText
      textGenerator1] e n first_text_run
  show ?thesis unfolding t by (simp add: expiry_first)
qed

subsection \<open>Reading a random 32-bit number\<close>

lemma nextBytes_result:
  "nextBytes n s = Some (Returns (map (secure s) [taken s..<taken s + n]), s\<lparr>taken := taken s + n\<rparr>)"
  by (simp add: nextBytes_def)

lemma readUInt32LE_4:
  assumes "length buffer = 4"
  shows "\<exists>u. u < 2 ^ 32 \<and> readUInt32LE buffer 0 = returnIO u"
proof -
  have "unat w < 2 ^ 32" for w :: "32 word"
    using unsigned_less [of w, where ?'a = nat] by simp
  moreover have "\<exists>w :: 32 word. readUInt32LE buffer 0 = returnIO (unat w)"
    using assms by (simp add: readUInt32LE_def Let_def) blast
  ultimately show ?thesis by blast
qed

lemma read32:
  "\<exists>u. u < 2 ^ 32 \<and>
     bindIO (nextBytes 4) (\<lambda>buffer. bindIO (readUInt32LE buffer 0) k) s = k u (s\<lparr>taken := taken s + 4\<rparr>)"
proof -
  define bs where "bs = map (secure s) [taken s..<taken s + 4]"
  have "length bs = 4" by (simp add: bs_def)
  from readUInt32LE_4 [OF this] obtain u where u: "u < 2 ^ 32" "readUInt32LE bs 0 = returnIO u"
    by blast
  have "bindIO (nextBytes 4) (\<lambda>buffer. bindIO (readUInt32LE buffer 0) k) s
          = k u (s\<lparr>taken := taken s + 4\<rparr>)"
    by (simp add: bindIO_def nextBytes_result bs_def [symmetric] u(2) returnIO_def)
  with u(1) show ?thesis by blast
qed

lemma read32_result:
  assumes "bindIO (nextBytes 4) (\<lambda>buffer. bindIO (readUInt32LE buffer 0) k) s = Some y"
  shows "\<exists>u. u < 2 ^ 32 \<and> k u (s\<lparr>taken := taken s + 4\<rparr>) = Some y"
  using read32 [of k s] assms by auto

subsection \<open>Math challenges are issued\<close>

lemma fl_not_NaN [simp]: "fl r \<noteq> NaN"
  by (simp add: fl_def Let_def)

lemma scaled:
  assumes "u < 2 ^ 32" and "0 \<le> k" and "k \<le> 100"
  shows "\<exists>n. 1 \<le> n \<and>
           jsAdd (Math_floor (jsMul (jsDiv (Num (of_nat u)) (Num 0xFFFFFFFF)) (Num k))) (Num 1)
             = Num (of_int n)"
proof -
  define x :: rat where "x = of_nat u / 0xFFFFFFFF"
  have "u \<le> 4294967295" using assms(1) by simp
  then have "(of_nat u :: rat) \<le> 4294967295" by (metis of_nat_le_iff of_nat_numeral)
  then have x: "0 \<le> x" "x \<le> 1" by (simp_all add: x_def)
  from fl_bounded [OF x(1)] x(2) obtain v where v: "fl x = Num v" "0 \<le> v" "v \<le> 3"
    by fastforce
  have d: "jsDiv (Num (of_nat u)) (Num 0xFFFFFFFF) = Num v"
    by (simp add: jsDiv_def x_def [symmetric] v(1))
  have "v * k \<le> 3 * 100" using v(2,3) assms(2,3) by (intro mult_mono) simp_all
  then have vk: "0 \<le> v * k" "v * k \<le> 2 ^ 1000" using v(2) assms(2) by simp_all
  from fl_bounded [OF vk] \<open>v * k \<le> 3 * 100\<close> obtain w where
    w: "fl (v * k) = Num w" "0 \<le> w" "w \<le> 601" by fastforce
  have m: "Math_floor (jsMul (Num v) (Num k)) = Num (of_int \<lfloor>w\<rfloor>)"
    by (simp add: jsMul_def w(1) Math_floor_def)
  have f: "0 \<le> \<lfloor>w\<rfloor>" "\<lfloor>w\<rfloor> \<le> 601" using w(2,3) by (simp_all add: floor_le_iff)
  have "jsAdd (Num (of_int \<lfloor>w\<rfloor>)) (Num (of_int 1)) = Num (of_int (\<lfloor>w\<rfloor> + 1))"
    using f by (intro jsAdd_int) simp_all
  then show ?thesis unfolding d m using f(1) by (intro exI [of _ "\<lfloor>w\<rfloor> + 1"]) simp
qed


lemma getRandomNumber_result:
  "\<exists>n t. 1 \<le> n \<and> getRandomNumber difficulty s = Some (Returns (Num (of_int n)), s\<lparr>taken := t\<rparr>)"
proof -
  let ?k = "\<lambda>u. let rand = jsDiv (Num (of_nat u)) (Num 0xFFFFFFFF)
       in if strictEq difficulty (JStr (js ''easy'')) then
            returnIO (jsAdd (Math_floor (jsMul rand (Num 10))) (Num 1))
          else if strictEq difficulty (JStr (js ''medium'')) then
            returnIO (jsAdd (Math_floor (jsMul rand (Num 50))) (Num 1))
          else returnIO (jsAdd (Math_floor (jsMul rand (Num 100))) (Num 1))"
  from read32 [of ?k s] obtain u where u: "u < 2 ^ 32"
    and g: "getRandomNumber difficulty s = ?k u (s\<lparr>taken := taken s + 4\<rparr>)"
    unfolding getRandomNumber_def randomBytes_def by auto
  from scaled [OF u, of 10] scaled [OF u, of 50] scaled [OF u, of 100]
  show ?thesis unfolding g Let_def returnIO_def by auto
qed

lemma getRandomOperator_result:
  "\<exists>op t. getRandomOperator s = Some (Returns op, s\<lparr>taken := t\<rparr>)"
  by (simp add: getRandomOperator_def randomBytes_def nextBytes_def bindIO_def returnIO_def Let_def)
     (rule exI, rule refl)

lemma calculateMath_defined:
  assumes "y \<noteq> 0"
  shows "\<not> isNaN (calculateMath (Num x) op (Num y))"
proof -
  have 1: "jsDiv (Num x) (Num y) = fl (x / y)" using assms by (simp add: jsDiv_def)
  have 2: "jsMul z (Num 100) \<noteq> NaN" if "z \<noteq> NaN" for z
    using that by (cases z) (simp_all add: jsMul_def infinity_def)
  have 3: "Math_round z \<noteq> NaN" if "z \<noteq> NaN" for z
    using that by (cases z) (simp_all add: Math_round_def)
  have 4: "jsDiv z (Num 100) \<noteq> NaN" if "z \<noteq> NaN" for z
    using that by (cases z) (simp_all add: jsDiv_def infinity_def)
  have "jsDiv (Math_round (jsMul (jsDiv (Num x) (Num y)) (Num 100))) (Num 100) \<noteq> NaN"
    unfolding 1 by (intro 4 3 2) simp
  then show ?thesis
    using assms by (simp add: calculateMath_def isNaN_def jsAdd_def jsSub_def negate_def jsMul_def)
qed

lemma drawMath_returns:
  "\<exists>q a t. \<not> isNaN a \<and> drawMath s = Some (Returns (q, a), s\<lparr>taken := t\<rparr>)"
proof -
  define d where "d = getDifficulty s"
  from getRandomNumber_result [of d s] obtain n1 t1 where
    1: "1 \<le> n1" "getRandomNumber d s = Some (Returns (Num (of_int n1)), s\<lparr>taken := t1\<rparr>)" by blast
  from getRandomNumber_result [of d "s\<lparr>taken := t1\<rparr>"] obtain n2 t2 where
    2: "1 \<le> n2" "getRandomNumber d (s\<lparr>taken := t1\<rparr>) = Some (Returns (Num (of_int n2)), s\<lparr>taken := t2\<rparr>)"
    by auto
  from getRandomOperator_result [of "s\<lparr>taken := t2\<rparr>"] obtain op t3 where
    3: "getRandomOperator (s\<lparr>taken := t2\<rparr>) = Some (Returns op, s\<lparr>taken := t3\<rparr>)" by auto
  from 2(1) have z: "(of_int n2 :: rat) \<noteq> 0" and z': "n2 \<noteq> 0" by simp_all
  have "drawMath s =
          Some (Returns (numToString (Num (of_int n1)) @ js '' '' @ op @ js '' '' @ numToString (Num (of_int n2)),
                         calculateMath (Num (of_int n1)) op (Num (of_int n2))), s\<lparr>taken := t3\<rparr>)"
    unfolding drawMath_def d_def [symmetric]
    by (simp add: bindIO_def 1(2) 2(2) 3 z' returnIO_def Let_def)
  with calculateMath_defined [OF z] show ?thesis by blast
qed

lemma createChallenge_returns:
  assumes "usedNonces s = {}"
  shows "\<exists>c s'. createChallenge b s = Some (Returns c, s') \<and> ctype c = b_type b \<and>
           question c = b_question b \<and> answer c = b_answer b \<and> steps c = b_steps b"
  using assms by (simp add: createChallenge_unfold freshNonce_first)

lemma generateMath_returns:
  assumes "usedNonces s = {}"
  shows "\<exists>c s'. generateMath s = Some (Returns c, s') \<and> ctype c = js ''math''"
proof -
  from drawMath_returns [of s] obtain q a t where
    d: "\<not> isNaN a" "drawMath s = Some (Returns (q, a), s\<lparr>taken := t\<rparr>)" by blast
  have "generateMath s =
          createChallenge \<lparr>b_type = js ''math'', b_question = q, b_answer = JNum a, b_steps = None\<rparr>
            (s\<lparr>taken := t\<rparr>)"
    by (subst generateMath.simps) (simp add: d)
  with createChallenge_returns [of "s\<lparr>taken := t\<rparr>"
      "\<lparr>b_type = js ''math'', b_question = q, b_answer = JNum a, b_steps = None\<rparr>"] assms
  show ?thesis by auto
qed

subsection \<open>Letter sequences\<close>

lemma letter_answer: "letters ! (u mod 4 + 6) \<in> {js ''G'', js ''H'', js ''I'', js ''J''}"
proof -
  have "u mod 4 = 0 \<or> u mod 4 = 1 \<or> u mod 4 = 2 \<or> u mod 4 = 3" by arith
  then show ?thesis by (auto simp: letters_def)
qed

lemma sequence_medium:
  assumes "SequenceGenerator_generate (JStr (js ''medium'')) s = Some (r, s1)"
  shows "\<exists>q a. r = Returns (q, JStr a) \<and> a \<in> {js ''G'', js ''H'', js ''I'', js ''J''}"
proof -
  have e: "strictEq (JStr (js ''medium'')) (JStr (js ''easy'')) = False"
    "strictEq (JStr (js ''medium'')) (JStr (js ''medium'')) = True"
    by (simp_all add: js_def)
  have l: "length letters = 10" by (simp add: letters_def)
  have n: "(4 \<le> u mod 4) = False" for u :: nat by simp
  from read32_result [OF assms [unfolded SequenceGenerator_generate_def node_randomBytes_def e if_False if_True]]
  obtain u where "\<exists>q. r = Returns (q, JStr (letters ! (u mod 4 + 6)))"
    by (auto simp: Let_def returnIO_def l n)
  with letter_answer [of u] show ?thesis by blast
qed


lemma parseFloat_letter:
  assumes "a \<in> {js ''G'', js ''H'', js ''I'', js ''J''}"
  shows "parseFloat a = NaN" and "0 < length a" and "length a \<le> 1000"
  using assms
  by (auto simp: parseFloat_def trimStart_def unsignedValue_def unsignedDecimal_def
      js_def isWhiteSpace_def isDigit_def)

lemma generateSequence_medium:
  assumes "standardOptions s = Some opt" and "odifficulty opt = JStr (js ''medium'')"
    and "generateSequence s = Some (Returns c, s')"
  shows "\<exists>q a n e h sl. c = Challenge (js ''sequence'') q (JStr a) n e h sl None \<and>
           a \<in> {js ''G'', js ''H'', js ''I'', js ''J''}"
proof -
  from assms(1,2) have d: "getDifficulty s = JStr (js ''medium'')"
    by (simp add: getDifficulty_def)
  from assms(3) obtain x s1 where
    g: "SequenceGenerator_generate (JStr (js ''medium'')) s = Some (Returns x, s1)" and
    c: "(case x of (q, a) \<Rightarrow>
           createChallenge \<lparr>b_type = js ''sequence'', b_question = q, b_answer = a, b_steps = None\<rparr>) s1
        = Some (Returns c, s')"
    unfolding generateSequence_def d bindIO_result by blast
  from sequence_medium [OF g] obtain q a where
    x: "x = (q, JStr a)" and a: "a \<in> {js ''G'', js ''H'', js ''I'', js ''J''}" by blast
  from c [unfolded x] have
    "createChallenge \<lparr>b_type = js ''sequence'', b_question = q, b_answer = JStr a, b_steps = None\<rparr> s1
       = Some (Returns c, s')" by simp
  then obtain n e h sl where "c = Challenge (js ''sequence'') q (JStr a) n e h sl None"
    by (rule createChallenge_returned) simp
  with a show ?thesis by blast
qed

lemma letter_sequence_rejected:
  assumes "a \<in> {js ''G'', js ''H'', js ''I'', js ''J''}"
  shows "K9Guard_validate H now (toJS (Challenge (js ''sequence'') q (JStr a) n e h sl None)) (JStr a)
           = Some False"
proof -
  define c where "c = toJS (Challenge (js ''sequence'') q (JStr a) n e h sl None)"
  have p: "getProp c (js ''type'') = Some (JStr (js ''sequence''))"
    "getProp c (js ''expiry'') = Some (JNum e)"
    by (simp_all add: c_def js_def)
  have v: "isValidChallenge c = Some True"
    by (simp add: isValidChallenge_def c_def js_def)
  have k: "numericKind c" by (simp add: numericKind_def p)
  have "validate H c (JStr a) = validateNumeric H c a"
    using k parseFloat_letter(2,3) [OF assms] by (rule numericKind_dispatch)
  also have "\<dots> = Some False"
    by (simp add: validateNumeric_def parseFloat_letter(1) [OF assms] isNaN_def)
  finally show ?thesis
    unfolding c_def [symmetric] K9Guard_validate_def by (simp add: v p)
qed

text \<open>
  C1 fails for letter sequences. With kind \<open>sequence\<close> and difficulty \<open>medium\<close>, the answer
  of the challenge \<open>generate()\<close> returns is one of the letters G, H, I, J, and
  \<open>K9Guard.validate\<close> returns \<open>false\<close> for that answer at every time and with every digest:
  the validator takes every \<open>sequence\<close> challenge for a numeric one, and \<open>parseFloat\<close> of a
  letter is NaN.
\<close>

theorem letter_sequence_answer_rejected:
  assumes "customOptions s = None" and "standardOptions s = Some opt"
    and "otype opt = JStr (js ''sequence'')" and "odifficulty opt = JStr (js ''medium'')"
    and "generate B s = Some (Returns c, s')"
  shows "K9Guard_validate H now (toJS c) (JStr (answerString (answer c))) = Some False"
proof -
  from assms(1-3) have "generate B s = generateSequence s"
    by (simp add: generate_def generateBy_def js_def)
  with assms(5) have "generateSequence s = Some (Returns c, s')" by simp
  from generateSequence_medium [OF assms(2,4) this] obtain q a n e h sl where
    c: "c = Challenge (js ''sequence'') q (JStr a) n e h sl None" and
    a: "a \<in> {js ''G'', js ''H'', js ''I'', js ''J''}" by blast
  have "answerString (answer c) = a" by (simp add: c answerString_def)
  with letter_sequence_rejected [OF a, of H now q n e h sl] show ?thesis by (simp add: c)
qed


text \<open>\<open>sequenceGenerator\<close> is the state that
  \<open>new K9Guard({ type: 'sequence', difficulty: 'medium' })\<close> leaves on the platform of the
  examples; its first challenge is \<open>A, C, E, ?\<close> with the answer \<open>G\<close>.\<close>

definition sequenceGenerator :: system where
  "sequenceGenerator = world\<lparr>standardOptions :=
            Some \<lparr>otype = JStr (js ''sequence''), odifficulty = JStr (js ''medium''),
                  olocale = JStr (js ''en'')\<rparr>\<rparr>"

lemma K9Guard_sequence:
  "K9Guard (JObj [(js ''type'', JStr (js ''sequence'')), (js ''difficulty'', JStr (js ''medium''))])
     world = Inr sequenceGenerator"
  by (simp add: K9Guard_def processOptions_def field_def optionOr_def CaptchaGenerator_def
      isCustomOptions_def asStandard_def world_def sequenceGenerator_def js_def)

definition firstSequence :: challenge where
  "firstSequence =
     Challenge (js ''sequence'') (js ''A, C, E, ?'') (JStr (js ''G''))
       (js ''0405060708090a0b0c0d0e0f10111213'') (Num 1700000300000)
       (createHash_hex (js ''G'' @ js ''1415161718191a1b'')) (js ''1415161718191a1b'') None"

lemma sequence_drawn:
  "SequenceGenerator_generate (JStr (js ''medium'')) sequenceGenerator =
     Some (Returns (js ''A, C, E, ?'', JStr (js ''G'')), sequenceGenerator\<lparr>taken := 4\<rparr>)"
  by (simp add: SequenceGenerator_generate_def node_randomBytes_def nextBytes_def bindIO_def
      readUInt32LE_def returnIO_def Let_def sequenceGenerator_def world_def upt_0_4 letters_def
      js_def)

lemma first_sequence:
  "generate noBanks sequenceGenerator =
     Some (Returns firstSequence,
           sequenceGenerator\<lparr>usedNonces := {js ''0405060708090a0b0c0d0e0f10111213''}, reads := 1,
                              taken := 28\<rparr>)"
proof -
  have g: "generate noBanks sequenceGenerator = generateSequence sequenceGenerator"
    by (simp add: generate_def generateBy_def sequenceGenerator_def world_def js_def)
  have d: "getDifficulty sequenceGenerator = JStr (js ''medium'')"
    by (simp add: getDifficulty_def sequenceGenerator_def)
  have f: "freshNonce (sequenceGenerator\<lparr>taken := 4\<rparr>) =
             Some (Returns (js ''0405060708090a0b0c0d0e0f10111213''), sequenceGenerator\<lparr>taken := 20\<rparr>)"
    using freshNonce_first [of "sequenceGenerator\<lparr>taken := 4\<rparr>"]
    by (simp add: nonce_4_20 [symmetric]) (simp add: sequenceGenerator_def world_def)
  show ?thesis
    unfolding g generateSequence_def d
    by (simp add: bindIO_def sequence_drawn createChallenge_unfold f firstSequence_def
        answerString_def)
       (simp add: sequenceGenerator_def world_def salt_20_28 expiry_first)
qed

theorem letter_sequence_answer_rejected_witness:
  "K9Guard (JObj [(js ''type'', JStr (js ''sequence'')), (js ''difficulty'', JStr (js ''medium''))])
     world = Inr sequenceGenerator \<and>
   generate noBanks sequenceGenerator =
     Some (Returns firstSequence,
           sequenceGenerator\<lparr>usedNonces := {js ''0405060708090a0b0c0d0e0f10111213''}, reads := 1,
                              taken := 28\<rparr>) \<and>
   answerString (answer firstSequence) = js ''G'' \<and>
   K9Guard_validate createHash_hex 1700000000001 (toJS firstSequence) (JStr (js ''G'')) = Some False"
proof -
  have a: "answerString (answer firstSequence) = js ''G''"
    by (simp add: firstSequence_def answerString_def)
  from letter_sequence_answer_rejected [of sequenceGenerator
      "\<lparr>otype = JStr (js ''sequence''), odifficulty = JStr (js ''medium''), olocale = JStr (js ''en'')\<rparr>"
      noBanks firstSequence _ createHash_hex 1700000000001, OF _ _ _ _ first_sequence]
  have "K9Guard_validate createHash_hex 1700000000001 (toJS firstSequence)
          (JStr (answerString (answer firstSequence))) = Some False"
    by (simp add: sequenceGenerator_def world_def)
  with first_sequence a K9Guard_sequence show ?thesis by simp
qed

subsection \<open>Reverse puzzles\<close>

text \<open>\<open>reverseGenerator\<close> is the state that
  \<open>new K9Guard({ type: 'reverse', difficulty: 'easy' })\<close> leaves on the platform of the
  examples.\<close>

definition reverseGenerator :: system where
  "reverseGenerator = world\<lparr>standardOptions :=
            Some \<lparr>otype = JStr (js ''reverse''), odifficulty = JStr (js ''easy''),
                  olocale = JStr (js ''en'')\<rparr>\<rparr>"

lemma K9Guard_reverse:
  "K9Guard (JObj [(js ''type'', JStr (js ''reverse'')), (js ''difficulty'', JStr (js ''easy''))])
     (world\<lparr>mathRandom := m\<rparr>) = Inr (reverseGenerator\<lparr>mathRandom := m\<rparr>)"
  by (simp add: K9Guard_def processOptions_def field_def optionOr_def CaptchaGenerator_def
      isCustomOptions_def asStandard_def world_def reverseGenerator_def js_def)

text \<open>The challenge with the question \<open>q\<close> and the answer \<open>a\<close>, and the nonce, expiry and
  salt that the platform of the examples gives to the first challenge of kind \<open>reverse\<close>.\<close>

definition reversed :: "string \<Rightarrow> string \<Rightarrow> challenge" where
  "reversed q a =
     Challenge (js ''reverse'') (js q) (JStr (js a))
       (js ''000102030405060708090a0b0c0d0e0f'') (Num 1700000300000)
       (createHash_hex (js a @ js ''1011121314151617'')) (js ''1011121314151617'') None"

lemma upt_0_16: "[0..<16] = [0, 1, 2, 3, 4, 5, 6, 7, 8, 9, 10, 11, 12, 13, 14, 15]"
  by code_simp

lemma upt_16_24: "[16..<24] = [16, 17, 18, 19, 20, 21, 22, 23]"
  by code_simp

lemma nonce_0_16: "toHex (map of_nat [0..<16]) = js ''000102030405060708090a0b0c0d0e0f''"
  by (simp add: upt_0_16 toHex_def hexChar_def js_def)

lemma salt_16_24: "toHex [16, 17, 18, 19, 20, 21, 22, 23] = js ''1011121314151617''"
  by (simp add: toHex_def hexChar_def js_def)

lemma fl_16: "fl 16 = Num 16"
  using fl_int [of 16] by simp

lemma length_easyWords: "length easyWords = 32"
  by (simp add: easyWords_def)

lemma reverse_cat:
  "ReverseGenerator_generate (JStr (js ''easy'')) reverseGenerator =
     Some (Returns (js ''tac'', js ''cat''), reverseGenerator\<lparr>drawn := 1\<rparr>)"
  by (simp add: ReverseGenerator_generate_def Math_random_def bindIO_def returnIO_def Let_def
      length_easyWords jsMul_def fl_def Math_floor_def elementAt_def reverseGenerator_def world_def)
     (simp add: easyWords_def js_def)

lemma reverse_ice:
  "ReverseGenerator_generate (JStr (js ''easy'')) (reverseGenerator\<lparr>mathRandom := (\<lambda>n. 1 / 2)\<rparr>) =
     Some (Returns (js ''eci'', js ''ice''), reverseGenerator\<lparr>mathRandom := (\<lambda>n. 1 / 2), drawn := 1\<rparr>)"
  by (simp add: ReverseGenerator_generate_def Math_random_def bindIO_def returnIO_def Let_def
      length_easyWords jsMul_def fl_16 Math_floor_def elementAt_def reverseGenerator_def world_def)
     (simp add: easyWords_def js_def)


lemma reverse_issued:
  assumes "ReverseGenerator_generate (JStr (js ''easy'')) (reverseGenerator\<lparr>mathRandom := m\<rparr>) =
             Some (Returns (js q, js a), reverseGenerator\<lparr>mathRandom := m, drawn := 1\<rparr>)"
  shows "generate noBanks (reverseGenerator\<lparr>mathRandom := m\<rparr>) =
           Some (Returns (reversed q a),
                 reverseGenerator\<lparr>mathRandom := m, drawn := 1,
                   usedNonces := {js ''000102030405060708090a0b0c0d0e0f''}, reads := 1, taken := 24\<rparr>)"
proof -
  have g: "generate noBanks (reverseGenerator\<lparr>mathRandom := m\<rparr>) =
             generateReverse (reverseGenerator\<lparr>mathRandom := m\<rparr>)"
    by (simp add: generate_def generateBy_def reverseGenerator_def world_def js_def)
  have d: "getDifficulty (reverseGenerator\<lparr>mathRandom := m\<rparr>) = JStr (js ''easy'')"
    by (simp add: getDifficulty_def reverseGenerator_def)
  have f: "freshNonce (reverseGenerator\<lparr>mathRandom := m, drawn := Suc 0\<rparr>) =
             Some (Returns (js ''000102030405060708090a0b0c0d0e0f''),
                   reverseGenerator\<lparr>mathRandom := m, drawn := Suc 0, taken := 16\<rparr>)"
    using freshNonce_first [of "reverseGenerator\<lparr>mathRandom := m, drawn := Suc 0\<rparr>"]
    by (simp add: nonce_0_16 [symmetric]) (simp add: reverseGenerator_def world_def)
  show ?thesis
    unfolding g generateReverse_def d
    by (simp add: bindIO_def assms createChallenge_unfold f reversed_def answerString_def)
       (simp add: reverseGenerator_def world_def salt_16_24 expiry_first)
qed

text \<open>
  C6 fails for reverse puzzles. \<open>ReverseGenerator.generate\<close> chooses its word with
  \<open>Math.random()\<close>. Two runs of \<open>generate()\<close> for kind \<open>reverse\<close> that take the same bytes
  from the secure generator and read the same clock, one with \<open>Math.random()\<close> returning 0
  and one with 0.5, issue different challenges (\<open>tac\<close> and \<open>eci\<close>) with the same nonce and
  salt.
\<close>

theorem reverse_word_from_Math_random:
  "K9Guard (JObj [(js ''type'', JStr (js ''reverse'')), (js ''difficulty'', JStr (js ''easy''))])
     world = Inr reverseGenerator \<and>
   K9Guard (JObj [(js ''type'', JStr (js ''reverse'')), (js ''difficulty'', JStr (js ''easy''))])
     (world\<lparr>mathRandom := (\<lambda>n. 1 / 2)\<rparr>) = Inr (reverseGenerator\<lparr>mathRandom := (\<lambda>n. 1 / 2)\<rparr>) \<and>
   secure (reverseGenerator\<lparr>mathRandom := (\<lambda>n. 1 / 2)\<rparr>) = secure reverseGenerator \<and>
   clock (reverseGenerator\<lparr>mathRandom := (\<lambda>n. 1 / 2)\<rparr>) = clock reverseGenerator \<and>
   mathRandom reverseGenerator = (\<lambda>n. 0) \<and>
   generate noBanks reverseGenerator =
     Some (Returns (reversed ''tac'' ''cat''),
           reverseGenerator\<lparr>drawn := 1, usedNonces := {js ''000102030405060708090a0b0c0d0e0f''},
                             reads := 1, taken := 24\<rparr>) \<and>
   generate noBanks (reverseGenerator\<lparr>mathRandom := (\<lambda>n. 1 / 2)\<rparr>) =
     Some (Returns (reversed ''eci'' ''ice''),
           reverseGenerator\<lparr>mathRandom := (\<lambda>n. 1 / 2), drawn := 1,
             usedNonces := {js ''000102030405060708090a0b0c0d0e0f''}, reads := 1, taken := 24\<rparr>) \<and>
   reversed ''tac'' ''cat'' \<noteq> reversed ''eci'' ''ice''"
proof -
  have z: "reverseGenerator\<lparr>mathRandom := (\<lambda>n. 0)\<rparr> = reverseGenerator"
    by (simp add: reverseGenerator_def world_def)
  have 1: "generate noBanks reverseGenerator =
     Some (Returns (reversed ''tac'' ''cat''),
           reverseGenerator\<lparr>drawn := 1, usedNonces := {js ''000102030405060708090a0b0c0d0e0f''},
                             reads := 1, taken := 24\<rparr>)"
    using reverse_issued [of "\<lambda>n. 0" "''tac''" "''cat''"] reverse_cat unfolding z by simp
  have 2: "generate noBanks (reverseGenerator\<lparr>mathRandom := (\<lambda>n. 1 / 2)\<rparr>) =
     Some (Returns (reversed ''eci'' ''ice''),
           reverseGenerator\<lparr>mathRandom := (\<lambda>n. 1 / 2), drawn := 1,
             usedNonces := {js ''000102030405060708090a0b0c0d0e0f''}, reads := 1, taken := 24\<rparr>)"
    using reverse_issued [of "\<lambda>n. 1 / 2" "''eci''" "''ice''"] reverse_ice by simp
  have 3: "reversed ''tac'' ''cat'' \<noteq> reversed ''eci'' ''ice''"
    by (simp add: reversed_def js_def)
  have 4: "mathRandom reverseGenerator = (\<lambda>n. 0)"
    by (simp add: reverseGenerator_def world_def)
  have 5: "K9Guard (JObj [(js ''type'', JStr (js ''reverse'')), (js ''difficulty'', JStr (js ''easy''))])
     world = Inr reverseGenerator"
    using K9Guard_reverse [of "\<lambda>n. 0"] unfolding z by (simp add: world_def)
  from 1 2 3 4 5 K9Guard_reverse [of "\<lambda>n. 1 / 2"] show ?thesis by simp
qed

subsection \<open>Options left unset\<close>

text \<open>An option is unset when the options are not an object, or the field is missing or
  falsy (\<open>undefined\<close>, \<open>null\<close>, \<open>''\<close>, \<open>0\<close>, \<open>false\<close>).\<close>

definition unset :: "jsval \<Rightarrow> string \<Rightarrow> bool" where
  "unset opts name \<longleftrightarrow> typeof opts \<noteq> ''object'' \<or> opts = JNull \<or> \<not> truthy (field opts name)"

lemma processOptions_standard:
  assumes "\<not> strictEq (field opts ''type'') (JStr (js ''custom''))"
  shows "processOptions opts =
           Inr (StandardOptions
                  \<lparr>otype = (if unset opts ''type'' then JStr (js ''math'') else field opts ''type''),
                   odifficulty = (if unset opts ''difficulty'' then JStr (js ''medium'')
                                  else field opts ''difficulty''),
                   olocale = (if unset opts ''locale'' then JStr (js ''en'') else field opts ''locale'')\<rparr>)"
  using assms by (simp add: processOptions_def unset_def optionOr_def)

lemma processOptions_undefined:
  "processOptions (JObj [(js ''type'', JStr (js ''math'')), (js ''difficulty'', JStr (js ''medium''))]) =
     Inr (StandardOptions
            \<lparr>otype = JStr (js ''math''), odifficulty = JStr (js ''medium''), olocale = JStr (js ''en'')\<rparr>)"
  by (simp add: processOptions_def field_def optionOr_def js_def)

lemma K9Guard_standard:
  assumes "\<not> strictEq (field opts ''type'') (JStr (js ''custom''))"
  shows "K9Guard opts s =
           Inr (s\<lparr>standardOptions :=
                    Some \<lparr>otype = (if unset opts ''type'' then JStr (js ''math'') else field opts ''type''),
                          odifficulty = (if unset opts ''difficulty'' then JStr (js ''medium'')
                                         else field opts ''difficulty''),
                          olocale = (if unset opts ''locale'' then JStr (js ''en'')
                                     else field opts ''locale'')\<rparr>,
                  customOptions := None, customGenerator := None, usedNonces := {}\<rparr>)"
proof (cases "opts = JUndefined")
  case True
  then show ?thesis
    by (simp add: K9Guard_def processOptions_undefined CaptchaGenerator_def isCustomOptions_def
        asStandard_def unset_def)
next
  case False
  then show ?thesis
    by (simp add: K9Guard_def processOptions_standard [OF assms] CaptchaGenerator_def
        isCustomOptions_def asStandard_def)
qed

text \<open>
  C7, for options that are left unset. When the options given to the constructor are not of
  kind \<open>custom\<close>, the constructor does not throw, and each of kind, difficulty and locale
  that is unset is \<open>math\<close>, \<open>medium\<close>, \<open>en\<close>; one that is set is kept as it is given,
  valid or not. When the kind is unset, \<open>generate()\<close> on the new generator returns a
  challenge of kind \<open>math\<close>.
\<close>

theorem unset_options_default:
  assumes "\<not> strictEq (field opts ''type'') (JStr (js ''custom''))"
  shows "\<exists>g opt. K9Guard opts s = Inr g \<and> customOptions g = None \<and> standardOptions g = Some opt \<and>
           usedNonces g = {} \<and>
           otype opt = (if unset opts ''type'' then JStr (js ''math'') else field opts ''type'') \<and>
           odifficulty opt =
             (if unset opts ''difficulty'' then JStr (js ''medium'') else field opts ''difficulty'') \<and>
           olocale opt = (if unset opts ''locale'' then JStr (js ''en'') else field opts ''locale'') \<and>
           (unset opts ''type'' \<longrightarrow>
              (\<exists>c g'. generate B g = Some (Returns c, g') \<and> ctype c = js ''math''))"
proof -
  define opt where "opt =
     \<lparr>otype = (if unset opts ''type'' then JStr (js ''math'') else field opts ''type''),
      odifficulty = (if unset opts ''difficulty'' then JStr (js ''medium'') else field opts ''difficulty''),
      olocale = (if unset opts ''locale'' then JStr (js ''en'') else field opts ''locale'')\<rparr>"
  define g where "g = s\<lparr>standardOptions := Some opt, customOptions := None,
                       customGenerator := None, usedNonces := {}\<rparr>"
  have k: "K9Guard opts s = Inr g"
    unfolding g_def opt_def by (rule K9Guard_standard [OF assms])
  have f: "customOptions g = None" "standardOptions g = Some opt" "usedNonces g = {}"
    by (simp_all add: g_def)
  have m: "\<exists>c g'. generate B g = Some (Returns c, g') \<and> ctype c = js ''math''"
    if "unset opts ''type''"
  proof -
    from that have "otype opt = JStr (js ''math'')" by (simp add: opt_def)
    with f have "generate B g = generateMath g" by (simp add: generate_def generateBy_def)
    with generateMath_returns [OF f(3)] show ?thesis by simp
  qed
  from k f m show ?thesis by (auto simp: opt_def)
qed

definition mathMedium :: system where
  "mathMedium = world\<lparr>standardOptions :=
            Some \<lparr>otype = JStr (js ''math''), odifficulty = JStr (js ''medium''),
                  olocale = JStr (js ''en'')\<rparr>\<rparr>"

theorem unset_options_default_witness:
  "K9Guard (JObj []) world = Inr mathMedium \<and>
   (\<exists>c g'. generate noBanks mathMedium = Some (Returns c, g') \<and> ctype c = js ''math'')"
proof -
  have u: "unset (JObj []) name" for name by (simp add: unset_def field_def)
  have w: "world\<lparr>standardOptions :=
                   Some \<lparr>otype = JStr (js ''math''), odifficulty = JStr (js ''medium''),
                         olocale = JStr (js ''en'')\<rparr>,
                 customOptions := None, customGenerator := None, usedNonces := {}\<rparr> = mathMedium"
    by (simp add: mathMedium_def world_def)
  from unset_options_default [of "JObj []" world noBanks] show ?thesis
    by (auto simp: u field_def K9Guard_standard w)
qed

text \<open>
  A value that is given is not replaced by the default, and \<open>generate()\<close> may fail then:
  with \<open>{ type: 'reverse', difficulty: 'impossible' }\<close> the difficulty stays \<open>impossible\<close>,
  \<open>ReverseGenerator.generate\<close> finds no word pool for it, and \<open>generate()\<close> throws a
  TypeError.
\<close>

definition reverseImpossible :: system where
  "reverseImpossible = world\<lparr>standardOptions :=
            Some \<lparr>otype = JStr (js ''reverse''), odifficulty = JStr (js ''impossible''),
                  olocale = JStr (js ''en'')\<rparr>\<rparr>"

theorem invalid_difficulty_kept_counterexample:
  "K9Guard (JObj [(js ''type'', JStr (js ''reverse'')), (js ''difficulty'', JStr (js ''impossible''))])
     world = Inr reverseImpossible \<and>
   getDifficulty reverseImpossible = JStr (js ''impossible'') \<and>
   generate noBanks reverseImpossible = Some (Throws TypeError, reverseImpossible\<lparr>drawn := 1\<rparr>)"
proof -
  have 1: "K9Guard (JObj [(js ''type'', JStr (js ''reverse'')), (js ''difficulty'', JStr (js ''impossible''))])
     world = Inr reverseImpossible"
    by (simp add: K9Guard_def processOptions_def field_def optionOr_def CaptchaGenerator_def
        isCustomOptions_def asStandard_def reverseImpossible_def world_def js_def)
  have 2: "getDifficulty reverseImpossible = JStr (js ''impossible'')"
    by (simp add: getDifficulty_def reverseImpossible_def)
  have g: "generate noBanks reverseImpossible = generateReverse reverseImpossible"
    by (simp add: generate_def generateBy_def reverseImpossible_def world_def js_def)
  have r: "ReverseGenerator_generate (JStr (js ''impossible'')) reverseImpossible =
             Some (Throws TypeError, reverseImpossible\<lparr>drawn := 1\<rparr>)"
    by (simp add: ReverseGenerator_generate_def Math_random_def bindIO_def throwIO_def Let_def js_def)
       (simp add: reverseImpossible_def world_def)
  have 3: "generate noBanks reverseImpossible = Some (Throws TypeError, reverseImpossible\<lparr>drawn := 1\<rparr>)"
    unfolding g generateReverse_def 2 by (simp add: bindIO_def r)
  from 1 2 3 show ?thesis by simp
qed

section \<open>Further properties\<close>

subsection \<open>The commitment\<close>

lemma length_foldl_mixByte: "length (foldl (mixByte r) h xs) = length h"
  by (induction xs arbitrary: h) simp_all

lemma length_diffuse: "length (diffuse h r) = length h"
  by (simp add: diffuse_def length_foldl_mixByte)

lemma length_foldl_diffuse: "length (foldl diffuse h rs) = length h"
  by (induction rs arbitrary: h) (simp_all add: length_diffuse)

lemma length_createHash_hex: "length (createHash_hex text) = 64"
  by (simp add: createHash_hex_def digestHex_def digestBytes_def computeHashSync_def
      length_foldl_diffuse)

text \<open>
  Every challenge that \<open>generate()\<close> returns carries the digest of \<open>answer.toString()\<close>
  followed by its salt, as 64 hex characters; its nonce has 32 characters and its salt 16.
\<close>

theorem issued_commitment:
  "generate B s = Some (Returns c, s') \<longrightarrow>
     hashedAnswer c = createHash_hex (answerString (answer c) @ salt c) \<and>
     length (hashedAnswer c) = 64 \<and> length (nonce c) = 32 \<and> length (salt c) = 16"
proof
  assume "generate B s = Some (Returns c, s')"
  from issuerD [OF issuer_generate this] have
    "hashedAnswer c = createHash_hex (answerString (answer c) @ salt c)"
    "length (nonce c) = 32" "length (salt c) = 16"
    by (simp_all add: issued_def)
  then show "hashedAnswer c = createHash_hex (answerString (answer c) @ salt c) \<and>
     length (hashedAnswer c) = 64 \<and> length (nonce c) = 32 \<and> length (salt c) = 16"
    by (simp add: length_createHash_hex)
qed

theorem issued_commitment_witness:
  "generate noBanks textGenerator = Some (Returns firstText, textGenerator1) \<and>
   hashedAnswer firstText = createHash_hex (js ''ABCD'' @ js ''1415161718191a1b'') \<and>
   length (hashedAnswer firstText) = 64 \<and> length (nonce firstText) = 32 \<and>
   length (salt firstText) = 16"
  using issued_commitment [of noBanks textGenerator firstText textGenerator1] first_text_run
  by (simp add: firstText_def answerString_def)

subsection \<open>The verifier never throws\<close>

text \<open>\<open>K9Guard.validate\<close> returns \<open>true\<close> or \<open>false\<close> for every challenge value, every input
  value, every time and every digest.\<close>

theorem validate_never_throws: "\<exists>b. K9Guard_validate H now c u = Some b"
  by (rule K9Guard_validate_returns)

subsection \<open>Text challenges verify\<close>

definition alphanumeric :: "jschar \<Rightarrow> bool" where
  "alphanumeric c \<longleftrightarrow>
     (0x41 \<le> c \<and> c \<le> 0x5A) \<or> (0x61 \<le> c \<and> c \<le> 0x7A) \<or> (0x30 \<le> c \<and> c \<le> 0x39)"

lemma chars_alphanumeric: "list_all alphanumeric chars"
  by (simp add: chars_def js_def alphanumeric_def)

lemma length_chars: "length chars = 62"
  by (simp add: chars_def js_def)

lemma alphanumeric_valid: "alphanumeric c \<Longrightarrow> validChar c"
  by (auto simp: alphanumeric_def validChar_def)

lemma alphanumeric_no_space: "alphanumeric c \<Longrightarrow> \<not> isWhiteSpace c"
  by (auto simp: alphanumeric_def isWhiteSpace_def word_le_nat_alt)

lemma dropWhile_none: "list_all (\<lambda>c. \<not> P c) xs \<Longrightarrow> dropWhile P xs = xs"
  by (cases xs) simp_all

lemma trim_alphanumeric:
  assumes "list_all alphanumeric t"
  shows "trim t = t"
proof -
  from assms have n: "list_all (\<lambda>c. \<not> isWhiteSpace c) t"
    by (simp add: list_all_iff alphanumeric_no_space)
  then have "list_all (\<lambda>c. \<not> isWhiteSpace c) (rev t)" by (simp add: list_all_iff)
  with n show ?thesis by (simp add: trim_def dropWhile_none)
qed


lemma generateRandomString_result:
  assumes "generateRandomString difficulty s = Some (r, s1)"
  shows "\<exists>t. r = Returns t \<and> list_all alphanumeric t \<and> 0 < length t \<and> length t \<le> 1000"
proof -
  define len :: nat where "len = (if strictEq difficulty (JStr (js ''easy'')) then 4
                 else if strictEq difficulty (JStr (js ''medium'')) then 6 else 8)"
  have l: "0 < len" "len \<le> 8" by (simp_all add: len_def)
  define buffer where "buffer = map (secure s) [taken s..<taken s + len]"
  define t where "t = map (\<lambda>i. chars ! (unat (buffer ! i) mod length chars)) [0..<len]"
  have "randomBytes len s = Some (Returns buffer, s\<lparr>taken := taken s + len\<rparr>)"
    using l by (simp add: randomBytes_def nextBytes_result buffer_def)
  with assms have r: "r = Returns t"
    unfolding generateRandomString_def len_def [symmetric] Let_def
    by (simp add: bindIO_def returnIO_def t_def)
  have "chars ! (k mod length chars) \<in> set chars" for k
    by (rule nth_mem) (simp add: length_chars)
  with chars_alphanumeric have "alphanumeric (chars ! (k mod length chars))" for k
    by (simp add: list_all_iff)
  then have "list_all alphanumeric t" by (simp add: t_def list_all_iff)
  with r l show ?thesis by (simp add: t_def)
qed

lemma text_challenge_accepted:
  assumes "list_all alphanumeric t" and "0 < length t" and "length t \<le> 1000"
    and "\<not> num_gt (Num (of_int now)) e"
  shows "K9Guard_validate H now
           (toJS (Challenge (js ''text'') q (JStr t) n e (H (t @ sl)) sl None)) (JStr t) = Some True"
proof -
  define c where "c = toJS (Challenge (js ''text'') q (JStr t) n e (H (t @ sl)) sl None)"
  have p: "getProp c (js ''type'') = Some (JStr (js ''text''))"
    "getProp c (js ''expiry'') = Some (JNum e)"
    "getProp c (js ''salt'') = Some (JStr sl)"
    "getProp c (js ''hashedAnswer'') = Some (JStr (H (t @ sl)))"
    by (simp_all add: c_def js_def)
  have v: "isValidChallenge c = Some True"
    by (simp add: isValidChallenge_def c_def js_def)
  have i: "isValidInput (JStr t)"
    using assms(2,3) by (simp add: isValidInput_def MAX_INPUT_LENGTH_def)
  have k: "isNumericChallenge c = Some False"
    by (simp add: isNumericChallenge_def p) (simp add: js_def)
  have r: "VALID_CHAR_REGEX_test t"
    using assms(1) by (simp add: VALID_CHAR_REGEX_test_def list_all_iff alphanumeric_valid)
  have "validateText H c t = Some True"
    by (simp add: validateText_def trim_alphanumeric [OF assms(1)] r verifyAnswer_stored [OF p(3,4)])
  then have "validate H c (JStr t) = Some True"
    using i k by (simp add: validate.simps p) (simp add: js_def)
  then show ?thesis
    unfolding c_def [symmetric] K9Guard_validate_def using assms(4) by (simp add: v p)
qed

text \<open>
  A challenge of kind \<open>text\<close> that \<open>generate()\<close> returns verifies with its own answer until
  it expires, when the verifier computes the digest the issuer computed
  (\<open>createHash_hex\<close>, the digest of \<open>utils/crypto.ts\<close>).
\<close>

theorem text_answer_accepted:
  assumes "customOptions s = None" and "standardOptions s = Some opt"
    and "otype opt = JStr (js ''text'')" and "generate B s = Some (Returns c, s')"
    and "\<not> num_gt (Num (of_int now)) (expiry c)"
  shows "K9Guard_validate createHash_hex now (toJS c) (JStr (answerString (answer c))) = Some True"
proof -
  from assms(1-3) have "generate B s = generateText s"
    by (simp add: generate_def generateBy_def js_def)
  with assms(4) have "generateText s = Some (Returns c, s')" by simp
  then obtain t s1 where
    g: "generateRandomString (getDifficulty s) s = Some (Returns t, s1)" and
    c: "createChallenge \<lparr>b_type = js ''text'', b_question = t, b_answer = JStr t, b_steps = None\<rparr> s1
          = Some (Returns c, s')"
    unfolding generateText_def bindIO_result by auto
  from generateRandomString_result [OF g] have
    t: "list_all alphanumeric t" "0 < length t" "length t \<le> 1000" by simp_all
  from c obtain n e sl where
    "c = Challenge (js ''text'') t (JStr t) n e (createHash_hex (answerString (JStr t) @ sl)) sl None"
    by (rule createChallenge_returned) simp
  then have c': "c = Challenge (js ''text'') t (JStr t) n e (createHash_hex (t @ sl)) sl None"
    by (simp add: answerString_def)
  from assms(5) have "\<not> num_gt (Num (of_int now)) e" by (simp add: c')
  from text_challenge_accepted [OF t this, of createHash_hex t n sl] show ?thesis
    by (simp add: c' answerString_def)
qed

theorem text_answer_accepted_witness:
  "generate noBanks textGenerator = Some (Returns firstText, textGenerator1) \<and>
   answerString (answer firstText) = js ''ABCD'' \<and>
   K9Guard_validate createHash_hex 1700000000001 (toJS firstText) (JStr (js ''ABCD'')) = Some True"
proof -
  have a: "answerString (answer firstText) = js ''ABCD''"
    by (simp add: firstText_def answerString_def)
  have e: "\<not> num_gt (Num (of_int 1700000000001)) (expiry firstText)"
    by (simp add: firstText_def num_gt_def)
  from text_answer_accepted [of textGenerator
      "\<lparr>otype = JStr (js ''text''), odifficulty = JStr (js ''easy''), olocale = JStr (js ''en'')\<rparr>"
      noBanks firstText textGenerator1 1700000000001, OF _ _ _ first_text_run e]
  have "K9Guard_validate createHash_hex 1700000000001 (toJS firstText)
          (JStr (answerString (answer firstText))) = Some True"
    by (simp add: textGenerator_def world_def)
  with first_text_run a show ?thesis by simp
qed


subsection \<open>Custom questions that are refused\<close>

text \<open>
  When the options are of kind \<open>custom\<close> and \<open>CustomQuestionValidator.validate\<close> refuses the
  questions, the constructor throws an error that carries the validator's message, and
  there is no generator. An empty list is refused, and so is a question of fewer than five
  characters, with its position in the message.
\<close>

theorem invalid_custom_questions_rejected:
  assumes "typeof opts = ''object''" and "opts \<noteq> JNull"
    and "strictEq (field opts ''type'') (JStr (js ''custom''))"
    and "field opts ''questions'' = JArr qs"
    and "CustomQuestionValidator_validate (JArr qs) = Some e"
  shows "K9Guard opts s = Inl (Error (js ''Invalid custom questions: '' @ e))"
proof -
  from assms(1) have "opts \<noteq> JUndefined" by auto
  with assms show ?thesis by (simp add: K9Guard_def processOptions_def)
qed

lemma digitsOf_1: "digitsOf 1 = [49]"
  by (simp add: digitsOf.simps)

theorem invalid_custom_questions_rejected_witness:
  "K9Guard (JObj [(js ''type'', JStr (js ''custom'')), (js ''questions'', JArr [])]) world =
     Inl (Error (js ''Invalid custom questions: At least one question is required'')) \<and>
   K9Guard (JObj [(js ''type'', JStr (js ''custom'')),
                  (js ''questions'',
                   JArr [JObj [(js ''question'', JStr (js ''Hi?'')), (js ''answer'', JStr (js ''yes'')),
                               (js ''difficulty'', JStr (js ''easy''))]])]) world =
     Inl (Error (js ''Invalid custom questions: Question 1: Question must be at least 5 characters''))"
proof -
  let ?q = "JObj [(js ''question'', JStr (js ''Hi?'')), (js ''answer'', JStr (js ''yes'')),
                  (js ''difficulty'', JStr (js ''easy''))]"
  have 1: "CustomQuestionValidator_validate (JArr []) = Some (js ''At least one question is required'')"
    by (simp add: CustomQuestionValidator_validate_def)
  have "validateSingle ?q = Some (js ''Question must be at least 5 characters'')"
    by (simp add: validateSingle_def field_def VALID_DIFFICULTY_def js_def)
  then have 2: "CustomQuestionValidator_validate (JArr [?q]) =
                  Some (js ''Question 1: Question must be at least 5 characters'')"
    by (simp add: CustomQuestionValidator_validate_def digitsOf_1) (simp add: js_def)
  from invalid_custom_questions_rejected
         [of "JObj [(js ''type'', JStr (js ''custom'')), (js ''questions'', JArr [])]" "[]" _ world, OF _ _ _ _ 1]
       invalid_custom_questions_rejected
         [of "JObj [(js ''type'', JStr (js ''custom'')), (js ''questions'', JArr [?q])]" "[?q]" _ world,
          OF _ _ _ _ 2]
  show ?thesis by (simp add: field_def js_def)
qed

end
